theory Spec2Isabelle
  imports Complex_Main "HOL-Library.Sublist" "HOL-Library.AList"
begin

section \<open>Data model\<close>

text \<open>
  The tables of the relational store, one record per row type. Identifiers of users,
  competitions, weeks, task templates and side challenges are the opaque strings of the
  source. Only the columns that the modelled functions read or write are kept. Field
  names follow the source; a column name that several tables share carries the table's
  prefix (\<open>sc_\<close>, \<open>tl_\<close>, \<open>sub_\<close>, ...). Dates are milliseconds since the epoch.
  A number that holds a measurement or money is the real that the JavaScript number
  denotes; for a numeric column it is the number that \<open>Number(column)\<close> yields. Token
  counts and points (integer columns) are integers.
\<close>

datatype SideChallengeStatus = PROPOSED | ACCEPTED | PENDING_REVIEW | RESOLVED | DECLINED | VOID

datatype LedgerReason =
    PERFECT_WEEK_EARNED
  | SIDE_CHALLENGE_STAKE
  | SIDE_CHALLENGE_WIN
  | SIDE_CHALLENGE_TIE_REFUND
  | SIDE_CHALLENGE_VOID_REFUND

datatype WeekStatus = UPCOMING | OPEN | LOCKED

record User =
  user_id :: string
  displayName :: string

record Challenge =
  ch_id :: string
  organizerUserId :: string
  buyInAmount :: real
  weeklyPrizeAmount :: real
  grandPrizeAmount :: "real option"
  weeklyPrizePercent :: real
  grandPrizePercent :: real
  numberOfWeeks :: int

record Participant =
  p_challengeId :: string
  p_userId :: string

record TaskTemplate =
  tt_id :: string
  tt_challengeId :: string
  active :: bool
  points :: int

record Week =
  wk_id :: string
  wk_challengeId :: string
  wk_status :: WeekStatus

record Completion =
  c_challengeId :: string
  c_weekId :: string
  c_userId :: string
  taskTemplateId :: string

record SideChallenge =
  sc_id :: string
  sc_challengeId :: string
  sc_weekId :: string
  createdByUserId :: string
  opponentUserId :: string
  sc_status :: SideChallengeStatus
  metricType :: string
  targetValue :: "real option"
  stakeTokens :: int
  expiresAt :: nat
  acceptedAt :: "nat option"
  resolvedAt :: "nat option"
  winnerUserId :: "string option"
  resolutionNote :: "string option"

record SideChallengeSubmission =
  sub_sideChallengeId :: string
  sub_userId :: string
  valueNumber :: real

text \<open>
  A ledger row. The primary key is a \<open>cuid()\<close> string generated by the store; the model
  uses a natural number that the table picks larger than every key present.
\<close>

record TokenLedger =
  tl_id :: nat
  tl_challengeId :: string
  tl_userId :: string
  tl_weekId :: "string option"
  delta :: int
  reason :: LedgerReason
  relatedEntityId :: "string option"

record db =
  users :: "User list"
  challenges :: "Challenge list"
  participants :: "Participant list"
  taskTemplates :: "TaskTemplate list"
  weeks :: "Week list"
  completions :: "Completion list"
  sideChallenges :: "SideChallenge list"
  submissions :: "SideChallengeSubmission list"
  tokenLedger :: "TokenLedger list"

section \<open>Numbers of the runtime\<close>

text \<open>
  JavaScript numbers are double-precision floating-point numbers. Comparison and
  \<open>Math.abs\<close> are exact on them; subtraction and multiplication round their result, and
  the rendering of a number in a template string follows the number-to-string conversion.
  Every function that computes with numbers takes these operations as the parameter
  \<open>rt\<close>, so that what is proved holds for the rounding of the doubles as for any other.
  \<open>decimalColumns\<close> says how the database client returns a numeric column: as a Decimal
  object, which is truthy whatever its value, or as a number, which is falsy when 0. The
  schema that decides this is not part of the source. Only finite numbers are modelled.
\<close>

record Runtime =
  numToString :: "real \<Rightarrow> string"
  numSub :: "real \<Rightarrow> real \<Rightarrow> real"
  numMul :: "real \<Rightarrow> real \<Rightarrow> real"
  decimalColumns :: bool

section \<open>Store primitives\<close>

definition next_id :: "TokenLedger list \<Rightarrow> nat" where
  "next_id L = Suc (fold max (map tl_id L) 0)"

text \<open>\<open>tx.tokenLedger.create\<close>: append one row under a fresh key.\<close>

definition tokenLedger_create :: "TokenLedger \<Rightarrow> TokenLedger list \<Rightarrow> TokenLedger list" where
  "tokenLedger_create row L = L @ [row\<lparr>tl_id := next_id L\<rparr>]"

text \<open>\<open>tx.tokenLedger.createMany\<close>: the rows one after the other.\<close>

definition tokenLedger_createMany :: "TokenLedger list \<Rightarrow> TokenLedger list \<Rightarrow> TokenLedger list" where
  "tokenLedger_createMany rows L = fold tokenLedger_create rows L"

text \<open>\<open>tokenLedger.deleteMany({where: {id: {in: ids}}})\<close>.\<close>

definition tokenLedger_deleteMany :: "nat list \<Rightarrow> TokenLedger list \<Rightarrow> TokenLedger list" where
  "tokenLedger_deleteMany ids L = filter (\<lambda>e. tl_id e \<notin> set ids) L"

text \<open>\<open>sideChallenge.update({where: {id}, data})\<close>, the data given as a function on the row.\<close>

definition sideChallenge_update ::
  "string \<Rightarrow> (SideChallenge \<Rightarrow> SideChallenge) \<Rightarrow> SideChallenge list \<Rightarrow> SideChallenge list" where
  "sideChallenge_update i f scs = map (\<lambda>sc. if sc_id sc = i then f sc else sc) scs"

text \<open>
  The truthiness test \<open>x ? a : b\<close> on a nullable numeric column: null is falsy, a Decimal
  object is truthy, and a number is truthy unless it is 0.
\<close>

definition truthy_number :: "Runtime \<Rightarrow> real option \<Rightarrow> bool" where
  "truthy_number rt x = (case x of None \<Rightarrow> False | Some v \<Rightarrow> decimalColumns rt \<or> v \<noteq> 0)"

section \<open>lib/tokens.ts\<close>

text \<open>\<open>getTokenBalance\<close>: \<open>aggregate\<close> yields null on no rows, which \<open>??\<close> turns into 0.\<close>

definition aggregate_sum_delta :: "TokenLedger list \<Rightarrow> int option" where
  "aggregate_sum_delta rows = (if rows = [] then None else Some (sum_list (map delta rows)))"

definition getTokenBalance :: "db \<Rightarrow> string \<Rightarrow> string \<Rightarrow> int" where
  "getTokenBalance d challengeId userId =
     (case aggregate_sum_delta
             (filter (\<lambda>e. tl_challengeId e = challengeId \<and> tl_userId e = userId) (tokenLedger d)) of
        None \<Rightarrow> 0
      | Some s \<Rightarrow> s)"

section \<open>lib/side-challenges.ts\<close>

record AvailableBalance =
  total :: int
  available :: int
  staked :: int

definition isOpenStatus :: "SideChallengeStatus \<Rightarrow> bool" where
  "isOpenStatus s = (s = PROPOSED \<or> s = ACCEPTED \<or> s = PENDING_REVIEW)"

text \<open>The body of the \<open>forEach\<close> in \<open>getAvailableBalance\<close>, on the running \<open>staked\<close>.\<close>

definition addStake :: "string \<Rightarrow> SideChallenge \<Rightarrow> int \<Rightarrow> int" where
  "addStake userId challenge acc =
     (if createdByUserId challenge = userId then acc + stakeTokens challenge
      else if sc_status challenge = ACCEPTED \<or> sc_status challenge = PENDING_REVIEW
        then acc + stakeTokens challenge
      else acc)"

definition getAvailableBalance :: "db \<Rightarrow> string \<Rightarrow> string \<Rightarrow> AvailableBalance" where
  "getAvailableBalance d challengeId userId =
     (let total = getTokenBalance d challengeId userId;
          stakedChallenges =
            filter (\<lambda>sc. sc_challengeId sc = challengeId
                         \<and> (createdByUserId sc = userId \<or> opponentUserId sc = userId)
                         \<and> isOpenStatus (sc_status sc))
                   (sideChallenges d);
          staked = fold (addStake userId) stakedChallenges 0
      in \<lparr>total = total, available = total - staked, staked = staked\<rparr>)"

definition ledgerRow ::
  "string \<Rightarrow> string \<Rightarrow> string \<Rightarrow> int \<Rightarrow> LedgerReason \<Rightarrow> string option \<Rightarrow> TokenLedger" where
  "ledgerRow challengeId userId weekId amount r related =
     \<lparr>tl_id = 0, tl_challengeId = challengeId, tl_userId = userId, tl_weekId = Some weekId,
      delta = amount, reason = r, relatedEntityId = related\<rparr>"

definition stakeSideChallengeTokens ::
  "string \<Rightarrow> string \<Rightarrow> string \<Rightarrow> string \<Rightarrow> int \<Rightarrow> TokenLedger list \<Rightarrow> TokenLedger list" where
  "stakeSideChallengeTokens challengeId weekId sideChallengeId userId amount L =
     tokenLedger_create
       (ledgerRow challengeId userId weekId (- amount) SIDE_CHALLENGE_STAKE (Some sideChallengeId)) L"

datatype WinnerTag = creator | opponent | tie

record WinnerCalculation =
  winnerId :: WinnerTag
  wc_reason :: string
  wc_winnerUserId :: "string option"

text \<open>
  \<open>calculateWinner\<close>. The template strings render numbers with \<open>numToString\<close>, and the
  two distances are the rounded differences \<open>numSub\<close>. A \<open>throw\<close> is \<open>Inl\<close> of the message.
\<close>

definition calculateWinner ::
  "Runtime \<Rightarrow> string \<Rightarrow> real option \<Rightarrow> real \<Rightarrow> real \<Rightarrow> string \<Rightarrow> string
     \<Rightarrow> string + WinnerCalculation" where
  "calculateWinner rt mt target creatorValue opponentValue creatorUserId opponentUserId' =
     (if mt = ''HIGHER_WINS'' then
        (if creatorValue > opponentValue then
           Inr \<lparr>winnerId = creator,
                wc_reason = ''Higher value wins: '' @ numToString rt creatorValue @ '' > ''
                          @ numToString rt opponentValue,
                wc_winnerUserId = Some creatorUserId\<rparr>
         else if opponentValue > creatorValue then
           Inr \<lparr>winnerId = opponent,
                wc_reason = ''Higher value wins: '' @ numToString rt opponentValue @ '' > ''
                          @ numToString rt creatorValue,
                wc_winnerUserId = Some opponentUserId'\<rparr>
         else
           Inr \<lparr>winnerId = tie,
                wc_reason = ''Tie: Both achieved '' @ numToString rt creatorValue,
                wc_winnerUserId = None\<rparr>)
      else if mt = ''LOWER_WINS'' then
        (if creatorValue < opponentValue then
           Inr \<lparr>winnerId = creator,
                wc_reason = ''Lower value wins: '' @ numToString rt creatorValue @ '' < ''
                          @ numToString rt opponentValue,
                wc_winnerUserId = Some creatorUserId\<rparr>
         else if opponentValue < creatorValue then
           Inr \<lparr>winnerId = opponent,
                wc_reason = ''Lower value wins: '' @ numToString rt opponentValue @ '' < ''
                          @ numToString rt creatorValue,
                wc_winnerUserId = Some opponentUserId'\<rparr>
         else
           Inr \<lparr>winnerId = tie,
                wc_reason = ''Tie: Both achieved '' @ numToString rt creatorValue,
                wc_winnerUserId = None\<rparr>)
      else if mt = ''TARGET_THRESHOLD'' then
        (case target of
           None \<Rightarrow> Inl ''Target value required for TARGET_THRESHOLD metric type''
         | Some targetValue' \<Rightarrow>
             (let creatorDistance = \<bar>numSub rt creatorValue targetValue'\<bar>;
                  opponentDistance = \<bar>numSub rt opponentValue targetValue'\<bar>
              in if creatorDistance < opponentDistance then
                   Inr \<lparr>winnerId = creator,
                        wc_reason = ''Closest to target '' @ numToString rt targetValue'
                          @ '': Creator '' @ numToString rt creatorValue
                          @ '' (distance '' @ numToString rt creatorDistance
                          @ '') vs Opponent '' @ numToString rt opponentValue
                          @ '' (distance '' @ numToString rt opponentDistance @ '')'',
                        wc_winnerUserId = Some creatorUserId\<rparr>
                 else if opponentDistance < creatorDistance then
                   Inr \<lparr>winnerId = opponent,
                        wc_reason = ''Closest to target '' @ numToString rt targetValue'
                          @ '': Opponent '' @ numToString rt opponentValue
                          @ '' (distance '' @ numToString rt opponentDistance
                          @ '') vs Creator '' @ numToString rt creatorValue
                          @ '' (distance '' @ numToString rt creatorDistance @ '')'',
                        wc_winnerUserId = Some opponentUserId'\<rparr>
                 else
                   Inr \<lparr>winnerId = tie,
                        wc_reason =
                          ''Tie: Both equally distant from target '' @ numToString rt targetValue',
                        wc_winnerUserId = None\<rparr>))
      else Inl (''Unknown metric type: '' @ mt))"

definition resolveSideChallengeTokens ::
  "string \<Rightarrow> string \<Rightarrow> string \<Rightarrow> string option \<Rightarrow> string \<Rightarrow> string \<Rightarrow> int
     \<Rightarrow> TokenLedger list \<Rightarrow> TokenLedger list" where
  "resolveSideChallengeTokens challengeId weekId sideChallengeId winner creatorUserId opponentUserId'
       stakeAmount L =
     (case winner of
        None \<Rightarrow>
          tokenLedger_createMany
            [ledgerRow challengeId creatorUserId weekId stakeAmount SIDE_CHALLENGE_TIE_REFUND
               (Some sideChallengeId),
             ledgerRow challengeId opponentUserId' weekId stakeAmount SIDE_CHALLENGE_TIE_REFUND
               (Some sideChallengeId)] L
      | Some w \<Rightarrow>
          tokenLedger_create
            (ledgerRow challengeId w weekId (stakeAmount * 2) SIDE_CHALLENGE_WIN
               (Some sideChallengeId)) L)"

definition voidSideChallengeTokens ::
  "string \<Rightarrow> string \<Rightarrow> string \<Rightarrow> string \<Rightarrow> string \<Rightarrow> int \<Rightarrow> bool
     \<Rightarrow> TokenLedger list \<Rightarrow> TokenLedger list" where
  "voidSideChallengeTokens challengeId weekId sideChallengeId creatorUserId opponentUserId'
       stakeAmount wasAccepted L =
     (let refunds =
            [ledgerRow challengeId creatorUserId weekId stakeAmount SIDE_CHALLENGE_VOID_REFUND
               (Some sideChallengeId)];
          refunds' =
            (if wasAccepted
             then refunds @
               [ledgerRow challengeId opponentUserId' weekId stakeAmount SIDE_CHALLENGE_VOID_REFUND
                  (Some sideChallengeId)]
             else refunds)
      in tokenLedger_createMany refunds' L)"

text \<open>
  \<open>getSideChallengeById\<close>: the row, with \<open>targetValue\<close> passed through
  \<open>c.targetValue ? Number(c.targetValue) : null\<close>.
\<close>

definition normTarget :: "Runtime \<Rightarrow> real option \<Rightarrow> real option" where
  "normTarget rt t = (if truthy_number rt t then t else None)"

definition getSideChallengeById :: "Runtime \<Rightarrow> db \<Rightarrow> string \<Rightarrow> SideChallenge option" where
  "getSideChallengeById rt d sideChallengeId =
     map_option (\<lambda>c. c\<lparr>targetValue := normTarget rt (targetValue c)\<rparr>)
       (find (\<lambda>c. sc_id c = sideChallengeId) (sideChallenges d))"

text \<open>
  \<open>validateUserCanStake\<close> and \<open>validateWeekForSideChallenge\<close> return \<open>None\<close> for
  \<open>{valid: true}\<close> and the error text otherwise.
\<close>

definition validateUserCanStake ::
  "Runtime \<Rightarrow> db \<Rightarrow> string \<Rightarrow> string \<Rightarrow> int \<Rightarrow> string option" where
  "validateUserCanStake rt d challengeId userId stakeAmount =
     (if stakeAmount \<le> 0 then Some ''Stake amount must be greater than 0''
      else
        (let balance = getAvailableBalance d challengeId userId
         in if available balance < stakeAmount
            then Some (''Insufficient tokens. You have ''
                       @ numToString rt (real_of_int (available balance)) @ '' available (''
                       @ numToString rt (real_of_int (staked balance))
                       @ '' staked in other challenges)'')
            else None))"

definition validateWeekForSideChallenge :: "db \<Rightarrow> string \<Rightarrow> string option" where
  "validateWeekForSideChallenge d weekId =
     (case find (\<lambda>w. wk_id w = weekId) (weeks d) of
        None \<Rightarrow> Some ''Week not found''
      | Some week \<Rightarrow>
          if wk_status week = LOCKED then Some ''Cannot create side challenges for locked weeks''
          else None)"

definition hasUserSubmitted :: "db \<Rightarrow> string \<Rightarrow> string \<Rightarrow> bool" where
  "hasUserSubmitted d sideChallengeId userId =
     (find (\<lambda>s. sub_sideChallengeId s = sideChallengeId \<and> sub_userId s = userId) (submissions d)
        \<noteq> None)"

text \<open>
  One iteration of the loop of \<open>cleanupSideChallengesOnWeekLock\<close>, on the row and the
  submissions that the initial query returned. The state is the store and the two
  counters. An exception inside the \<open>try\<close> (here: \<open>calculateWinner\<close> throwing) is caught
  and logged, and leaves the state as it was.
\<close>

definition cleanupOne ::
  "Runtime \<Rightarrow> nat \<Rightarrow> string \<Rightarrow> string
     \<Rightarrow> SideChallenge \<times> SideChallengeSubmission list \<Rightarrow> db \<times> nat \<times> nat \<Rightarrow> db \<times> nat \<times> nat" where
  "cleanupOne rt now challengeId weekId cs st =
     (case cs of (challenge, subs) \<Rightarrow>
      case st of (d, resolved, voided) \<Rightarrow>
        if sc_status challenge = PENDING_REVIEW \<and> length subs = 2 then
          (case (find (\<lambda>s. sub_userId s = createdByUserId challenge) subs,
                 find (\<lambda>s. sub_userId s = opponentUserId challenge) subs) of
             (Some creatorSubmission, Some opponentSubmission) \<Rightarrow>
               (case calculateWinner rt (metricType challenge) (normTarget rt (targetValue challenge))
                       (valueNumber creatorSubmission) (valueNumber opponentSubmission)
                       (createdByUserId challenge) (opponentUserId challenge) of
                  Inl err \<Rightarrow> (d, resolved, voided)
                | Inr result \<Rightarrow>
                    (d\<lparr>sideChallenges :=
                         sideChallenge_update (sc_id challenge)
                           (\<lambda>sc. sc\<lparr>sc_status := RESOLVED,
                                     winnerUserId := wc_winnerUserId result,
                                     resolvedAt := Some now,
                                     resolutionNote :=
                                       Some (''Auto-resolved on week lock: '' @ wc_reason result)\<rparr>)
                           (sideChallenges d),
                       tokenLedger :=
                         resolveSideChallengeTokens challengeId weekId (sc_id challenge)
                           (wc_winnerUserId result) (createdByUserId challenge)
                           (opponentUserId challenge) (stakeTokens challenge) (tokenLedger d)\<rparr>,
                     resolved + 1, voided))
           | _ \<Rightarrow> (d, resolved, voided))
        else
          (let wasAccepted =
                 (sc_status challenge = ACCEPTED \<or> sc_status challenge = PENDING_REVIEW)
           in (d\<lparr>sideChallenges :=
                    sideChallenge_update (sc_id challenge)
                      (\<lambda>sc. sc\<lparr>sc_status := VOID,
                                resolutionNote :=
                                  Some ''Voided due to week lock with incomplete submissions''\<rparr>)
                      (sideChallenges d),
                  tokenLedger :=
                    voidSideChallengeTokens challengeId weekId (sc_id challenge)
                      (createdByUserId challenge) (opponentUserId challenge)
                      (stakeTokens challenge) wasAccepted (tokenLedger d)\<rparr>,
               resolved, voided + 1)))"

definition cleanupSideChallengesOnWeekLock ::
  "Runtime \<Rightarrow> nat \<Rightarrow> string \<Rightarrow> string \<Rightarrow> db \<Rightarrow> db \<times> nat \<times> nat" where
  "cleanupSideChallengesOnWeekLock rt now challengeId weekId d =
     (let found =
            filter (\<lambda>sc. sc_challengeId sc = challengeId \<and> sc_weekId sc = weekId
                         \<and> isOpenStatus (sc_status sc))
                   (sideChallenges d);
          withSubs =
            map (\<lambda>sc. (sc, filter (\<lambda>s. sub_sideChallengeId s = sc_id sc) (submissions d))) found
      in fold (cleanupOne rt now challengeId weekId) withSubs (d, 0, 0))"

section \<open>lib/tokens.ts: perfect weeks\<close>

text \<open>The \<open>Map<string, Set<string>>\<close> of task ids completed per user.\<close>

definition addCompletion :: "Completion \<Rightarrow> (string \<rightharpoonup> string set) \<Rightarrow> (string \<rightharpoonup> string set)" where
  "addCompletion c m =
     m(c_userId c \<mapsto>
        insert (taskTemplateId c) (case m (c_userId c) of None \<Rightarrow> {} | Some S \<Rightarrow> S))"

definition detectPerfectWeeks :: "db \<Rightarrow> string \<Rightarrow> string \<Rightarrow> string list" where
  "detectPerfectWeeks d challengeId weekId =
     (let activeTasks = filter (\<lambda>t. tt_challengeId t = challengeId \<and> active t) (taskTemplates d);
          activeTaskCount = length activeTasks
      in if activeTaskCount = 0 then []
         else
           (let parts = filter (\<lambda>p. p_challengeId p = challengeId) (participants d);
                comps = filter (\<lambda>c. c_weekId c = weekId) (completions d);
                completionsByUser = fold addCompletion comps Map.empty
            in map p_userId
                 (filter (\<lambda>p. case completionsByUser (p_userId p) of
                                 None \<Rightarrow> False
                               | Some userCompletions \<Rightarrow> card userCompletions = activeTaskCount)
                         parts)))"

definition perfectWeekRow :: "string \<Rightarrow> string \<Rightarrow> string \<Rightarrow> TokenLedger" where
  "perfectWeekRow challengeId weekId userId =
     \<lparr>tl_id = 0, tl_challengeId = challengeId, tl_userId = userId, tl_weekId = Some weekId,
      delta = 1, reason = PERFECT_WEEK_EARNED, relatedEntityId = None\<rparr>"

definition awardPerfectWeekTokens :: "db \<Rightarrow> string \<Rightarrow> string \<Rightarrow> string list \<Rightarrow> db \<times> nat" where
  "awardPerfectWeekTokens d challengeId weekId userIds =
     (if length userIds = 0 then (d, 0)
      else (d\<lparr>tokenLedger :=
                tokenLedger_createMany (map (perfectWeekRow challengeId weekId) userIds)
                  (tokenLedger d)\<rparr>,
            length userIds))"

definition hasReceivedPerfectWeekToken :: "db \<Rightarrow> string \<Rightarrow> string \<Rightarrow> string \<Rightarrow> bool" where
  "hasReceivedPerfectWeekToken d challengeId weekId userId =
     (find (\<lambda>e. tl_challengeId e = challengeId \<and> tl_weekId e = Some weekId \<and> tl_userId e = userId
                \<and> reason e = PERFECT_WEEK_EARNED) (tokenLedger d)
        \<noteq> None)"

record AwardResult =
  awarded :: nat
  alreadyAwarded :: nat

text \<open>The body of the \<open>for\<close> loop of \<open>awardPerfectWeekTokensSafe\<close>.\<close>

definition awardFilterStep ::
  "db \<Rightarrow> string \<Rightarrow> string \<Rightarrow> string \<Rightarrow> string list \<times> nat \<Rightarrow> string list \<times> nat" where
  "awardFilterStep d challengeId weekId userId st =
     (case st of (usersToAward, already) \<Rightarrow>
        if hasReceivedPerfectWeekToken d challengeId weekId userId
        then (usersToAward, already + 1)
        else (usersToAward @ [userId], already))"

definition awardPerfectWeekTokensSafe :: "db \<Rightarrow> string \<Rightarrow> string \<Rightarrow> db \<times> AwardResult" where
  "awardPerfectWeekTokensSafe d challengeId weekId =
     (let perfectWeekUserIds = detectPerfectWeeks d challengeId weekId
      in if length perfectWeekUserIds = 0 then (d, \<lparr>awarded = 0, alreadyAwarded = 0\<rparr>)
         else
           (case fold (awardFilterStep d challengeId weekId) perfectWeekUserIds ([], 0) of
              (usersToAward, already) \<Rightarrow>
                (case awardPerfectWeekTokens d challengeId weekId usersToAward of
                   (d', n) \<Rightarrow> (d', \<lparr>awarded = n, alreadyAwarded = already\<rparr>))))"

section \<open>lib/authorization.ts\<close>

definition verifyOrganizer :: "db \<Rightarrow> string \<Rightarrow> string \<Rightarrow> bool" where
  "verifyOrganizer d challengeId userId =
     (case find (\<lambda>c. ch_id c = challengeId) (challenges d) of
        None \<Rightarrow> False
      | Some challenge \<Rightarrow> organizerUserId challenge = userId)"

definition verifyParticipantAccess :: "db \<Rightarrow> string \<Rightarrow> string \<Rightarrow> bool" where
  "verifyParticipantAccess d challengeId userId =
     (case find (\<lambda>c. ch_id c = challengeId) (challenges d) of
        None \<Rightarrow> False
      | Some challenge \<Rightarrow>
          if organizerUserId challenge = userId then True
          else find (\<lambda>p. p_challengeId p = challengeId \<and> p_userId p = userId) (participants d)
                 \<noteq> None)"

section \<open>Route handlers of the side-challenge API\<close>

text \<open>
  A handler takes the session (the acting user, if any), the URL parameters, the parsed
  body and the store. It returns \<open>Inl\<close> of the error response, in which case nothing was
  written (validation failed before the transaction, or the transaction rolled back), or
  \<open>Inr\<close> of the store after the request. The JSON of a success response is not modelled.
\<close>

datatype RouteError =
    Unauthorized
  | BadRequest string
  | Forbidden string
  | NotFound string
  | ServerError string

text \<open>
  The body of the propose request. A field that is missing and a field that is the empty
  string (or the number 0) are both falsy for the \<open>!field\<close> test, and are modelled alike.
\<close>

record ProposeBody =
  b_opponentUserId :: string
  b_title :: string
  b_rules :: string
  b_metricType :: string
  b_unit :: string
  b_targetValue :: "real option"
  b_stakeTokens :: int
  b_expiresAt :: "nat option"

text \<open>
  \<open>POST .../side-challenges\<close>. \<open>newId\<close> is the key the store generates for the new row;
  a key already present violates the primary key, which aborts the transaction.
\<close>

definition proposeRoute ::
  "Runtime \<Rightarrow> string option \<Rightarrow> string \<Rightarrow> string \<Rightarrow> ProposeBody \<Rightarrow> nat \<Rightarrow> string \<Rightarrow> db
     \<Rightarrow> RouteError + db" where
  "proposeRoute rt session challengeId weekId body now newId d =
     (case session of
        None \<Rightarrow> Inl Unauthorized
      | Some userId \<Rightarrow>
        if b_opponentUserId body = [] \<or> b_title body = [] \<or> b_rules body = []
           \<or> b_metricType body = [] \<or> b_unit body = [] \<or> b_stakeTokens body = 0
          then Inl (BadRequest ''Missing required fields'')
        else if b_metricType body \<notin> set [''HIGHER_WINS'', ''LOWER_WINS'', ''TARGET_THRESHOLD'']
          then Inl (BadRequest ''Invalid metric type'')
        else if b_metricType body = ''TARGET_THRESHOLD'' \<and> b_targetValue body = None
          then Inl (BadRequest ''Target value required for TARGET_THRESHOLD metric type'')
        else if \<not> verifyParticipantAccess d challengeId userId
          then Inl (Forbidden ''You must be a participant in this challenge'')
        else if b_opponentUserId body = userId
          then Inl (BadRequest ''Cannot challenge yourself'')
        else if \<not> verifyParticipantAccess d challengeId (b_opponentUserId body)
          then Inl (BadRequest ''Opponent must be a participant in this challenge'')
        else
          (case validateWeekForSideChallenge d weekId of
             Some err \<Rightarrow> Inl (BadRequest err)
           | None \<Rightarrow>
          (case validateUserCanStake rt d challengeId userId (b_stakeTokens body) of
             Some err \<Rightarrow> Inl (BadRequest err)
           | None \<Rightarrow>
          if find (\<lambda>sc. sc_challengeId sc = challengeId \<and> sc_weekId sc = weekId
                        \<and> isOpenStatus (sc_status sc)
                        \<and> ((createdByUserId sc = userId
                               \<and> opponentUserId sc = b_opponentUserId body)
                            \<or> (createdByUserId sc = b_opponentUserId body
                               \<and> opponentUserId sc = userId)))
                  (sideChallenges d) \<noteq> None
            then Inl (BadRequest
                   ''You already have an active challenge with this participant this week'')
          else
            (let expirationDate =
                   (case b_expiresAt body of
                      None \<Rightarrow> now + 48 * 60 * 60 * 1000
                    | Some t \<Rightarrow> if t = 0 then now + 48 * 60 * 60 * 1000 else t)
             in if newId \<in> set (map sc_id (sideChallenges d))
                  then Inl (ServerError ''Failed to create side challenge'')
                else
                  Inr (d\<lparr>sideChallenges :=
                           sideChallenges d @
                             [\<lparr>sc_id = newId, sc_challengeId = challengeId, sc_weekId = weekId,
                               createdByUserId = userId,
                               opponentUserId = b_opponentUserId body,
                               sc_status = PROPOSED,
                               metricType = b_metricType body,
                               targetValue = b_targetValue body,
                               stakeTokens = b_stakeTokens body,
                               expiresAt = expirationDate,
                               acceptedAt = None, resolvedAt = None, winnerUserId = None,
                               resolutionNote = None\<rparr>],
                         tokenLedger :=
                           stakeSideChallengeTokens challengeId weekId newId userId
                             (b_stakeTokens body) (tokenLedger d)\<rparr>)))))"

text \<open>\<open>POST .../side-challenges/[id]/accept\<close>.\<close>

definition acceptRoute ::
  "Runtime \<Rightarrow> string option \<Rightarrow> string \<Rightarrow> string \<Rightarrow> string \<Rightarrow> nat \<Rightarrow> db
     \<Rightarrow> RouteError + db" where
  "acceptRoute rt session challengeId weekId sideChallengeId now d =
     (case session of
        None \<Rightarrow> Inl Unauthorized
      | Some userId \<Rightarrow>
        (case getSideChallengeById rt d sideChallengeId of
           None \<Rightarrow> Inl (NotFound ''Side challenge not found'')
         | Some sideChallenge \<Rightarrow>
           if opponentUserId sideChallenge \<noteq> userId
             then Inl (Forbidden ''Only the opponent can accept this challenge'')
           else if sc_status sideChallenge \<noteq> PROPOSED
             then Inl (BadRequest ''Challenge has already been responded to'')
           else if now > expiresAt sideChallenge
             then Inl (BadRequest ''Challenge proposal has expired'')
           else
             (case validateUserCanStake rt d challengeId userId (stakeTokens sideChallenge) of
                Some err \<Rightarrow> Inl (BadRequest err)
              | None \<Rightarrow>
                  Inr (d\<lparr>sideChallenges :=
                           sideChallenge_update sideChallengeId
                             (\<lambda>sc. sc\<lparr>sc_status := ACCEPTED, acceptedAt := Some now\<rparr>)
                             (sideChallenges d),
                         tokenLedger :=
                           stakeSideChallengeTokens challengeId weekId sideChallengeId userId
                             (stakeTokens sideChallenge) (tokenLedger d)\<rparr>))))"

text \<open>\<open>POST .../side-challenges/[id]/decline\<close>.\<close>

definition declineRoute ::
  "Runtime \<Rightarrow> string option \<Rightarrow> string \<Rightarrow> string \<Rightarrow> string \<Rightarrow> db \<Rightarrow> RouteError + db" where
  "declineRoute rt session challengeId weekId sideChallengeId d =
     (case session of
        None \<Rightarrow> Inl Unauthorized
      | Some userId \<Rightarrow>
        (case getSideChallengeById rt d sideChallengeId of
           None \<Rightarrow> Inl (NotFound ''Side challenge not found'')
         | Some sideChallenge \<Rightarrow>
           if opponentUserId sideChallenge \<noteq> userId
             then Inl (Forbidden ''Only the opponent can decline this challenge'')
           else if sc_status sideChallenge \<noteq> PROPOSED
             then Inl (BadRequest ''Challenge has already been responded to'')
           else
             Inr (d\<lparr>sideChallenges :=
                      sideChallenge_update sideChallengeId
                        (\<lambda>sc. sc\<lparr>sc_status := DECLINED,
                                  resolutionNote := Some ''Declined by opponent''\<rparr>)
                        (sideChallenges d),
                    tokenLedger :=
                      voidSideChallengeTokens challengeId weekId sideChallengeId
                        (createdByUserId sideChallenge) (opponentUserId sideChallenge)
                        (stakeTokens sideChallenge) False (tokenLedger d)\<rparr>)))"

text \<open>The \<open>valueNumber\<close> field of the submit body, as JSON gives it.\<close>

datatype JsonValue = JUndefined | JNull | JNumber real | JString string | JBool bool

text \<open>
  \<open>POST .../side-challenges/[id]/submit\<close>. The transaction inserts the submission, reads
  all submissions of the wager and, when there are two, resolves the wager. An exception
  inside the transaction rolls everything back and the handler answers 500.
\<close>

definition submitRoute ::
  "Runtime \<Rightarrow> string option \<Rightarrow> string \<Rightarrow> string \<Rightarrow> string \<Rightarrow> JsonValue \<Rightarrow> nat \<Rightarrow> db
     \<Rightarrow> RouteError + db" where
  "submitRoute rt session challengeId weekId sideChallengeId valueNumber' now d =
     (case session of
        None \<Rightarrow> Inl Unauthorized
      | Some userId \<Rightarrow>
        if valueNumber' = JNull \<or> valueNumber' = JUndefined
          then Inl (BadRequest ''Value is required'')
        else
        (case valueNumber' of
           JNumber v \<Rightarrow>
             if v < 0 then Inl (BadRequest ''Value must be a non-negative number'')
             else
             (case getSideChallengeById rt d sideChallengeId of
                None \<Rightarrow> Inl (NotFound ''Side challenge not found'')
              | Some sideChallenge \<Rightarrow>
                if \<not> (createdByUserId sideChallenge = userId
                       \<or> opponentUserId sideChallenge = userId)
                  then Inl (Forbidden ''You are not a participant in this challenge'')
                else if sc_status sideChallenge \<noteq> ACCEPTED
                  then Inl (BadRequest ''Challenge must be accepted before submitting results'')
                else if hasUserSubmitted d sideChallengeId userId
                  then Inl (BadRequest ''You have already submitted your result'')
                else
                  (let subs' = submissions d @
                         [\<lparr>sub_sideChallengeId = sideChallengeId, sub_userId = userId,
                           valueNumber = v\<rparr>];
                       allSubmissions =
                         filter (\<lambda>s. sub_sideChallengeId s = sideChallengeId) subs'
                   in if length allSubmissions = 2 then
                        (case (find (\<lambda>s. sub_userId s = createdByUserId sideChallenge)
                                 allSubmissions,
                               find (\<lambda>s. sub_userId s = opponentUserId sideChallenge)
                                 allSubmissions) of
                           (Some creatorSubmission, Some opponentSubmission) \<Rightarrow>
                             (case calculateWinner rt (metricType sideChallenge)
                                     (targetValue sideChallenge)
                                     (valueNumber creatorSubmission)
                                     (valueNumber opponentSubmission)
                                     (createdByUserId sideChallenge)
                                     (opponentUserId sideChallenge) of
                                Inl err \<Rightarrow> Inl (ServerError ''Failed to submit result'')
                              | Inr resolution \<Rightarrow>
                                  Inr (d\<lparr>submissions := subs',
                                         sideChallenges :=
                                           sideChallenge_update sideChallengeId
                                             (\<lambda>sc. sc\<lparr>sc_status := RESOLVED,
                                                winnerUserId := wc_winnerUserId resolution,
                                                resolvedAt := Some now,
                                                resolutionNote :=
                                                  Some (''Auto-resolved: '' @ wc_reason resolution)\<rparr>)
                                             (sideChallenges d),
                                         tokenLedger :=
                                           resolveSideChallengeTokens challengeId weekId
                                             sideChallengeId (wc_winnerUserId resolution)
                                             (createdByUserId sideChallenge)
                                             (opponentUserId sideChallenge)
                                             (stakeTokens sideChallenge) (tokenLedger d)\<rparr>))
                         | _ \<Rightarrow> Inr (d\<lparr>submissions := subs'\<rparr>))
                      else Inr (d\<lparr>submissions := subs'\<rparr>)))
         | _ \<Rightarrow> Inl (BadRequest ''Value must be a non-negative number'')))"

text \<open>
  \<open>reason.trim().length === 0\<close>: only white space. The strings of the model are made of
  8-bit characters, of which \<open>trim\<close> strips the six ASCII white-space characters and
  the no-break space; the white space beyond U+00FF has no counterpart here.
\<close>

definition isBlank :: "string \<Rightarrow> bool" where
  "isBlank s =
     list_all (\<lambda>c. c \<in> set [CHR '' '', CHR 0x09, CHR 0x0A, CHR 0x0B, CHR 0x0C, CHR 0x0D, CHR 0xA0]) s"

text \<open>\<open>POST .../side-challenges/[id]/void\<close>. The reason is \<open>None\<close> when the body has none.\<close>

definition voidRoute ::
  "Runtime \<Rightarrow> string option \<Rightarrow> string \<Rightarrow> string \<Rightarrow> string \<Rightarrow> string option \<Rightarrow> db
     \<Rightarrow> RouteError + db" where
  "voidRoute rt session challengeId weekId sideChallengeId reason' d =
     (case session of
        None \<Rightarrow> Inl Unauthorized
      | Some userId \<Rightarrow>
        (case reason' of
           None \<Rightarrow> Inl (BadRequest ''Void reason is required'')
         | Some why \<Rightarrow>
           if isBlank why then Inl (BadRequest ''Void reason is required'')
           else if \<not> verifyOrganizer d challengeId userId
             then Inl (Forbidden ''Only organizers can void challenges'')
           else
           (case getSideChallengeById rt d sideChallengeId of
              None \<Rightarrow> Inl (NotFound ''Side challenge not found'')
            | Some sideChallenge \<Rightarrow>
              if sc_status sideChallenge = RESOLVED
                then Inl (BadRequest ''Cannot void a resolved challenge'')
              else if sc_status sideChallenge = VOID
                then Inl (BadRequest ''Challenge is already voided'')
              else if sc_status sideChallenge = DECLINED
                then Inl (BadRequest ''Challenge was already declined'')
              else
                (let wasAccepted =
                       (sc_status sideChallenge = ACCEPTED
                        \<or> sc_status sideChallenge = PENDING_REVIEW)
                 in Inr (d\<lparr>sideChallenges :=
                             sideChallenge_update sideChallengeId
                               (\<lambda>sc. sc\<lparr>sc_status := VOID,
                                         resolutionNote := Some (''Voided by organizer: '' @ why)\<rparr>)
                               (sideChallenges d),
                           tokenLedger :=
                             voidSideChallengeTokens challengeId weekId sideChallengeId
                               (createdByUserId sideChallenge) (opponentUserId sideChallenge)
                               (stakeTokens sideChallenge) wasAccepted (tokenLedger d)\<rparr>)))))"

section \<open>The recalculate-tokens route\<close>

record RecalcResult =
  rc_awarded :: nat
  revoked :: nat
  unchanged :: nat

text \<open>\<open>new Set(xs)\<close> read back in insertion order: the first occurrence of each element.\<close>

definition setInsert :: "'a \<Rightarrow> 'a list \<Rightarrow> 'a list" where
  "setInsert x acc = (if x \<in> set acc then acc else acc @ [x])"

definition newSet :: "'a list \<Rightarrow> 'a list" where
  "newSet xs = fold setInsert xs []"

definition recalculateTokensRoute ::
  "string option \<Rightarrow> string \<Rightarrow> string \<Rightarrow> db \<Rightarrow> RouteError + (db \<times> RecalcResult)" where
  "recalculateTokensRoute session challengeId weekId d =
     (case session of
        None \<Rightarrow> Inl Unauthorized
      | Some userId \<Rightarrow>
        if \<not> verifyOrganizer d challengeId userId
          then Inl (Forbidden ''Only organizers can recalculate tokens'')
        else
        (case find (\<lambda>w. wk_id w = weekId) (weeks d) of
           None \<Rightarrow> Inl (NotFound ''Week not found'')
         | Some week \<Rightarrow>
           if wk_challengeId week \<noteq> challengeId then Inl (NotFound ''Week not found'')
           else if wk_status week \<noteq> LOCKED
             then Inl (BadRequest ''Can only recalculate tokens for locked weeks'')
           else
             (let qualifyingUserIds = newSet (detectPerfectWeeks d challengeId weekId);
                  existingEntries =
                    filter (\<lambda>e. tl_challengeId e = challengeId \<and> tl_weekId e = Some weekId
                                \<and> reason e = PERFECT_WEEK_EARNED) (tokenLedger d);
                  existingUserIds = newSet (map tl_userId existingEntries);
                  toAward = filter (\<lambda>i. i \<notin> set existingUserIds) qualifyingUserIds;
                  toRevoke = filter (\<lambda>e. tl_userId e \<notin> set qualifyingUserIds) existingEntries;
                  unchanged' = length existingEntries - length toRevoke;
                  L1 = (if length toAward > 0
                        then tokenLedger_createMany
                               (map (perfectWeekRow challengeId weekId) toAward) (tokenLedger d)
                        else tokenLedger d);
                  L2 = (if length toRevoke > 0
                        then tokenLedger_deleteMany (map tl_id toRevoke) L1
                        else L1)
              in Inr (d\<lparr>tokenLedger := L2\<rparr>,
                      \<lparr>rc_awarded = length toAward, revoked = length toRevoke,
                       unchanged = unchanged'\<rparr>))))"

section \<open>lib/leaderboard.ts\<close>

record ParticipantScore =
  ps_userId :: string
  ps_displayName :: string
  ps_points :: int
  rank :: nat
  tied :: bool

text \<open>
  The relations that the queries include. A completion's user and task template exist by
  referential integrity; the model returns an empty name and 0 points for a dangling key.
\<close>

definition displayNameOf :: "db \<Rightarrow> string \<Rightarrow> string" where
  "displayNameOf d userId =
     (case find (\<lambda>u. user_id u = userId) (users d) of None \<Rightarrow> [] | Some u \<Rightarrow> displayName u)"

definition pointsOf :: "db \<Rightarrow> string \<Rightarrow> int" where
  "pointsOf d taskId =
     (case find (\<lambda>t. tt_id t = taskId) (taskTemplates d) of None \<Rightarrow> 0 | Some t \<Rightarrow> points t)"

text \<open>
  \<open>userPoints\<close> is a \<open>Map\<close>, which keeps its keys in insertion order: an association
  list, where setting a present key replaces the value in place and a new key goes last.
\<close>

type_synonym userPointsMap = "(string \<times> (string \<times> int)) list"

definition addCompletionPoints :: "db \<Rightarrow> Completion \<Rightarrow> userPointsMap \<Rightarrow> userPointsMap" where
  "addCompletionPoints d completion userPoints =
     (let current =
            (case map_of userPoints (c_userId completion) of
               Some cur \<Rightarrow> cur
             | None \<Rightarrow> (displayNameOf d (c_userId completion), 0))
      in AList.update (c_userId completion)
           (fst current, snd current + pointsOf d (taskTemplateId completion)) userPoints)"

definition addParticipant :: "db \<Rightarrow> Participant \<Rightarrow> userPointsMap \<Rightarrow> userPointsMap" where
  "addParticipant d participant userPoints =
     (if map_of userPoints (p_userId participant) = None
      then AList.update (p_userId participant) (displayNameOf d (p_userId participant), 0) userPoints
      else userPoints)"

text \<open>
  The rank loop \<open>for (let i = 0; i < sortedUsers.length; i++)\<close>, on triples of user id,
  display name and points. Inside the loop the list is not empty, so the truncating
  subtraction in \<open>length sortedUsers - 1\<close> is the source's.
\<close>

function rankLoop ::
  "(string \<times> string \<times> int) list \<Rightarrow> nat \<Rightarrow> nat \<Rightarrow> ParticipantScore list \<Rightarrow> ParticipantScore list" where
  "rankLoop sortedUsers i currentRank leaderboard =
     (if i < length sortedUsers then
        (let user = sortedUsers ! i;
             tied' =
               ((i > 0 \<and> snd (snd user) = snd (snd (sortedUsers ! (i - 1))))
                \<or> (i < length sortedUsers - 1 \<and> snd (snd user) = snd (snd (sortedUsers ! (i + 1)))));
             leaderboard' =
               leaderboard @
                 [\<lparr>ps_userId = fst user, ps_displayName = fst (snd user),
                   ps_points = snd (snd user), rank = currentRank, tied = tied'\<rparr>];
             currentRank' =
               (if i < length sortedUsers - 1
                   \<and> snd (snd user) \<noteq> snd (snd (sortedUsers ! (i + 1)))
                then i + 2 else currentRank)
         in rankLoop sortedUsers (i + 1) currentRank' leaderboard')
      else leaderboard)"
  by pat_completeness auto
termination
  by (relation "measure (\<lambda>(sortedUsers, i, currentRank, leaderboard). length sortedUsers - i)") auto

declare rankLoop.simps [simp del]

text \<open>
  \<open>sort((a, b) => b.points - a.points)\<close> is a stable sort in descending order of points,
  as is the insertion sort \<open>sort_key\<close> on the negated points.
\<close>

definition sortByPointsDesc :: "(string \<times> string \<times> int) list \<Rightarrow> (string \<times> string \<times> int) list" where
  "sortByPointsDesc us = sort_key (\<lambda>u. - snd (snd u)) us"

definition getWeeklyLeaderboard :: "db \<Rightarrow> string \<Rightarrow> string \<Rightarrow> ParticipantScore list" where
  "getWeeklyLeaderboard d challengeId weekId =
     (let comps = filter (\<lambda>c. c_challengeId c = challengeId \<and> c_weekId c = weekId) (completions d);
          userPoints = fold (addCompletionPoints d) comps [];
          parts = filter (\<lambda>p. p_challengeId p = challengeId) (participants d);
          userPoints' = fold (addParticipant d) parts userPoints;
          sortedUsers =
            sortByPointsDesc (map (\<lambda>(userId, data). (userId, fst data, snd data)) userPoints')
      in rankLoop sortedUsers 0 1 [])"

record PayoutSummary =
  totalPot :: real
  weeklyPayoutTotal :: real
  grandPrize :: real
  weeklyPrize :: real
  participantCount :: nat

text \<open>
  \<open>getPayoutSummary\<close>; the \<open>throw\<close> for an unknown competition is \<open>Inl\<close>. The two
  products and the difference are the rounded operations of the runtime.
\<close>

definition getPayoutSummary ::
  "Runtime \<Rightarrow> db \<Rightarrow> string \<Rightarrow> string + PayoutSummary" where
  "getPayoutSummary rt d challengeId =
     (case find (\<lambda>c. ch_id c = challengeId) (challenges d) of
        None \<Rightarrow> Inl ''Challenge not found''
      | Some challenge \<Rightarrow>
          (let buyIn = buyInAmount challenge;
               weeklyPrize' = weeklyPrizeAmount challenge;
               participantCount' =
                 length (filter (\<lambda>p. p_challengeId p = challengeId) (participants d));
               totalPot' = numMul rt buyIn (real participantCount');
               weeklyPayoutTotal' = numMul rt weeklyPrize' (real_of_int (numberOfWeeks challenge));
               grandPrize' =
                 (if truthy_number rt (grandPrizeAmount challenge)
                  then (case grandPrizeAmount challenge of Some g \<Rightarrow> g | None \<Rightarrow> 0)
                  else numSub rt totalPot' weeklyPayoutTotal')
           in Inr \<lparr>totalPot = totalPot', weeklyPayoutTotal = weeklyPayoutTotal',
                   grandPrize = grandPrize', weeklyPrize = weeklyPrize',
                   participantCount = participantCount'\<rparr>))"

section \<open>Requests over time\<close>

text \<open>
  Everything that writes the side-challenge tables or the ledger: the five side-challenge
  handlers, the week-lock cleanup, the perfect-week award and the recalculation. All
  other writes of the application (users, competitions, participants, tasks, weeks,
  completions) are the event \<open>Environment\<close>, which replaces those tables at will.
  A request that fails leaves the store as it was. The deletion of a whole competition is
  not among the events: what it removes from these tables is the cascade of the database
  schema, which is not part of the source.
\<close>

datatype Event =
    Propose "string option" string string ProposeBody nat string
  | Accept "string option" string string string nat
  | Decline "string option" string string string
  | Submit "string option" string string string JsonValue nat
  | VoidWager "string option" string string string "string option"
  | WeekLockCleanup nat string string
  | AwardPerfectWeeks string string
  | Recalculate "string option" string string
  | Environment "User list" "Challenge list" "Participant list" "TaskTemplate list"
      "Week list" "Completion list"

definition orElse :: "RouteError + db \<Rightarrow> db \<Rightarrow> db" where
  "orElse r d = (case r of Inl err \<Rightarrow> d | Inr d' \<Rightarrow> d')"

fun step :: "Runtime \<Rightarrow> Event \<Rightarrow> db \<Rightarrow> db" where
  "step rt (Propose session challengeId weekId body now newId) d =
     orElse (proposeRoute rt session challengeId weekId body now newId d) d"
| "step rt (Accept session challengeId weekId sideChallengeId now) d =
     orElse (acceptRoute rt session challengeId weekId sideChallengeId now d) d"
| "step rt (Decline session challengeId weekId sideChallengeId) d =
     orElse (declineRoute rt session challengeId weekId sideChallengeId d) d"
| "step rt (Submit session challengeId weekId sideChallengeId v now) d =
     orElse (submitRoute rt session challengeId weekId sideChallengeId v now d) d"
| "step rt (VoidWager session challengeId weekId sideChallengeId why) d =
     orElse (voidRoute rt session challengeId weekId sideChallengeId why d) d"
| "step rt (WeekLockCleanup now challengeId weekId) d =
     fst (cleanupSideChallengesOnWeekLock rt now challengeId weekId d)"
| "step rt (AwardPerfectWeeks challengeId weekId) d =
     fst (awardPerfectWeekTokensSafe d challengeId weekId)"
| "step rt (Recalculate session challengeId weekId) d =
     (case recalculateTokensRoute session challengeId weekId d of
        Inl err \<Rightarrow> d
      | Inr (d', res) \<Rightarrow> d')"
| "step rt (Environment us cs ps ts ws cps) d =
     d\<lparr>users := us, challenges := cs, participants := ps, taskTemplates := ts,
       weeks := ws, completions := cps\<rparr>"

definition run :: "Runtime \<Rightarrow> Event list \<Rightarrow> db \<Rightarrow> db" where
  "run rt evs d = fold (step rt) evs d"

definition emptyDb :: db where
  "emptyDb = \<lparr>users = [], challenges = [], participants = [], taskTemplates = [], weeks = [],
              completions = [], sideChallenges = [], submissions = [], tokenLedger = []\<rparr>"

section \<open>Statements: the notions the properties are phrased in, and example stores\<close>

text \<open>
  The runtime at the numbers of the examples. JavaScript prints these small integers as
  their decimal digits, and differences and products of small integers are doubles, so
  that no rounding takes place. Around 10000000000000000 the doubles are 2 apart:
  10000000000000000 - 1 and 10000000000000002 - 1 are not doubles, and both round to
  10000000000000000 (the nearest double, and of two nearest ones the one with the even
  significand). Numeric columns are taken to arrive as numbers.
\<close>

definition fmt_example :: "real \<Rightarrow> string" where
  "fmt_example x =
     (if x = 1 then ''1'' else if x = 2 then ''2'' else if x = 3 then ''3''
      else if x = 5 then ''5'' else if x = 7 then ''7'' else ''?'')"

definition sub_example :: "real \<Rightarrow> real \<Rightarrow> real" where
  "sub_example a b =
     (if (a = 10000000000000000 \<or> a = 10000000000000002) \<and> b = 1
      then 10000000000000000 else a - b)"

definition rt_example :: Runtime where
  "rt_example =
     \<lparr>numToString = fmt_example, numSub = sub_example, numMul = (\<lambda>a b. a * b),
      decimalColumns = False\<rparr>"

text \<open>A reason text embeds two rendered values when both occur in it.\<close>

definition embedsValues :: "string \<Rightarrow> string \<Rightarrow> string \<Rightarrow> bool" where
  "embedsValues r x y = (sublist x r \<and> sublist y r)"

text \<open>The sum of a user's ledger deltas in a competition.\<close>

definition ledgerTotal :: "db \<Rightarrow> string \<Rightarrow> string \<Rightarrow> int" where
  "ledgerTotal d challengeId userId =
     sum_list (map delta
       (filter (\<lambda>e. tl_challengeId e = challengeId \<and> tl_userId e = userId) (tokenLedger d)))"

text \<open>
  The stakes of the user's own still-open wagers: as creator from the proposal on, as
  opponent once the wager is accepted.
\<close>

definition stakedBy :: "db \<Rightarrow> string \<Rightarrow> string \<Rightarrow> int" where
  "stakedBy d challengeId userId =
     sum_list (map stakeTokens
       (filter (\<lambda>sc. sc_challengeId sc = challengeId
                    \<and> isOpenStatus (sc_status sc)
                    \<and> (createdByUserId sc = userId
                       \<or> (opponentUserId sc = userId
                          \<and> (sc_status sc = ACCEPTED \<or> sc_status sc = PENDING_REVIEW))))
               (sideChallenges d)))"

definition balanceExampleDb :: db where
  "balanceExampleDb =
     emptyDb\<lparr>
       sideChallenges :=
         [\<lparr>sc_id = ''s1'', sc_challengeId = ''c1'', sc_weekId = ''w1'',
           createdByUserId = ''alice'', opponentUserId = ''bob'', sc_status = PROPOSED,
           metricType = ''HIGHER_WINS'', targetValue = None, stakeTokens = 3,
           expiresAt = 100, acceptedAt = None, resolvedAt = None, winnerUserId = None,
           resolutionNote = None\<rparr>,
          \<lparr>sc_id = ''s2'', sc_challengeId = ''c1'', sc_weekId = ''w1'',
           createdByUserId = ''carol'', opponentUserId = ''bob'', sc_status = ACCEPTED,
           metricType = ''HIGHER_WINS'', targetValue = None, stakeTokens = 2,
           expiresAt = 100, acceptedAt = Some 50, resolvedAt = None, winnerUserId = None,
           resolutionNote = None\<rparr>],
       tokenLedger :=
         [\<lparr>tl_id = 1, tl_challengeId = ''c1'', tl_userId = ''bob'', tl_weekId = Some ''w0'',
           delta = 1, reason = PERFECT_WEEK_EARNED, relatedEntityId = None\<rparr>,
          \<lparr>tl_id = 2, tl_challengeId = ''c1'', tl_userId = ''bob'', tl_weekId = Some ''w1'',
           delta = 4, reason = SIDE_CHALLENGE_WIN, relatedEntityId = Some ''s0''\<rparr>,
          \<lparr>tl_id = 3, tl_challengeId = ''c1'', tl_userId = ''bob'', tl_weekId = Some ''w1'',
           delta = - 2, reason = SIDE_CHALLENGE_STAKE, relatedEntityId = Some ''s2''\<rparr>]\<rparr>"

text \<open>
  The payout figures as the percentage scheme would derive them: the weekly percentage of
  the pool for each week, and the grand percentage of the pool unless an override amount
  is set.
\<close>

definition claimedWeeklyPayoutTotal :: "Challenge \<Rightarrow> real \<Rightarrow> real" where
  "claimedWeeklyPayoutTotal ch pool = weeklyPrizePercent ch / 100 * pool * real_of_int (numberOfWeeks ch)"


definition claimedGrandPrize :: "Challenge \<Rightarrow> real \<Rightarrow> real" where
  "claimedGrandPrize ch pool =
     (case grandPrizeAmount ch of Some g \<Rightarrow> g | None \<Rightarrow> grandPrizePercent ch / 100 * pool)"


definition payoutExampleChallenge :: Challenge where
  "payoutExampleChallenge =
     \<lparr>ch_id = ''c1'', organizerUserId = ''u1'', buyInAmount = 10, weeklyPrizeAmount = 5,
      grandPrizeAmount = None, weeklyPrizePercent = 10, grandPrizePercent = 30,
      numberOfWeeks = 4\<rparr>"


definition payoutExampleDb :: db where
  "payoutExampleDb =
     emptyDb\<lparr>
       challenges := [payoutExampleChallenge],
       participants :=
         [\<lparr>p_challengeId = ''c1'', p_userId = ''u1''\<rparr>, \<lparr>p_challengeId = ''c1'', p_userId = ''u2''\<rparr>,
          \<lparr>p_challengeId = ''c1'', p_userId = ''u3''\<rparr>, \<lparr>p_challengeId = ''c1'', p_userId = ''u4''\<rparr>]\<rparr>"


text \<open>The same competition with the grand prize override \<open>x\<close>.\<close>

definition payoutOverrideDb :: "real option \<Rightarrow> db" where
  "payoutOverrideDb x =
     payoutExampleDb\<lparr>challenges := [payoutExampleChallenge\<lparr>grandPrizeAmount := x\<rparr>]\<rparr>"

text \<open>
  A competition where task t2 was switched off after users had completed it in week w1:
  u1 completed only t2, u2 completed both t1 and t2.
\<close>

definition perfectWeekBugDb :: db where
  "perfectWeekBugDb =
     emptyDb\<lparr>
       participants :=
         [\<lparr>p_challengeId = ''c1'', p_userId = ''u1''\<rparr>, \<lparr>p_challengeId = ''c1'', p_userId = ''u2''\<rparr>],
       taskTemplates :=
         [\<lparr>tt_id = ''t1'', tt_challengeId = ''c1'', active = True, points = 5\<rparr>,
          \<lparr>tt_id = ''t2'', tt_challengeId = ''c1'', active = False, points = 5\<rparr>],
       completions :=
         [\<lparr>c_challengeId = ''c1'', c_weekId = ''w1'', c_userId = ''u1'', taskTemplateId = ''t2''\<rparr>,
          \<lparr>c_challengeId = ''c1'', c_weekId = ''w1'', c_userId = ''u2'', taskTemplateId = ''t1''\<rparr>,
          \<lparr>c_challengeId = ''c1'', c_weekId = ''w1'', c_userId = ''u2'', taskTemplateId = ''t2''\<rparr>]\<rparr>"


definition noId :: "TokenLedger \<Rightarrow> TokenLedger" where
  "noId e = e\<lparr>tl_id := 0\<rparr>"

definition isPerfectWeekEntry :: "string \<Rightarrow> string \<Rightarrow> TokenLedger \<Rightarrow> bool" where
  "isPerfectWeekEntry c w e =
     (tl_challengeId e = c \<and> tl_weekId e = Some w \<and> reason e = PERFECT_WEEK_EARNED)"

definition awardExampleDb :: db where
  "awardExampleDb =
     emptyDb\<lparr>
       challenges :=
         [\<lparr>ch_id = ''c1'', organizerUserId = ''org'', buyInAmount = 10, weeklyPrizeAmount = 5,
           grandPrizeAmount = None, weeklyPrizePercent = 10, grandPrizePercent = 30,
           numberOfWeeks = 4\<rparr>],
       participants :=
         [\<lparr>p_challengeId = ''c1'', p_userId = ''u1''\<rparr>, \<lparr>p_challengeId = ''c1'', p_userId = ''u2''\<rparr>],
       taskTemplates := [\<lparr>tt_id = ''t1'', tt_challengeId = ''c1'', active = True, points = 5\<rparr>],
       weeks := [\<lparr>wk_id = ''w1'', wk_challengeId = ''c1'', wk_status = LOCKED\<rparr>],
       completions :=
         [\<lparr>c_challengeId = ''c1'', c_weekId = ''w1'', c_userId = ''u1'', taskTemplateId = ''t1''\<rparr>],
       tokenLedger :=
         [\<lparr>tl_id = 1, tl_challengeId = ''c1'', tl_userId = ''u2'', tl_weekId = Some ''w1'',
           delta = 1, reason = PERFECT_WEEK_EARNED, relatedEntityId = None\<rparr>,
          \<lparr>tl_id = 2, tl_challengeId = ''c1'', tl_userId = ''u2'', tl_weekId = Some ''w0'',
           delta = 1, reason = PERFECT_WEEK_EARNED, relatedEntityId = None\<rparr>,
          \<lparr>tl_id = 3, tl_challengeId = ''c1'', tl_userId = ''u2'', tl_weekId = Some ''w1'',
           delta = - 1, reason = SIDE_CHALLENGE_STAKE, relatedEntityId = Some ''s1''\<rparr>]\<rparr>"

definition recalcExampleAfter :: db where
  "recalcExampleAfter =
     awardExampleDb\<lparr>
       tokenLedger :=
         [\<lparr>tl_id = 2, tl_challengeId = ''c1'', tl_userId = ''u2'', tl_weekId = Some ''w0'',
           delta = 1, reason = PERFECT_WEEK_EARNED, relatedEntityId = None\<rparr>,
          \<lparr>tl_id = 3, tl_challengeId = ''c1'', tl_userId = ''u2'', tl_weekId = Some ''w1'',
           delta = - 1, reason = SIDE_CHALLENGE_STAKE, relatedEntityId = Some ''s1''\<rparr>,
          \<lparr>tl_id = 4, tl_challengeId = ''c1'', tl_userId = ''u1'', tl_weekId = Some ''w1'',
           delta = 1, reason = PERFECT_WEEK_EARNED, relatedEntityId = None\<rparr>]\<rparr>"

text \<open>
  Runs of the whole workflow. In the setup alice and bob each earn a token for a perfect
  week w0, and alice proposes a wager of 1 token on the higher value to bob for week w1.
  In \<open>exampleTrace\<close> bob then accepts, alice submits 3 and bob submits 7.
\<close>

definition exampleSetup :: "Event list" where
  "exampleSetup =
     [Environment
        [\<lparr>user_id = ''alice'', displayName = ''Alice''\<rparr>, \<lparr>user_id = ''bob'', displayName = ''Bob''\<rparr>]
        [\<lparr>ch_id = ''c1'', organizerUserId = ''org'', buyInAmount = 10, weeklyPrizeAmount = 5,
          grandPrizeAmount = None, weeklyPrizePercent = 10, grandPrizePercent = 30,
          numberOfWeeks = 4\<rparr>]
        [\<lparr>p_challengeId = ''c1'', p_userId = ''alice''\<rparr>, \<lparr>p_challengeId = ''c1'', p_userId = ''bob''\<rparr>]
        [\<lparr>tt_id = ''t1'', tt_challengeId = ''c1'', active = True, points = 5\<rparr>]
        [\<lparr>wk_id = ''w0'', wk_challengeId = ''c1'', wk_status = LOCKED\<rparr>,
         \<lparr>wk_id = ''w1'', wk_challengeId = ''c1'', wk_status = OPEN\<rparr>]
        [\<lparr>c_challengeId = ''c1'', c_weekId = ''w0'', c_userId = ''alice'', taskTemplateId = ''t1''\<rparr>,
         \<lparr>c_challengeId = ''c1'', c_weekId = ''w0'', c_userId = ''bob'', taskTemplateId = ''t1''\<rparr>],
      AwardPerfectWeeks ''c1'' ''w0'',
      Propose (Some ''alice'') ''c1'' ''w1''
        \<lparr>b_opponentUserId = ''bob'', b_title = ''steps'', b_rules = ''most steps'',
         b_metricType = ''HIGHER_WINS'', b_unit = ''steps'', b_targetValue = None,
         b_stakeTokens = 1, b_expiresAt = Some 1000\<rparr> 10 ''s1'']"

definition exampleTrace :: "Event list" where
  "exampleTrace =
     exampleSetup @
     [Accept (Some ''bob'') ''c1'' ''w1'' ''s1'' 20,
      Submit (Some ''alice'') ''c1'' ''w1'' ''s1'' (JNumber 3) 30,
      Submit (Some ''bob'') ''c1'' ''w1'' ''s1'' (JNumber 7) 40]"

definition exampleFinalDb :: db where
  "exampleFinalDb =
   \<lparr>users =
    [\<lparr>user_id = ''alice'', displayName = ''Alice''\<rparr>,
     \<lparr>user_id = ''bob'', displayName = ''Bob''\<rparr>],
    challenges =
      [\<lparr>ch_id = ''c1'', organizerUserId = ''org'', buyInAmount = 10,
          weeklyPrizeAmount = 5, grandPrizeAmount = None,
          weeklyPrizePercent = 10, grandPrizePercent = 30,
          numberOfWeeks = 4\<rparr>],
    participants =
      [\<lparr>p_challengeId = ''c1'', p_userId = ''alice''\<rparr>,
       \<lparr>p_challengeId = ''c1'', p_userId = ''bob''\<rparr>],
    taskTemplates =
      [\<lparr>tt_id = ''t1'', tt_challengeId = ''c1'', active = True,
          points = 5\<rparr>],
    weeks =
      [\<lparr>wk_id = ''w0'', wk_challengeId = ''c1'', wk_status = LOCKED\<rparr>,
       \<lparr>wk_id = ''w1'', wk_challengeId = ''c1'', wk_status = OPEN\<rparr>],
    completions =
      [\<lparr>c_challengeId = ''c1'', c_weekId = ''w0'', c_userId = ''alice'',
          taskTemplateId = ''t1''\<rparr>,
       \<lparr>c_challengeId = ''c1'', c_weekId = ''w0'', c_userId = ''bob'',
          taskTemplateId = ''t1''\<rparr>],
    sideChallenges =
      [\<lparr>sc_id = ''s1'', sc_challengeId = ''c1'', sc_weekId = ''w1'',
          createdByUserId = ''alice'', opponentUserId = ''bob'',
          sc_status = RESOLVED, metricType = ''HIGHER_WINS'',
          targetValue = None, stakeTokens = 1, expiresAt = 1000,
          acceptedAt = Some 20, resolvedAt = Some 40,
          winnerUserId = Some ''bob'',
          resolutionNote =
            Some ''Auto-resolved: Higher value wins: 7 > 3''\<rparr>],
    submissions =
      [\<lparr>sub_sideChallengeId = ''s1'', sub_userId = ''alice'',
          valueNumber = 3\<rparr>,
       \<lparr>sub_sideChallengeId = ''s1'', sub_userId = ''bob'',
          valueNumber = 7\<rparr>],
    tokenLedger =
      [\<lparr>tl_id = 1, tl_challengeId = ''c1'', tl_userId = ''alice'',
          tl_weekId = Some ''w0'', delta = 1, reason = PERFECT_WEEK_EARNED,
          relatedEntityId = None\<rparr>,
       \<lparr>tl_id = 2, tl_challengeId = ''c1'', tl_userId = ''bob'',
          tl_weekId = Some ''w0'', delta = 1, reason = PERFECT_WEEK_EARNED,
          relatedEntityId = None\<rparr>,
       \<lparr>tl_id = 3, tl_challengeId = ''c1'', tl_userId = ''alice'',
          tl_weekId = Some ''w1'', delta = - 1,
          reason = SIDE_CHALLENGE_STAKE, relatedEntityId = Some ''s1''\<rparr>,
       \<lparr>tl_id = 4, tl_challengeId = ''c1'', tl_userId = ''bob'',
          tl_weekId = Some ''w1'', delta = - 1,
          reason = SIDE_CHALLENGE_STAKE, relatedEntityId = Some ''s1''\<rparr>,
       \<lparr>tl_id = 5, tl_challengeId = ''c1'', tl_userId = ''bob'',
          tl_weekId = Some ''w1'', delta = 2, reason = SIDE_CHALLENGE_WIN,
          relatedEntityId = Some ''s1''\<rparr>]\<rparr>"

text \<open>
  The ledger rows of one wager and one user, as their reasons and deltas in ledger order,
  and their sum: the user's net from the wager's own entries.
\<close>

definition entriesOf :: "TokenLedger list \<Rightarrow> string \<Rightarrow> string \<Rightarrow> (LedgerReason \<times> int) list" where
  "entriesOf L i u =
     map (\<lambda>e. (reason e, delta e))
       (filter (\<lambda>e. relatedEntityId e = Some i \<and> tl_userId e = u) L)"

definition netOf :: "TokenLedger list \<Rightarrow> string \<Rightarrow> string \<Rightarrow> int" where
  "netOf L i u = sum_list (map snd (entriesOf L i u))"

text \<open>
  What the rows of a wager look like in each status, given the rows \<open>E u\<close> of user \<open>u\<close>;
  the invariant that the conservation property is proved from.
\<close>

definition wagerLedgerOk :: "SideChallenge \<Rightarrow> (string \<Rightarrow> (LedgerReason \<times> int) list) \<Rightarrow> bool" where
  "wagerLedgerOk sc E =
     (let cu = createdByUserId sc; ou = opponentUserId sc; S = stakeTokens sc;
          stake = (SIDE_CHALLENGE_STAKE, - S);
          refund = (SIDE_CHALLENGE_VOID_REFUND, S);
          tieRefund = (SIDE_CHALLENGE_TIE_REFUND, S);
          win = (SIDE_CHALLENGE_WIN, S * 2)
      in cu \<noteq> ou \<and>
         (case sc_status sc of
            PROPOSED \<Rightarrow> E cu = [stake] \<and> E ou = [] \<and> acceptedAt sc = None
          | ACCEPTED \<Rightarrow> E cu = [stake] \<and> E ou = [stake] \<and> acceptedAt sc \<noteq> None
          | PENDING_REVIEW \<Rightarrow> E cu = [stake] \<and> E ou = [stake] \<and> acceptedAt sc \<noteq> None
          | RESOLVED \<Rightarrow>
              (case winnerUserId sc of
                 None \<Rightarrow> E cu = [stake, tieRefund] \<and> E ou = [stake, tieRefund]
               | Some x \<Rightarrow>
                   (x = cu \<and> E cu = [stake, win] \<and> E ou = [stake])
                   \<or> (x = ou \<and> E ou = [stake, win] \<and> E cu = [stake]))
          | DECLINED \<Rightarrow> E cu = [stake, refund] \<and> E ou = [] \<and> acceptedAt sc = None
          | VOID \<Rightarrow>
              (if acceptedAt sc = None then E cu = [stake, refund] \<and> E ou = []
               else E cu = [stake, refund] \<and> E ou = [stake, refund])))"

text \<open>
  The invariant of the store: the keys of both tables are unique, a ledger row that names
  a related entity names an existing wager and is not a perfect-week row, and the rows of
  every wager fit its status.
\<close>

definition storeOk :: "db \<Rightarrow> bool" where
  "storeOk d =
     (distinct (map sc_id (sideChallenges d))
      \<and> distinct (map tl_id (tokenLedger d))
      \<and> (\<forall>e\<in>set (tokenLedger d).
            case relatedEntityId e of
              None \<Rightarrow> True
            | Some i \<Rightarrow> i \<in> set (map sc_id (sideChallenges d)) \<and> reason e \<noteq> PERFECT_WEEK_EARNED)
      \<and> (\<forall>sc\<in>set (sideChallenges d). wagerLedgerOk sc (entriesOf (tokenLedger d) (sc_id sc))))"

text \<open>The rows that the three token functions insert, before the store assigns keys.\<close>

definition stakeRow :: "string \<Rightarrow> string \<Rightarrow> string \<Rightarrow> string \<Rightarrow> int \<Rightarrow> TokenLedger" where
  "stakeRow c w i u a = ledgerRow c u w (- a) SIDE_CHALLENGE_STAKE (Some i)"

definition voidRefunds ::
  "string \<Rightarrow> string \<Rightarrow> string \<Rightarrow> string \<Rightarrow> string \<Rightarrow> int \<Rightarrow> bool \<Rightarrow> TokenLedger list" where
  "voidRefunds c w i cu ou S acc =
     ledgerRow c cu w S SIDE_CHALLENGE_VOID_REFUND (Some i)
     # (if acc then [ledgerRow c ou w S SIDE_CHALLENGE_VOID_REFUND (Some i)] else [])"

definition settlementRows ::
  "string \<Rightarrow> string \<Rightarrow> string \<Rightarrow> string option \<Rightarrow> string \<Rightarrow> string \<Rightarrow> int \<Rightarrow> TokenLedger list" where
  "settlementRows c w i win cu ou S =
     (case win of
        None \<Rightarrow> [ledgerRow c cu w S SIDE_CHALLENGE_TIE_REFUND (Some i),
                 ledgerRow c ou w S SIDE_CHALLENGE_TIE_REFUND (Some i)]
      | Some x \<Rightarrow> [ledgerRow c x w (S * 2) SIDE_CHALLENGE_WIN (Some i)])"

text \<open>
  Four more runs from the same setup: a tie (both submit 3), a decline, a week lock while
  the wager is still proposed, and a void by the organizer after bob accepted.
\<close>

definition tieTrace :: "Event list" where
  "tieTrace =
     exampleSetup @
     [Accept (Some ''bob'') ''c1'' ''w1'' ''s1'' 20,
      Submit (Some ''alice'') ''c1'' ''w1'' ''s1'' (JNumber 3) 30,
      Submit (Some ''bob'') ''c1'' ''w1'' ''s1'' (JNumber 3) 40]"

definition declineTrace :: "Event list" where
  "declineTrace = exampleSetup @ [Decline (Some ''bob'') ''c1'' ''w1'' ''s1'']"

definition lockTrace :: "Event list" where
  "lockTrace = exampleSetup @ [WeekLockCleanup 50 ''c1'' ''w1'']"

definition voidTrace :: "Event list" where
  "voidTrace =
     exampleSetup @
     [Accept (Some ''bob'') ''c1'' ''w1'' ''s1'' 20,
      VoidWager (Some ''org'') ''c1'' ''w1'' ''s1'' (Some ''rained out'')]"

text \<open>The wager as the setup leaves it, and the store after the setup.\<close>

definition exampleWager :: SideChallenge where
  "exampleWager =
     \<lparr>sc_id = ''s1'', sc_challengeId = ''c1'', sc_weekId = ''w1'',
      createdByUserId = ''alice'', opponentUserId = ''bob'',
      sc_status = PROPOSED, metricType = ''HIGHER_WINS'',
      targetValue = None, stakeTokens = 1, expiresAt = 1000,
      acceptedAt = None, resolvedAt = None, winnerUserId = None, resolutionNote = None\<rparr>"

definition exampleProposedDb :: db where
  "exampleProposedDb =
     exampleFinalDb\<lparr>
       sideChallenges := [exampleWager],
       submissions := [],
       tokenLedger :=
         [\<lparr>tl_id = 1, tl_challengeId = ''c1'', tl_userId = ''alice'',
           tl_weekId = Some ''w0'', delta = 1, reason = PERFECT_WEEK_EARNED,
           relatedEntityId = None\<rparr>,
          \<lparr>tl_id = 2, tl_challengeId = ''c1'', tl_userId = ''bob'',
           tl_weekId = Some ''w0'', delta = 1, reason = PERFECT_WEEK_EARNED,
           relatedEntityId = None\<rparr>,
          \<lparr>tl_id = 3, tl_challengeId = ''c1'', tl_userId = ''alice'',
           tl_weekId = Some ''w1'', delta = - 1,
           reason = SIDE_CHALLENGE_STAKE, relatedEntityId = Some ''s1''\<rparr>]\<rparr>"

text \<open>
  A store for the week-lock cleanup: the wager s1 is ACCEPTED, both stakes are in the
  ledger, and both parties have submitted.
\<close>

definition acceptedBothDb :: db where
  "acceptedBothDb =
     exampleProposedDb\<lparr>
       sideChallenges := [exampleWager\<lparr>sc_status := ACCEPTED, acceptedAt := Some 20\<rparr>],
       submissions :=
         [\<lparr>sub_sideChallengeId = ''s1'', sub_userId = ''alice'', valueNumber = 3\<rparr>,
          \<lparr>sub_sideChallengeId = ''s1'', sub_userId = ''bob'', valueNumber = 7\<rparr>],
       tokenLedger := tokenLedger exampleProposedDb @
         [\<lparr>tl_id = 4, tl_challengeId = ''c1'', tl_userId = ''bob'',
           tl_weekId = Some ''w1'', delta = - 1,
           reason = SIDE_CHALLENGE_STAKE, relatedEntityId = Some ''s1''\<rparr>]\<rparr>"

text \<open>
  The points a user earned in a week: the points of the task of each of the user's
  completions of that week.
\<close>

definition weekPoints :: "db \<Rightarrow> string \<Rightarrow> string \<Rightarrow> string \<Rightarrow> int" where
  "weekPoints d challengeId weekId userId =
     sum_list (map (\<lambda>x. pointsOf d (taskTemplateId x))
       (filter (\<lambda>x. c_userId x = userId)
          (filter (\<lambda>x. c_challengeId x = challengeId \<and> c_weekId x = weekId) (completions d))))"

text \<open>
  Ranking over the list of sorted scores: the first entry has rank 1, an entry with the
  score of the entry above it shares that entry's rank, and a new score takes its own
  position, the previous index + 2.
\<close>

fun groupRank :: "int list \<Rightarrow> nat \<Rightarrow> nat" where
  "groupRank ps 0 = 1"
| "groupRank ps (Suc k) = (if ps ! Suc k = ps ! k then groupRank ps k else Suc k + 1)"

definition tiedAt :: "int list \<Rightarrow> nat \<Rightarrow> bool" where
  "tiedAt ps i = ((0 < i \<and> ps ! i = ps ! (i - 1)) \<or> (i + 1 < length ps \<and> ps ! i = ps ! (i + 1)))"

definition rankedEntry :: "(string \<times> string \<times> int) list \<Rightarrow> nat \<Rightarrow> ParticipantScore" where
  "rankedEntry S k =
     \<lparr>ps_userId = fst (S ! k), ps_displayName = fst (snd (S ! k)),
      ps_points = snd (snd (S ! k)),
      rank = groupRank (map (\<lambda>u. snd (snd u)) S) k,
      tied = tiedAt (map (\<lambda>u. snd (snd u)) S) k\<rparr>"

text \<open>
  A competition with four participants. In week w1 bob completes two tasks of 5 points,
  alice one of 10, carol one of 8 and dave one of 5; in week w2 only carol completes a task.
\<close>

definition leaderboardExampleDb :: db where
  "leaderboardExampleDb =
     emptyDb\<lparr>
       users :=
         [\<lparr>user_id = ''alice'', displayName = ''Alice''\<rparr>,
          \<lparr>user_id = ''bob'', displayName = ''Bob''\<rparr>,
          \<lparr>user_id = ''carol'', displayName = ''Carol''\<rparr>,
          \<lparr>user_id = ''dave'', displayName = ''Dave''\<rparr>],
       participants :=
         [\<lparr>p_challengeId = ''c1'', p_userId = ''alice''\<rparr>,
          \<lparr>p_challengeId = ''c1'', p_userId = ''bob''\<rparr>,
          \<lparr>p_challengeId = ''c1'', p_userId = ''carol''\<rparr>,
          \<lparr>p_challengeId = ''c1'', p_userId = ''dave''\<rparr>],
       taskTemplates :=
         [\<lparr>tt_id = ''t10'', tt_challengeId = ''c1'', active = True, points = 10\<rparr>,
          \<lparr>tt_id = ''t8'', tt_challengeId = ''c1'', active = True, points = 8\<rparr>,
          \<lparr>tt_id = ''t5a'', tt_challengeId = ''c1'', active = True, points = 5\<rparr>,
          \<lparr>tt_id = ''t5b'', tt_challengeId = ''c1'', active = True, points = 5\<rparr>],
       weeks :=
         [\<lparr>wk_id = ''w1'', wk_challengeId = ''c1'', wk_status = OPEN\<rparr>,
          \<lparr>wk_id = ''w2'', wk_challengeId = ''c1'', wk_status = OPEN\<rparr>],
       completions :=
         [\<lparr>c_challengeId = ''c1'', c_weekId = ''w1'', c_userId = ''dave'', taskTemplateId = ''t5a''\<rparr>,
          \<lparr>c_challengeId = ''c1'', c_weekId = ''w1'', c_userId = ''bob'', taskTemplateId = ''t5a''\<rparr>,
          \<lparr>c_challengeId = ''c1'', c_weekId = ''w1'', c_userId = ''alice'', taskTemplateId = ''t10''\<rparr>,
          \<lparr>c_challengeId = ''c1'', c_weekId = ''w2'', c_userId = ''carol'', taskTemplateId = ''t8''\<rparr>,
          \<lparr>c_challengeId = ''c1'', c_weekId = ''w1'', c_userId = ''carol'', taskTemplateId = ''t8''\<rparr>,
          \<lparr>c_challengeId = ''c1'', c_weekId = ''w1'', c_userId = ''bob'', taskTemplateId = ''t5b''\<rparr>]\<rparr>"

section \<open>Winner computation\<close>

text \<open>
  C3, as stated, fails. The reason text of a TARGET_THRESHOLD tie names only the target:
  with target 5 and submitted values 3 and 7 (both at distance 2) the reason is
  "Tie: Both equally distant from target 5", which embeds neither submitted value. And
  the distances that are compared are the rounded differences: with target 1 and the
  values 10000000000000000 and 10000000000000002 both differences round to
  10000000000000000 and the result is a tie, although the first value is closer.
\<close>

theorem calculateWinner_reason_counterexample:
  "calculateWinner rt_example ''TARGET_THRESHOLD'' (Some 5) 3 7 ''alice'' ''bob''
     = Inr \<lparr>winnerId = tie, wc_reason = ''Tie: Both equally distant from target 5'',
            wc_winnerUserId = None\<rparr>
   \<and> \<not> embedsValues ''Tie: Both equally distant from target 5''
         (numToString rt_example 3) (numToString rt_example 7)
   \<and> calculateWinner rt_example ''TARGET_THRESHOLD'' (Some 1)
        10000000000000000 10000000000000002 ''alice'' ''bob''
     = Inr \<lparr>winnerId = tie, wc_reason = ''Tie: Both equally distant from target 1'',
            wc_winnerUserId = None\<rparr>
   \<and> \<bar>10000000000000000 - 1 :: real\<bar> < \<bar>10000000000000002 - 1\<bar>"
proof (intro conjI)
  show "calculateWinner rt_example ''TARGET_THRESHOLD'' (Some 5) 3 7 ''alice'' ''bob''
     = Inr \<lparr>winnerId = tie, wc_reason = ''Tie: Both equally distant from target 5'',
            wc_winnerUserId = None\<rparr>"
    by (simp add: calculateWinner_def rt_example_def fmt_example_def sub_example_def)
  have "\<not> sublist ''3'' ''Tie: Both equally distant from target 5''"
    by code_simp
  then show "\<not> embedsValues ''Tie: Both equally distant from target 5''
               (numToString rt_example 3) (numToString rt_example 7)"
    by (simp add: embedsValues_def rt_example_def fmt_example_def)
  show "calculateWinner rt_example ''TARGET_THRESHOLD'' (Some 1)
        10000000000000000 10000000000000002 ''alice'' ''bob''
     = Inr \<lparr>winnerId = tie, wc_reason = ''Tie: Both equally distant from target 1'',
            wc_winnerUserId = None\<rparr>"
    by (simp add: calculateWinner_def rt_example_def fmt_example_def sub_example_def)
  show "\<bar>10000000000000000 - 1 :: real\<bar> < \<bar>10000000000000002 - 1\<bar>"
    by simp
qed

text \<open>
  C3 (amended): the winner computation is a function of metric type, target, the two
  values and the two user ids. For HIGHER_WINS the strictly greater value wins, for
  LOWER_WINS the strictly smaller one, and equal values tie. For TARGET_THRESHOLD a
  missing target is an error; otherwise the strictly smaller distance to the target wins
  and equal distances tie, the distance being the absolute value of the difference as
  the runtime computes it in double precision. The result carries the winner's user id
  (none for a tie) and a reason text that embeds the two submitted values (and, for a
  decided TARGET_THRESHOLD, the two distances), except for a TARGET_THRESHOLD tie, whose
  reason names only the target.
\<close>

theorem calculateWinner_correct:
  "(mt = ''HIGHER_WINS'' \<longrightarrow>
      (\<exists>r. calculateWinner rt mt t a b cu ou = Inr r
         \<and> wc_winnerUserId r = (if a > b then Some cu else if b > a then Some ou else None)
         \<and> winnerId r = (if a > b then creator else if b > a then opponent else tie)
         \<and> embedsValues (wc_reason r) (numToString rt a) (numToString rt b)))
 \<and> (mt = ''LOWER_WINS'' \<longrightarrow>
      (\<exists>r. calculateWinner rt mt t a b cu ou = Inr r
         \<and> wc_winnerUserId r = (if a < b then Some cu else if b < a then Some ou else None)
         \<and> winnerId r = (if a < b then creator else if b < a then opponent else tie)
         \<and> embedsValues (wc_reason r) (numToString rt a) (numToString rt b)))
 \<and> (mt = ''TARGET_THRESHOLD'' \<longrightarrow>
      (case t of
         None \<Rightarrow> calculateWinner rt mt t a b cu ou
                   = Inl ''Target value required for TARGET_THRESHOLD metric type''
       | Some tv \<Rightarrow>
          (\<exists>r. calculateWinner rt mt t a b cu ou = Inr r
             \<and> wc_winnerUserId r
                 = (if \<bar>numSub rt a tv\<bar> < \<bar>numSub rt b tv\<bar> then Some cu
                    else if \<bar>numSub rt b tv\<bar> < \<bar>numSub rt a tv\<bar> then Some ou else None)
             \<and> winnerId r
                 = (if \<bar>numSub rt a tv\<bar> < \<bar>numSub rt b tv\<bar> then creator
                    else if \<bar>numSub rt b tv\<bar> < \<bar>numSub rt a tv\<bar> then opponent else tie)
             \<and> (if \<bar>numSub rt a tv\<bar> = \<bar>numSub rt b tv\<bar>
                 then wc_reason r = ''Tie: Both equally distant from target '' @ numToString rt tv
                 else embedsValues (wc_reason r) (numToString rt a) (numToString rt b)
                    \<and> embedsValues (wc_reason r) (numToString rt \<bar>numSub rt a tv\<bar>)
                          (numToString rt \<bar>numSub rt b tv\<bar>)))))
 \<and> (mt \<notin> {''HIGHER_WINS'', ''LOWER_WINS'', ''TARGET_THRESHOLD''} \<longrightarrow>
      calculateWinner rt mt t a b cu ou = Inl (''Unknown metric type: '' @ mt))"
proof (intro conjI impI)
  assume "mt = ''HIGHER_WINS''"
  then show "\<exists>r. calculateWinner rt mt t a b cu ou = Inr r
         \<and> wc_winnerUserId r = (if a > b then Some cu else if b > a then Some ou else None)
         \<and> winnerId r = (if a > b then creator else if b > a then opponent else tie)
         \<and> embedsValues (wc_reason r) (numToString rt a) (numToString rt b)"
    by (auto simp: calculateWinner_def embedsValues_def sublist_Cons_right sublist_append)
next
  assume "mt = ''LOWER_WINS''"
  then show "\<exists>r. calculateWinner rt mt t a b cu ou = Inr r
         \<and> wc_winnerUserId r = (if a < b then Some cu else if b < a then Some ou else None)
         \<and> winnerId r = (if a < b then creator else if b < a then opponent else tie)
         \<and> embedsValues (wc_reason r) (numToString rt a) (numToString rt b)"
    by (auto simp: calculateWinner_def embedsValues_def sublist_Cons_right sublist_append)
next
  assume mt: "mt = ''TARGET_THRESHOLD''"
  show "case t of
         None \<Rightarrow> calculateWinner rt mt t a b cu ou
                   = Inl ''Target value required for TARGET_THRESHOLD metric type''
       | Some tv \<Rightarrow>
          (\<exists>r. calculateWinner rt mt t a b cu ou = Inr r
             \<and> wc_winnerUserId r
                 = (if \<bar>numSub rt a tv\<bar> < \<bar>numSub rt b tv\<bar> then Some cu
                    else if \<bar>numSub rt b tv\<bar> < \<bar>numSub rt a tv\<bar> then Some ou else None)
             \<and> winnerId r
                 = (if \<bar>numSub rt a tv\<bar> < \<bar>numSub rt b tv\<bar> then creator
                    else if \<bar>numSub rt b tv\<bar> < \<bar>numSub rt a tv\<bar> then opponent else tie)
             \<and> (if \<bar>numSub rt a tv\<bar> = \<bar>numSub rt b tv\<bar>
                 then wc_reason r = ''Tie: Both equally distant from target '' @ numToString rt tv
                 else embedsValues (wc_reason r) (numToString rt a) (numToString rt b)
                    \<and> embedsValues (wc_reason r) (numToString rt \<bar>numSub rt a tv\<bar>)
                          (numToString rt \<bar>numSub rt b tv\<bar>)))"
  proof (cases t)
    case None
    with mt show ?thesis by (simp add: calculateWinner_def)
  next
    case (Some tv)
    with mt show ?thesis
      by (simp add: calculateWinner_def embedsValues_def Let_def sublist_Cons_right sublist_append)
  qed
next
  assume "mt \<notin> {''HIGHER_WINS'', ''LOWER_WINS'', ''TARGET_THRESHOLD''}"
  then show "calculateWinner rt mt t a b cu ou = Inl (''Unknown metric type: '' @ mt)"
    by (simp add: calculateWinner_def)
qed

theorem calculateWinner_correct_witness:
  "calculateWinner rt_example ''TARGET_THRESHOLD'' (Some 5) 3 2 ''alice'' ''bob''
     = Inr \<lparr>winnerId = creator,
            wc_reason = ''Closest to target 5: Creator 3 (distance 2) vs Opponent 2 (distance 3)'',
            wc_winnerUserId = Some ''alice''\<rparr>
   \<and> embedsValues ''Closest to target 5: Creator 3 (distance 2) vs Opponent 2 (distance 3)''
        (numToString rt_example 3) (numToString rt_example 2)
   \<and> calculateWinner rt_example ''TARGET_THRESHOLD'' None 3 2 ''alice'' ''bob''
     = Inl ''Target value required for TARGET_THRESHOLD metric type''
   \<and> (\<exists>r. calculateWinner rt_example ''HIGHER_WINS'' None 3 7 ''alice'' ''bob'' = Inr r
          \<and> wc_winnerUserId r = Some ''bob'' \<and> winnerId r = opponent)
   \<and> (\<exists>r. calculateWinner rt_example ''LOWER_WINS'' None 3 7 ''alice'' ''bob'' = Inr r
          \<and> wc_winnerUserId r = Some ''alice'' \<and> winnerId r = creator)
   \<and> calculateWinner rt_example ''FASTEST'' None 3 7 ''alice'' ''bob''
     = Inl ''Unknown metric type: FASTEST''"
  using calculateWinner_correct
          [where mt = "''TARGET_THRESHOLD''" and rt = rt_example and t = "Some 5"
             and a = 3 and b = 2 and cu = "''alice''" and ou = "''bob''"]
        calculateWinner_correct
          [where mt = "''TARGET_THRESHOLD''" and rt = rt_example and t = None
             and a = 3 and b = 2 and cu = "''alice''" and ou = "''bob''"]
        calculateWinner_correct
          [where mt = "''HIGHER_WINS''" and rt = rt_example and t = None
             and a = 3 and b = 7 and cu = "''alice''" and ou = "''bob''"]
        calculateWinner_correct
          [where mt = "''LOWER_WINS''" and rt = rt_example and t = None
             and a = 3 and b = 7 and cu = "''alice''" and ou = "''bob''"]
        calculateWinner_correct
          [where mt = "''FASTEST''" and rt = rt_example and t = None
             and a = 3 and b = 7 and cu = "''alice''" and ou = "''bob''"]
  by (simp add: calculateWinner_def rt_example_def fmt_example_def sub_example_def)

section \<open>Available balance\<close>

lemma fold_addStake:
  "fold (addStake u) xs a =
     a + sum_list (map stakeTokens
           (filter (\<lambda>sc. createdByUserId sc = u
                        \<or> sc_status sc = ACCEPTED \<or> sc_status sc = PENDING_REVIEW) xs))"
  by (induction xs arbitrary: a) (auto simp: addStake_def)

lemma getTokenBalance_sum: "getTokenBalance d c u = ledgerTotal d c u"
  by (simp add: getTokenBalance_def ledgerTotal_def aggregate_sum_delta_def)

text \<open>
  C4: \<open>getAvailableBalance\<close> returns total, staked and available with
  available = total - staked, where total is the sum of the user's ledger deltas and
  staked is the sum of the stakes of the user's own still-open wagers, the creator's from
  the proposal on and the opponent's once the wager is accepted.
\<close>

theorem getAvailableBalance_correct:
  "getAvailableBalance d challengeId userId =
     \<lparr>total = ledgerTotal d challengeId userId,
      available = ledgerTotal d challengeId userId - stakedBy d challengeId userId,
      staked = stakedBy d challengeId userId\<rparr>"
proof -
  have "fold (addStake userId)
          (filter (\<lambda>sc. sc_challengeId sc = challengeId
                       \<and> (createdByUserId sc = userId \<or> opponentUserId sc = userId)
                       \<and> isOpenStatus (sc_status sc)) (sideChallenges d)) 0
        = stakedBy d challengeId userId"
    unfolding fold_addStake stakedBy_def filter_filter
    by (auto intro!: arg_cong[where f=sum_list] arg_cong[where f="map stakeTokens"] filter_cong)
  then show ?thesis
    by (simp add: getAvailableBalance_def getTokenBalance_sum Let_def)
qed

theorem getAvailableBalance_correct_witness:
  "getAvailableBalance balanceExampleDb ''c1'' ''bob'' = \<lparr>total = 3, available = 1, staked = 2\<rparr>
   \<and> ledgerTotal balanceExampleDb ''c1'' ''bob'' = 3
   \<and> stakedBy balanceExampleDb ''c1'' ''bob'' = 2"
proof -
  have t: "ledgerTotal balanceExampleDb ''c1'' ''bob'' = 3"
    by (simp add: ledgerTotal_def balanceExampleDb_def emptyDb_def)
  have s: "stakedBy balanceExampleDb ''c1'' ''bob'' = 2"
    by (simp add: stakedBy_def balanceExampleDb_def emptyDb_def isOpenStatus_def)
  show ?thesis
    using getAvailableBalance_correct [of balanceExampleDb "''c1''" "''bob''"]
    by (simp add: t s)
qed

section \<open>Payout summary\<close>

text \<open>
  C6, as stated, fails: \<open>getPayoutSummary\<close> reads the fixed weekly amount and never a
  percentage. For a buy-in of 10, four participants, four weeks, a weekly amount of 5 and
  percentages 10 and 30, it returns a weekly total of 20 and a grand prize of 20, where
  the percentage scheme gives 16 and 12.
\<close>

theorem getPayoutSummary_percent_counterexample:
  "getPayoutSummary rt_example payoutExampleDb ''c1''
     = Inr \<lparr>totalPot = 40, weeklyPayoutTotal = 20, grandPrize = 20, weeklyPrize = 5,
            participantCount = 4\<rparr>
   \<and> claimedWeeklyPayoutTotal payoutExampleChallenge 40 = 16
   \<and> claimedGrandPrize payoutExampleChallenge 40 = 12"
  by (simp add: getPayoutSummary_def payoutExampleDb_def payoutExampleChallenge_def emptyDb_def
        truthy_number_def claimedWeeklyPayoutTotal_def claimedGrandPrize_def
        rt_example_def sub_example_def)

text \<open>
  C6 (amended): for every competition, the total pot is the buy-in times the number of
  participants, the weekly payout total is the fixed weekly prize amount times the number
  of weeks, and the grand prize is the override amount when one is present and not zero,
  and the total pot less the weekly payout total when none is present; products and
  difference are those of the runtime's double arithmetic. A zero override is returned
  as 0 when the client delivers the column as a Decimal object, and is replaced by the
  total pot less the weekly payout total when it delivers a number.
\<close>

theorem getPayoutSummary_correct:
  assumes "find (\<lambda>c. ch_id c = challengeId) (challenges d) = Some ch"
  shows "\<exists>s. getPayoutSummary rt d challengeId = Inr s
           \<and> participantCount s
               = length (filter (\<lambda>p. p_challengeId p = challengeId) (participants d))
           \<and> totalPot s = numMul rt (buyInAmount ch) (real (participantCount s))
           \<and> weeklyPrize s = weeklyPrizeAmount ch
           \<and> weeklyPayoutTotal s
               = numMul rt (weeklyPrizeAmount ch) (real_of_int (numberOfWeeks ch))
           \<and> grandPrize s
               = (case grandPrizeAmount ch of
                    None \<Rightarrow> numSub rt (totalPot s) (weeklyPayoutTotal s)
                  | Some g \<Rightarrow>
                      if g \<noteq> 0 then g
                      else if decimalColumns rt then 0
                      else numSub rt (totalPot s) (weeklyPayoutTotal s))"
  using assms
  by (auto simp: getPayoutSummary_def Let_def truthy_number_def split: option.splits)

theorem getPayoutSummary_correct_witness:
  "(\<exists>s. getPayoutSummary rt_example payoutExampleDb ''c1'' = Inr s
          \<and> participantCount s = 4 \<and> totalPot s = 40 \<and> weeklyPrize s = 5
          \<and> weeklyPayoutTotal s = 20 \<and> grandPrize s = 20)
   \<and> (\<exists>s. getPayoutSummary rt_example (payoutOverrideDb (Some 25)) ''c1'' = Inr s
          \<and> totalPot s = 40 \<and> weeklyPayoutTotal s = 20 \<and> grandPrize s = 25)
   \<and> (\<exists>s. getPayoutSummary rt_example (payoutOverrideDb (Some 0)) ''c1'' = Inr s
          \<and> totalPot s = 40 \<and> weeklyPayoutTotal s = 20 \<and> grandPrize s = 20)
   \<and> (\<exists>s. getPayoutSummary (rt_example\<lparr>decimalColumns := True\<rparr>) (payoutOverrideDb (Some 0)) ''c1''
            = Inr s
          \<and> totalPot s = 40 \<and> weeklyPayoutTotal s = 20 \<and> grandPrize s = 0)"
proof -
  have f: "find (\<lambda>c. ch_id c = ''c1'') (challenges payoutExampleDb) = Some payoutExampleChallenge"
    by (simp add: payoutExampleDb_def payoutExampleChallenge_def emptyDb_def)
  have g: "find (\<lambda>c. ch_id c = ''c1'') (challenges (payoutOverrideDb x))
             = Some (payoutExampleChallenge\<lparr>grandPrizeAmount := x\<rparr>)" for x
    by (simp add: payoutOverrideDb_def payoutExampleDb_def payoutExampleChallenge_def emptyDb_def)
  have p: "length (filter (\<lambda>p. p_challengeId p = ''c1'') (participants payoutExampleDb)) = 4"
          "length (filter (\<lambda>p. p_challengeId p = ''c1'') (participants (payoutOverrideDb x))) = 4"
    for x
    by (simp_all add: payoutOverrideDb_def payoutExampleDb_def emptyDb_def)
  have a: "\<exists>s. getPayoutSummary rt_example payoutExampleDb ''c1'' = Inr s
          \<and> participantCount s = 4 \<and> totalPot s = 40 \<and> weeklyPrize s = 5
          \<and> weeklyPayoutTotal s = 20 \<and> grandPrize s = 20"
    using getPayoutSummary_correct [OF f, where rt = rt_example]
    by (auto simp: p payoutExampleChallenge_def rt_example_def sub_example_def)
  have b: "\<exists>s. getPayoutSummary rt_example (payoutOverrideDb (Some 25)) ''c1'' = Inr s
          \<and> totalPot s = 40 \<and> weeklyPayoutTotal s = 20 \<and> grandPrize s = 25"
    using getPayoutSummary_correct [OF g [of "Some 25"], where rt = rt_example]
    by (auto simp: p payoutExampleChallenge_def rt_example_def sub_example_def)
  have c: "\<exists>s. getPayoutSummary rt_example (payoutOverrideDb (Some 0)) ''c1'' = Inr s
          \<and> totalPot s = 40 \<and> weeklyPayoutTotal s = 20 \<and> grandPrize s = 20"
    using getPayoutSummary_correct [OF g [of "Some 0"], where rt = rt_example]
    by (auto simp: p payoutExampleChallenge_def rt_example_def sub_example_def)
  have d: "\<exists>s. getPayoutSummary (rt_example\<lparr>decimalColumns := True\<rparr>)
                 (payoutOverrideDb (Some 0)) ''c1'' = Inr s
          \<and> totalPot s = 40 \<and> weeklyPayoutTotal s = 20 \<and> grandPrize s = 0"
    using getPayoutSummary_correct
            [OF g [of "Some 0"], where rt = "rt_example\<lparr>decimalColumns := True\<rparr>"]
    by (auto simp: p payoutExampleChallenge_def rt_example_def sub_example_def)
  from a b c d show ?thesis by (intro conjI)
qed

section \<open>Perfect-week detection\<close>

text \<open>
  C8 at an input where the size comparison and the documented meaning part ways: with t1
  the only active task, u1 (who completed only the inactive t2) is returned, and u2 (who
  completed t1, and t2 as well) is not.
\<close>

theorem detectPerfectWeeks_counts_inactive_tasks:
  "detectPerfectWeeks perfectWeekBugDb ''c1'' ''w1'' = [''u1'']"
  by (simp add: detectPerfectWeeks_def perfectWeekBugDb_def emptyDb_def addCompletion_def)

section \<open>Ledger rows and their keys\<close>

lemma fold_max_ge_init: "(a::nat) \<le> fold max xs a"
proof (induction xs arbitrary: a)
  case Nil
  then show ?case by simp
next
  case (Cons y ys)
  have "a \<le> max y a" by simp
  also have "\<dots> \<le> fold max ys (max y a)" by (rule Cons.IH)
  finally show ?case by simp
qed

lemma fold_max_ge_mem: "x \<in> set xs \<Longrightarrow> (x::nat) \<le> fold max xs a"
proof (induction xs arbitrary: a)
  case Nil
  then show ?case by simp
next
  case (Cons y ys)
  show ?case
  proof (cases "x = y")
    case True
    have "x \<le> max y a" using True by simp
    also have "\<dots> \<le> fold max ys (max y a)" by (rule fold_max_ge_init)
    finally show ?thesis by simp
  next
    case False
    with Cons show ?thesis by simp
  qed
qed

lemma next_id_fresh: "e \<in> set L \<Longrightarrow> tl_id e < next_id L"
  unfolding next_id_def using fold_max_ge_mem[of "tl_id e" "map tl_id L" 0] by simp

lemma createMany_append:
  "\<exists>new. tokenLedger_createMany rows L = L @ new
         \<and> map noId new = map noId rows
         \<and> (\<forall>e\<in>set new. \<forall>e'\<in>set L. tl_id e' < tl_id e)
         \<and> distinct (map tl_id new)"
proof (induction rows arbitrary: L)
  case Nil
  then show ?case by (simp add: tokenLedger_createMany_def)
next
  case (Cons r rows)
  let ?r' = "r\<lparr>tl_id := next_id L\<rparr>"
  obtain new where n: "tokenLedger_createMany rows (L @ [?r']) = (L @ [?r']) @ new"
      "map noId new = map noId rows"
      "\<forall>e\<in>set new. \<forall>e'\<in>set (L @ [?r']). tl_id e' < tl_id e"
      "distinct (map tl_id new)"
    using Cons.IH[of "L @ [?r']"] by blast
  have "tokenLedger_createMany (r # rows) L = L @ (?r' # new)"
    using n(1) by (simp add: tokenLedger_createMany_def tokenLedger_create_def)
  moreover have "map noId (?r' # new) = map noId (r # rows)"
    using n(2) by (simp add: noId_def)
  moreover have "\<forall>e\<in>set (?r' # new). \<forall>e'\<in>set L. tl_id e' < tl_id e"
    using n(3) next_id_fresh by auto
  moreover have "distinct (map tl_id (?r' # new))"
    using n(3) n(4) by force
  ultimately show ?case by blast
qed

lemma ex_noId:
  assumes "map noId new = map noId rows" and "\<And>e. P (noId e) = P e"
  shows "(\<exists>e\<in>set new. P e) = (\<exists>e\<in>set rows. P e)"
proof -
  have "noId ` set new = noId ` set rows"
    using assms(1) by (metis set_map)
  moreover have "(\<exists>e\<in>set new. P e) = (\<exists>x\<in>noId ` set new. P x)" using assms(2) by auto
  moreover have "(\<exists>e\<in>set rows. P e) = (\<exists>x\<in>noId ` set rows. P x)" using assms(2) by auto
  ultimately show ?thesis by simp
qed

section \<open>Perfect-week award\<close>

lemma find_None_iff_ex: "(find P xs \<noteq> None) = (\<exists>x\<in>set xs. P x)"
  by (auto simp: find_None_iff)

lemma detectPerfectWeeks_ledger [simp]:
  "detectPerfectWeeks (d\<lparr>tokenLedger := L\<rparr>) c w = detectPerfectWeeks d c w"
  by (simp add: detectPerfectWeeks_def Let_def)

lemma fold_awardFilterStep:
  "fold (awardFilterStep d c w) us (acc, n) =
     (acc @ filter (\<lambda>u. \<not> hasReceivedPerfectWeekToken d c w u) us,
      n + length (filter (hasReceivedPerfectWeekToken d c w) us))"
  by (induction us arbitrary: acc n) (auto simp: awardFilterStep_def)

lemma hasReceived_iff:
  "hasReceivedPerfectWeekToken d c w u =
     (\<exists>e\<in>set (tokenLedger d). tl_challengeId e = c \<and> tl_weekId e = Some w \<and> tl_userId e = u
                \<and> reason e = PERFECT_WEEK_EARNED)"
  unfolding hasReceivedPerfectWeekToken_def by (rule find_None_iff_ex)

lemma hasReceived_after_award:
  "hasReceivedPerfectWeekToken
     (d\<lparr>tokenLedger := tokenLedger_createMany (map (perfectWeekRow c w) us) (tokenLedger d)\<rparr>) c w u
   = (hasReceivedPerfectWeekToken d c w u \<or> u \<in> set us)"
proof -
  let ?P = "\<lambda>e. tl_challengeId e = c \<and> tl_weekId e = Some w \<and> tl_userId e = u
                \<and> reason e = PERFECT_WEEK_EARNED"
  obtain new where n: "tokenLedger_createMany (map (perfectWeekRow c w) us) (tokenLedger d)
                        = tokenLedger d @ new"
      "map noId new = map noId (map (perfectWeekRow c w) us)"
    using createMany_append by blast
  have "(\<exists>e\<in>set new. ?P e) = (\<exists>e\<in>set (map (perfectWeekRow c w) us). ?P e)"
    by (rule ex_noId[OF n(2)]) (simp add: noId_def)
  also have "\<dots> = (u \<in> set us)"
    by (auto simp: perfectWeekRow_def)
  finally have "(\<exists>e\<in>set new. ?P e) = (u \<in> set us)" .
  then show ?thesis
    unfolding hasReceived_iff by (simp add: n(1) bex_Un)
qed

text \<open>
  C7: \<open>awardPerfectWeekTokensSafe\<close> is idempotent. Called again on the store that the first
  call left, for the same competition and week, it returns that store unchanged (no
  ledger row is created) and reports awarded = 0, with every qualifier counted as already
  awarded: each qualifier's perfect-week-earned row for that competition, week and user
  is found by the check that precedes the award.
\<close>

theorem awardPerfectWeekTokensSafe_idempotent:
  "awardPerfectWeekTokensSafe (fst (awardPerfectWeekTokensSafe d c w)) c w
     = (fst (awardPerfectWeekTokensSafe d c w),
        \<lparr>awarded = 0, alreadyAwarded = length (detectPerfectWeeks d c w)\<rparr>)"
proof (cases "detectPerfectWeeks d c w = []")
  case True
  then show ?thesis by (simp add: awardPerfectWeekTokensSafe_def)
next
  case False
  let ?P = "detectPerfectWeeks d c w"
  let ?A = "filter (\<lambda>u. \<not> hasReceivedPerfectWeekToken d c w u) ?P"
  show ?thesis
  proof (cases "?A = []")
    case True
    then have all: "\<forall>u\<in>set ?P. hasReceivedPerfectWeekToken d c w u"
      by (auto simp: filter_empty_conv)
    have first: "fst (awardPerfectWeekTokensSafe d c w) = d"
      using False True
      by (simp add: awardPerfectWeekTokensSafe_def fold_awardFilterStep awardPerfectWeekTokens_def Let_def)
    have "filter (hasReceivedPerfectWeekToken d c w) ?P = ?P"
      using all by (simp add: filter_id_conv)
    then show ?thesis
      using False True unfolding first
      by (simp add: awardPerfectWeekTokensSafe_def fold_awardFilterStep awardPerfectWeekTokens_def Let_def)
  next
    case A: False
    let ?d' = "d\<lparr>tokenLedger := tokenLedger_createMany (map (perfectWeekRow c w) ?A) (tokenLedger d)\<rparr>"
    have first: "fst (awardPerfectWeekTokensSafe d c w) = ?d'"
      using False A
      by (simp add: awardPerfectWeekTokensSafe_def fold_awardFilterStep awardPerfectWeekTokens_def Let_def)
    have all: "\<forall>u\<in>set ?P. hasReceivedPerfectWeekToken ?d' c w u"
      by (auto simp: hasReceived_after_award)
    have f1: "filter (hasReceivedPerfectWeekToken ?d' c w) ?P = ?P"
      using all by (simp add: filter_id_conv)
    have f2: "filter (\<lambda>u. \<not> hasReceivedPerfectWeekToken ?d' c w u) ?P = []"
      using all by (simp add: filter_empty_conv)
    show ?thesis
      unfolding first using False
      by (simp add: awardPerfectWeekTokensSafe_def fold_awardFilterStep awardPerfectWeekTokens_def f1 f2 Let_def)
  qed
qed

lemma detect_awardExample: "detectPerfectWeeks awardExampleDb ''c1'' ''w1'' = [''u1'']"
  by (simp add: detectPerfectWeeks_def awardExampleDb_def emptyDb_def addCompletion_def)

theorem awardPerfectWeekTokensSafe_idempotent_witness:
  "snd (awardPerfectWeekTokensSafe awardExampleDb ''c1'' ''w1'') = \<lparr>awarded = 1, alreadyAwarded = 0\<rparr>
   \<and> awardPerfectWeekTokensSafe (fst (awardPerfectWeekTokensSafe awardExampleDb ''c1'' ''w1'')) ''c1'' ''w1''
       = (fst (awardPerfectWeekTokensSafe awardExampleDb ''c1'' ''w1''),
          \<lparr>awarded = 0, alreadyAwarded = 1\<rparr>)"
proof -
  have h: "\<not> hasReceivedPerfectWeekToken awardExampleDb ''c1'' ''w1'' ''u1''"
    by (simp add: hasReceivedPerfectWeekToken_def awardExampleDb_def emptyDb_def)
  have "snd (awardPerfectWeekTokensSafe awardExampleDb ''c1'' ''w1'')
          = \<lparr>awarded = 1, alreadyAwarded = 0\<rparr>"
    by (simp add: awardPerfectWeekTokensSafe_def detect_awardExample awardFilterStep_def h
          awardPerfectWeekTokens_def)
  then show ?thesis
    using awardPerfectWeekTokensSafe_idempotent [of awardExampleDb "''c1''" "''w1''"]
    by (simp add: detect_awardExample)
qed

section \<open>Recalculation of perfect-week tokens\<close>

lemma set_fold_setInsert: "set (fold setInsert xs acc) = set acc \<union> set xs"
  by (induction xs arbitrary: acc) (auto simp: setInsert_def)

lemma set_newSet [simp]: "set (newSet xs) = set xs"
  by (simp add: newSet_def set_fold_setInsert)

lemma deleteMany_old:
  assumes "distinct (map tl_id L)" and "set R \<subseteq> set L"
  shows "filter (\<lambda>e. tl_id e \<notin> set (map tl_id R)) L = filter (\<lambda>e. e \<notin> set R) L"
proof (rule filter_cong[OF refl])
  fix e assume e: "e \<in> set L"
  have inj: "inj_on tl_id (set L)" using assms(1) by (simp add: distinct_map)
  show "(tl_id e \<notin> set (map tl_id R)) = (e \<notin> set R)"
  proof
    assume "tl_id e \<notin> set (map tl_id R)"
    then show "e \<notin> set R" by auto
  next
    assume n: "e \<notin> set R"
    show "tl_id e \<notin> set (map tl_id R)"
    proof
      assume "tl_id e \<in> set (map tl_id R)"
      then obtain r where r: "r \<in> set R" "tl_id r = tl_id e" by auto
      with assms(2) have "r \<in> set L" by auto
      with inj e r(2) have "r = e" by (auto dest: inj_onD)
      with r(1) n show False by simp
    qed
  qed
qed

lemma deleteMany_new:
  assumes "\<forall>e\<in>set new. \<forall>e'\<in>set L. tl_id e' < tl_id e" and "set R \<subseteq> set L"
  shows "filter (\<lambda>e. tl_id e \<notin> set (map tl_id R)) new = new"
proof -
  have "\<forall>e\<in>set new. tl_id e \<notin> set (map tl_id R)"
  proof
    fix e assume e: "e \<in> set new"
    show "tl_id e \<notin> set (map tl_id R)"
    proof
      assume "tl_id e \<in> set (map tl_id R)"
      then obtain r where r: "r \<in> set R" "tl_id r = tl_id e" by auto
      with assms(2) have "r \<in> set L" by auto
      with assms(1) e have "tl_id r < tl_id e" by blast
      with r(2) show False by simp
    qed
  qed
  then show ?thesis by (simp add: filter_id_conv)
qed

lemma deleteMany_if:
  "(if length R > 0 then tokenLedger_deleteMany (map tl_id R) X else X)
     = filter (\<lambda>e. tl_id e \<notin> set (map tl_id R)) X"
  by (cases R) (simp_all add: tokenLedger_deleteMany_def)

lemma revoke_after_award:
  assumes "distinct (map tl_id L)" and "set R \<subseteq> set L" and "L1 = L @ new"
    and "\<forall>e\<in>set new. \<forall>e'\<in>set L. tl_id e' < tl_id e"
  shows "(if length R > 0 then tokenLedger_deleteMany (map tl_id R) L1 else L1)
           = filter (\<lambda>e. e \<notin> set R) L @ new"
proof -
  have "(if length R > 0 then tokenLedger_deleteMany (map tl_id R) L1 else L1)
          = filter (\<lambda>e. tl_id e \<notin> set (map tl_id R)) (L @ new)"
    unfolding assms(3) by (rule deleteMany_if)
  also have "\<dots> = filter (\<lambda>e. tl_id e \<notin> set (map tl_id R)) L
                  @ filter (\<lambda>e. tl_id e \<notin> set (map tl_id R)) new"
    by (rule filter_append)
  also have "\<dots> = filter (\<lambda>e. e \<notin> set R) L @ new"
    by (simp only: deleteMany_old[OF assms(1,2)] deleteMany_new[OF assms(4,2)])
  finally show ?thesis .
qed

text \<open>
  C9: a successful recalculation (the week is locked, the caller is the organizer) on a
  ledger with unique keys leaves the ledger as the old rows, in order and unchanged,
  without the perfect-week-earned rows of this competition and week whose user no longer
  qualifies, followed by one new +1 perfect-week-earned row for each qualifying user who
  had none. Rows with another reason, of another week or competition, or of users whose
  qualification did not change are therefore untouched. The counts reported are the
  numbers of rows added, of rows deleted, and of existing rows of qualifying users; no
  other table changes.
\<close>

theorem recalculateTokensRoute_frame:
  assumes ok: "recalculateTokensRoute session c w d = Inr (d', res)"
    and dist: "distinct (map tl_id (tokenLedger d))"
  shows "\<exists>new.
           tokenLedger d' =
             filter (\<lambda>e. \<not> (isPerfectWeekEntry c w e \<and> tl_userId e \<notin> set (detectPerfectWeeks d c w)))
                    (tokenLedger d) @ new
         \<and> map noId new =
             map (perfectWeekRow c w)
               (filter (\<lambda>u. \<not> (\<exists>e\<in>set (tokenLedger d). isPerfectWeekEntry c w e \<and> tl_userId e = u))
                       (newSet (detectPerfectWeeks d c w)))
         \<and> rc_awarded res = length new
         \<and> revoked res =
             length (filter (\<lambda>e. isPerfectWeekEntry c w e \<and> tl_userId e \<notin> set (detectPerfectWeeks d c w))
                            (tokenLedger d))
         \<and> unchanged res =
             length (filter (\<lambda>e. isPerfectWeekEntry c w e \<and> tl_userId e \<in> set (detectPerfectWeeks d c w))
                            (tokenLedger d))
         \<and> d' = d\<lparr>tokenLedger := tokenLedger d'\<rparr>"
proof -
  let ?L = "tokenLedger d"
  let ?Q = "newSet (detectPerfectWeeks d c w)"
  let ?ex = "filter (\<lambda>e. tl_challengeId e = c \<and> tl_weekId e = Some w
                          \<and> reason e = PERFECT_WEEK_EARNED) ?L"
  let ?toAward = "filter (\<lambda>i. i \<notin> set (newSet (map tl_userId ?ex))) ?Q"
  let ?toRevoke = "filter (\<lambda>e. tl_userId e \<notin> set ?Q) ?ex"
  let ?L1 = "if length ?toAward > 0
             then tokenLedger_createMany (map (perfectWeekRow c w) ?toAward) ?L else ?L"
  let ?L2 = "if length ?toRevoke > 0 then tokenLedger_deleteMany (map tl_id ?toRevoke) ?L1 else ?L1"
  from ok have d': "d' = d\<lparr>tokenLedger := ?L2\<rparr>"
    and res: "res = \<lparr>rc_awarded = length ?toAward, revoked = length ?toRevoke,
                     unchanged = length ?ex - length ?toRevoke\<rparr>"
    by (auto simp: recalculateTokensRoute_def Let_def split: option.splits if_splits)
  obtain new where new: "?L1 = ?L @ new"
      "map noId new = map noId (map (perfectWeekRow c w) ?toAward)"
      "\<forall>e\<in>set new. \<forall>e'\<in>set ?L. tl_id e' < tl_id e"
  proof (cases "length ?toAward > 0")
    case True
    then show ?thesis
      using createMany_append[of "map (perfectWeekRow c w) ?toAward" ?L] that by auto
  next
    case False
    then show ?thesis using that[of "[]"] by simp
  qed
  have sub: "set ?toRevoke \<subseteq> set ?L" by auto
  have "?L2 = filter (\<lambda>e. e \<notin> set ?toRevoke) ?L @ new"
    by (rule revoke_after_award[OF dist sub new(1) new(3)])
  also have "filter (\<lambda>e. e \<notin> set ?toRevoke) ?L
        = filter (\<lambda>e. \<not> (isPerfectWeekEntry c w e \<and> tl_userId e \<notin> set (detectPerfectWeeks d c w))) ?L"
    by (rule filter_cong) (auto simp: isPerfectWeekEntry_def)
  finally have a: "tokenLedger d' =
      filter (\<lambda>e. \<not> (isPerfectWeekEntry c w e \<and> tl_userId e \<notin> set (detectPerfectWeeks d c w))) ?L @ new"
    by (simp add: d')
  have ta: "?toAward =
      filter (\<lambda>u. \<not> (\<exists>e\<in>set ?L. isPerfectWeekEntry c w e \<and> tl_userId e = u)) ?Q"
    by (rule filter_cong) (auto simp: isPerfectWeekEntry_def)
  have b: "map noId new = map (perfectWeekRow c w)
               (filter (\<lambda>u. \<not> (\<exists>e\<in>set ?L. isPerfectWeekEntry c w e \<and> tl_userId e = u)) ?Q)"
    using new(2) unfolding ta by (simp add: noId_def perfectWeekRow_def)
  have c: "rc_awarded res = length new"
    using arg_cong[OF new(2), of length] by (simp add: res)
  have rv: "?toRevoke =
      filter (\<lambda>e. isPerfectWeekEntry c w e \<and> tl_userId e \<notin> set (detectPerfectWeeks d c w)) ?L"
    by (auto simp: isPerfectWeekEntry_def intro: filter_cong)
  have un: "length ?ex - length ?toRevoke =
      length (filter (\<lambda>e. isPerfectWeekEntry c w e \<and> tl_userId e \<in> set (detectPerfectWeeks d c w)) ?L)"
  proof -
    have "length ?ex = length (filter (\<lambda>e. tl_userId e \<notin> set ?Q) ?ex)
                       + length (filter (\<lambda>e. \<not> tl_userId e \<notin> set ?Q) ?ex)"
      by (rule sum_length_filter_compl[symmetric])
    moreover have "filter (\<lambda>e. \<not> tl_userId e \<notin> set ?Q) ?ex
        = filter (\<lambda>e. isPerfectWeekEntry c w e \<and> tl_userId e \<in> set (detectPerfectWeeks d c w)) ?L"
      by (auto simp: isPerfectWeekEntry_def intro: filter_cong)
    ultimately show ?thesis by simp
  qed
  show ?thesis
    apply (rule exI[of _ new])
    using a b c rv un res d' by simp
qed


lemma awardExample_tables:
  "tokenLedger awardExampleDb =
     [\<lparr>tl_id = 1, tl_challengeId = ''c1'', tl_userId = ''u2'', tl_weekId = Some ''w1'',
       delta = 1, reason = PERFECT_WEEK_EARNED, relatedEntityId = None\<rparr>,
      \<lparr>tl_id = 2, tl_challengeId = ''c1'', tl_userId = ''u2'', tl_weekId = Some ''w0'',
       delta = 1, reason = PERFECT_WEEK_EARNED, relatedEntityId = None\<rparr>,
      \<lparr>tl_id = 3, tl_challengeId = ''c1'', tl_userId = ''u2'', tl_weekId = Some ''w1'',
       delta = - 1, reason = SIDE_CHALLENGE_STAKE, relatedEntityId = Some ''s1''\<rparr>]"
  "weeks awardExampleDb = [\<lparr>wk_id = ''w1'', wk_challengeId = ''c1'', wk_status = LOCKED\<rparr>]"
  "verifyOrganizer awardExampleDb ''c1'' ''org''"
  by (simp_all add: awardExampleDb_def emptyDb_def verifyOrganizer_def)

theorem recalculateTokensRoute_frame_witness:
  "recalculateTokensRoute (Some ''org'') ''c1'' ''w1'' awardExampleDb
     = Inr (recalcExampleAfter, \<lparr>rc_awarded = 1, revoked = 1, unchanged = 0\<rparr>)
   \<and> distinct (map tl_id (tokenLedger awardExampleDb))
   \<and> (\<exists>new. tokenLedger recalcExampleAfter =
          [\<lparr>tl_id = 2, tl_challengeId = ''c1'', tl_userId = ''u2'', tl_weekId = Some ''w0'',
            delta = 1, reason = PERFECT_WEEK_EARNED, relatedEntityId = None\<rparr>,
           \<lparr>tl_id = 3, tl_challengeId = ''c1'', tl_userId = ''u2'', tl_weekId = Some ''w1'',
            delta = - 1, reason = SIDE_CHALLENGE_STAKE, relatedEntityId = Some ''s1''\<rparr>] @ new
        \<and> map noId new = [perfectWeekRow ''c1'' ''w1'' ''u1''])"
proof -
  have ok: "recalculateTokensRoute (Some ''org'') ''c1'' ''w1'' awardExampleDb
     = Inr (recalcExampleAfter, \<lparr>rc_awarded = 1, revoked = 1, unchanged = 0\<rparr>)"
    by (simp add: recalculateTokensRoute_def detect_awardExample awardExample_tables Let_def
          newSet_def setInsert_def tokenLedger_createMany_def tokenLedger_create_def next_id_def
          tokenLedger_deleteMany_def perfectWeekRow_def recalcExampleAfter_def)
  have dist: "distinct (map tl_id (tokenLedger awardExampleDb))"
    by (simp add: awardExample_tables)
  have "\<exists>new. tokenLedger recalcExampleAfter =
          [\<lparr>tl_id = 2, tl_challengeId = ''c1'', tl_userId = ''u2'', tl_weekId = Some ''w0'',
            delta = 1, reason = PERFECT_WEEK_EARNED, relatedEntityId = None\<rparr>,
           \<lparr>tl_id = 3, tl_challengeId = ''c1'', tl_userId = ''u2'', tl_weekId = Some ''w1'',
            delta = - 1, reason = SIDE_CHALLENGE_STAKE, relatedEntityId = Some ''s1''\<rparr>] @ new
        \<and> map noId new = [perfectWeekRow ''c1'' ''w1'' ''u1'']"
    using recalculateTokensRoute_frame [OF ok dist]
    by (simp add: detect_awardExample newSet_def setInsert_def isPerfectWeekEntry_def
          awardExample_tables recalcExampleAfter_def)
  with ok dist show ?thesis by blast
qed

section \<open>What a successful request writes\<close>

lemma tokenLedger_create_as_many: "tokenLedger_create row L = tokenLedger_createMany [row] L"
  by (simp add: tokenLedger_createMany_def)

lemma find_sc_normTarget:
  "getSideChallengeById rt d i = Some sc' \<Longrightarrow>
     \<exists>sc. find (\<lambda>c. sc_id c = i) (sideChallenges d) = Some sc
        \<and> sc' = sc\<lparr>targetValue := normTarget rt (targetValue sc)\<rparr>"
  by (auto simp: getSideChallengeById_def)

lemma proposeRoute_shape:
  assumes "proposeRoute rt session c w body now newId d = Inr d'"
  shows "\<exists>u t. session = Some u \<and> u \<noteq> b_opponentUserId body
           \<and> newId \<notin> set (map sc_id (sideChallenges d))
           \<and> d' = d\<lparr>sideChallenges :=
                      sideChallenges d @
                        [\<lparr>sc_id = newId, sc_challengeId = c, sc_weekId = w,
                          createdByUserId = u, opponentUserId = b_opponentUserId body,
                          sc_status = PROPOSED, metricType = b_metricType body,
                          targetValue = b_targetValue body, stakeTokens = b_stakeTokens body,
                          expiresAt = t, acceptedAt = None, resolvedAt = None,
                          winnerUserId = None, resolutionNote = None\<rparr>],
                    tokenLedger :=
                      stakeSideChallengeTokens c w newId u (b_stakeTokens body) (tokenLedger d)\<rparr>"
  using assms
  by (auto simp: proposeRoute_def Let_def split: option.splits if_splits)

lemma acceptRoute_shape:
  assumes "acceptRoute rt session c w i now d = Inr d'"
  shows "\<exists>sc. find (\<lambda>x. sc_id x = i) (sideChallenges d) = Some sc
           \<and> sc_status sc = PROPOSED \<and> session = Some (opponentUserId sc)
           \<and> d' = d\<lparr>sideChallenges :=
                      sideChallenge_update i
                        (\<lambda>sc. sc\<lparr>sc_status := ACCEPTED, acceptedAt := Some now\<rparr>) (sideChallenges d),
                    tokenLedger :=
                      stakeSideChallengeTokens c w i (opponentUserId sc) (stakeTokens sc)
                        (tokenLedger d)\<rparr>"
  using assms
  by (auto simp: acceptRoute_def split: option.splits if_splits dest!: find_sc_normTarget)

lemma declineRoute_shape:
  assumes "declineRoute rt session c w i d = Inr d'"
  shows "\<exists>sc. find (\<lambda>x. sc_id x = i) (sideChallenges d) = Some sc
           \<and> sc_status sc = PROPOSED \<and> session = Some (opponentUserId sc)
           \<and> d' = d\<lparr>sideChallenges :=
                      sideChallenge_update i
                        (\<lambda>sc. sc\<lparr>sc_status := DECLINED,
                                  resolutionNote := Some ''Declined by opponent''\<rparr>)
                        (sideChallenges d),
                    tokenLedger :=
                      voidSideChallengeTokens c w i (createdByUserId sc) (opponentUserId sc)
                        (stakeTokens sc) False (tokenLedger d)\<rparr>"
  using assms
  by (auto simp: declineRoute_def split: option.splits if_splits dest!: find_sc_normTarget)

lemma voidRoute_shape:
  assumes "voidRoute rt session c w i why d = Inr d'"
  shows "\<exists>sc note. find (\<lambda>x. sc_id x = i) (sideChallenges d) = Some sc
           \<and> isOpenStatus (sc_status sc)
           \<and> d' = d\<lparr>sideChallenges :=
                      sideChallenge_update i
                        (\<lambda>sc. sc\<lparr>sc_status := VOID, resolutionNote := Some note\<rparr>)
                        (sideChallenges d),
                    tokenLedger :=
                      voidSideChallengeTokens c w i (createdByUserId sc) (opponentUserId sc)
                        (stakeTokens sc)
                        (sc_status sc = ACCEPTED \<or> sc_status sc = PENDING_REVIEW)
                        (tokenLedger d)\<rparr>"
proof -
  from assms obtain sc' reason' where
    g: "getSideChallengeById rt d i = Some sc'" and
    st: "sc_status sc' \<noteq> RESOLVED" "sc_status sc' \<noteq> VOID" "sc_status sc' \<noteq> DECLINED" and
    d': "d' = d\<lparr>sideChallenges :=
                      sideChallenge_update i
                        (\<lambda>sc. sc\<lparr>sc_status := VOID,
                                  resolutionNote := Some (''Voided by organizer: '' @ reason')\<rparr>)
                        (sideChallenges d),
                    tokenLedger :=
                      voidSideChallengeTokens c w i (createdByUserId sc') (opponentUserId sc')
                        (stakeTokens sc')
                        (sc_status sc' = ACCEPTED \<or> sc_status sc' = PENDING_REVIEW)
                        (tokenLedger d)\<rparr>"
    by (auto simp: voidRoute_def Let_def split: option.splits if_splits)
  from find_sc_normTarget[OF g] obtain sc where
    sc: "find (\<lambda>x. sc_id x = i) (sideChallenges d) = Some sc"
        "sc' = sc\<lparr>targetValue := normTarget rt (targetValue sc)\<rparr>" by blast
  have "isOpenStatus (sc_status sc)"
    using st sc(2) by (cases "sc_status sc") (auto simp: isOpenStatus_def)
  with sc d' show ?thesis by auto
qed

lemma calculateWinner_winner:
  "calculateWinner rt mt t a b cu ou = Inr r \<Longrightarrow>
     wc_winnerUserId r = None \<or> wc_winnerUserId r = Some cu \<or> wc_winnerUserId r = Some ou"
  by (auto simp: calculateWinner_def Let_def split: if_splits option.splits)

lemma submitRoute_shape:
  assumes "submitRoute rt session c w i v now d = Inr d'"
  shows "\<exists>x u sc. v = JNumber x \<and> 0 \<le> x \<and> session = Some u
           \<and> find (\<lambda>y. sc_id y = i) (sideChallenges d) = Some sc
           \<and> sc_status sc = ACCEPTED
           \<and> (d' = d\<lparr>submissions :=
                        submissions d @ [\<lparr>sub_sideChallengeId = i, sub_userId = u, valueNumber = x\<rparr>]\<rparr>
               \<or> (\<exists>res::WinnerCalculation. (wc_winnerUserId res = None
                           \<or> wc_winnerUserId res = Some (createdByUserId sc)
                           \<or> wc_winnerUserId res = Some (opponentUserId sc))
                    \<and> d' = d\<lparr>submissions :=
                               submissions d @
                                 [\<lparr>sub_sideChallengeId = i, sub_userId = u, valueNumber = x\<rparr>],
                             sideChallenges :=
                               sideChallenge_update i
                                 (\<lambda>sc. sc\<lparr>sc_status := RESOLVED,
                                           winnerUserId := wc_winnerUserId res,
                                           resolvedAt := Some now,
                                           resolutionNote :=
                                             Some (''Auto-resolved: '' @ wc_reason res)\<rparr>)
                                 (sideChallenges d),
                             tokenLedger :=
                               resolveSideChallengeTokens c w i (wc_winnerUserId res)
                                 (createdByUserId sc) (opponentUserId sc) (stakeTokens sc)
                                 (tokenLedger d)\<rparr>))"
proof -
  from assms obtain u where u: "session = Some u"
    by (auto simp: submitRoute_def split: option.splits)
  from assms u obtain x where x: "v = JNumber x" "0 \<le> x"
    by (cases v) (auto simp: submitRoute_def split: if_splits)
  from assms u x obtain sc' where g: "getSideChallengeById rt d i = Some sc'"
    by (auto simp: submitRoute_def split: option.splits)
  from find_sc_normTarget[OF g] obtain sc where
    sc: "find (\<lambda>y. sc_id y = i) (sideChallenges d) = Some sc"
        "sc' = sc\<lparr>targetValue := normTarget rt (targetValue sc)\<rparr>" by blast
  from assms u x g have st: "sc_status sc' = ACCEPTED"
    by (auto simp: submitRoute_def split: if_splits)
  let ?subs = "submissions d @ [\<lparr>sub_sideChallengeId = i, sub_userId = u, valueNumber = x\<rparr>]"
  from assms u x g st have
    "d' = d\<lparr>submissions := ?subs\<rparr>
     \<or> (\<exists>res a b. calculateWinner rt (metricType sc') (targetValue sc') a b
                      (createdByUserId sc') (opponentUserId sc') = Inr res
          \<and> d' = d\<lparr>submissions := ?subs,
                   sideChallenges :=
                     sideChallenge_update i
                       (\<lambda>sc. sc\<lparr>sc_status := RESOLVED, winnerUserId := wc_winnerUserId res,
                                 resolvedAt := Some now,
                                 resolutionNote := Some (''Auto-resolved: '' @ wc_reason res)\<rparr>)
                       (sideChallenges d),
                   tokenLedger :=
                     resolveSideChallengeTokens c w i (wc_winnerUserId res)
                       (createdByUserId sc') (opponentUserId sc') (stakeTokens sc')
                       (tokenLedger d)\<rparr>)"
    by (auto simp: submitRoute_def Let_def split: if_splits option.splits sum.splits)
  then show ?thesis
  proof
    assume "d' = d\<lparr>submissions := ?subs\<rparr>"
    with u x sc st show ?thesis by auto
  next
    assume "\<exists>res a b. calculateWinner rt (metricType sc') (targetValue sc') a b
                      (createdByUserId sc') (opponentUserId sc') = Inr res
          \<and> d' = d\<lparr>submissions := ?subs,
                   sideChallenges :=
                     sideChallenge_update i
                       (\<lambda>sc. sc\<lparr>sc_status := RESOLVED, winnerUserId := wc_winnerUserId res,
                                 resolvedAt := Some now,
                                 resolutionNote := Some (''Auto-resolved: '' @ wc_reason res)\<rparr>)
                       (sideChallenges d),
                   tokenLedger :=
                     resolveSideChallengeTokens c w i (wc_winnerUserId res)
                       (createdByUserId sc') (opponentUserId sc') (stakeTokens sc')
                       (tokenLedger d)\<rparr>"
    then obtain res a b where
      cw: "calculateWinner rt (metricType sc') (targetValue sc') a b
             (createdByUserId sc') (opponentUserId sc') = Inr res" and
      d': "d' = d\<lparr>submissions := ?subs,
                   sideChallenges :=
                     sideChallenge_update i
                       (\<lambda>sc. sc\<lparr>sc_status := RESOLVED, winnerUserId := wc_winnerUserId res,
                                 resolvedAt := Some now,
                                 resolutionNote := Some (''Auto-resolved: '' @ wc_reason res)\<rparr>)
                       (sideChallenges d),
                   tokenLedger :=
                     resolveSideChallengeTokens c w i (wc_winnerUserId res)
                       (createdByUserId sc') (opponentUserId sc') (stakeTokens sc')
                       (tokenLedger d)\<rparr>" by blast
    from calculateWinner_winner[OF cw] sc(2)
    have "wc_winnerUserId res = None \<or> wc_winnerUserId res = Some (createdByUserId sc)
          \<or> wc_winnerUserId res = Some (opponentUserId sc)" by simp
    then have w: "wc_winnerUserId res = None \<or> wc_winnerUserId res = Some (createdByUserId sc)
          \<or> wc_winnerUserId res = Some (opponentUserId sc)" .
    have st': "sc_status sc = ACCEPTED" using st sc(2) by simp
    have d'': "d' = d\<lparr>submissions := ?subs,
                   sideChallenges :=
                     sideChallenge_update i
                       (\<lambda>sc. sc\<lparr>sc_status := RESOLVED, winnerUserId := wc_winnerUserId res,
                                 resolvedAt := Some now,
                                 resolutionNote := Some (''Auto-resolved: '' @ wc_reason res)\<rparr>)
                       (sideChallenges d),
                   tokenLedger :=
                     resolveSideChallengeTokens c w i (wc_winnerUserId res)
                       (createdByUserId sc) (opponentUserId sc) (stakeTokens sc)
                       (tokenLedger d)\<rparr>"
      using d' sc(2) by simp
    show ?thesis
      apply (rule exI[of _ x], rule exI[of _ u], rule exI[of _ sc])
      apply (intro conjI x u sc(1) st')
      apply (rule disjI2, rule exI[of _ res])
      apply (rule conjI[OF w d''])
      done
  qed
qed

section \<open>Submitted values\<close>

lemma cleanupOne_submissions:
  "submissions (fst (cleanupOne rt now c w x st)) = submissions (fst st)"
  by (cases x; cases st)
     (auto simp: cleanupOne_def Let_def split: option.splits sum.splits prod.splits)

lemma fold_cleanupOne_submissions:
  "submissions (fst (fold (cleanupOne rt now c w) xs st)) = submissions (fst st)"
  by (induction xs arbitrary: st) (simp_all add: cleanupOne_submissions)

lemma cleanup_submissions:
  "submissions (fst (cleanupSideChallengesOnWeekLock rt now c w d)) = submissions d"
  by (simp add: cleanupSideChallengesOnWeekLock_def Let_def fold_cleanupOne_submissions)

lemma award_submissions:
  "submissions (fst (awardPerfectWeekTokensSafe d c w)) = submissions d"
  by (auto simp: awardPerfectWeekTokensSafe_def awardPerfectWeekTokens_def Let_def
           split: prod.splits)

lemma recalculate_submissions:
  "recalculateTokensRoute session c w d = Inr (d', res) \<Longrightarrow> submissions d' = submissions d"
  by (auto simp: recalculateTokensRoute_def Let_def split: option.splits if_splits)

lemma step_submissions:
  "submissions (step rt ev d) = submissions d
   \<or> (\<exists>i u x. 0 \<le> x \<and> submissions (step rt ev d) =
         submissions d @ [\<lparr>sub_sideChallengeId = i, sub_userId = u, valueNumber = x\<rparr>])"
proof (cases ev)
  case (Propose session c w body now newId)
  then show ?thesis
    by (cases "proposeRoute rt session c w body now newId d")
       (auto simp: orElse_def dest!: proposeRoute_shape)
next
  case (Accept session c w i now)
  then show ?thesis
    by (cases "acceptRoute rt session c w i now d") (auto simp: orElse_def dest!: acceptRoute_shape)
next
  case (Decline session c w i)
  then show ?thesis
    by (cases "declineRoute rt session c w i d") (auto simp: orElse_def dest!: declineRoute_shape)
next
  case (Submit session c w i v now)
  show ?thesis
  proof (cases "submitRoute rt session c w i v now d")
    case (Inl a)
    with Submit show ?thesis by (simp add: orElse_def)
  next
    case (Inr d')
    from submitRoute_shape[OF Inr] obtain x u where
      "0 \<le> x" "submissions d' =
         submissions d @ [\<lparr>sub_sideChallengeId = i, sub_userId = u, valueNumber = x\<rparr>]"
      by auto
    with Submit Inr show ?thesis by (auto simp: orElse_def)
  qed
next
  case (VoidWager session c w i why)
  then show ?thesis
    by (cases "voidRoute rt session c w i why d") (auto simp: orElse_def dest!: voidRoute_shape)
next
  case (WeekLockCleanup now c w)
  then show ?thesis by (simp add: cleanup_submissions)
next
  case (AwardPerfectWeeks c w)
  then show ?thesis by (simp add: award_submissions)
next
  case (Recalculate session c w)
  then show ?thesis
    by (cases "recalculateTokensRoute session c w d")
       (auto dest: recalculate_submissions)
next
  case (Environment us cs ps ts ws cps)
  then show ?thesis by simp
qed

lemma run_submissions_nonneg:
  "\<forall>s\<in>set (submissions d). 0 \<le> valueNumber s \<Longrightarrow>
   \<forall>s\<in>set (submissions (run rt evs d)). 0 \<le> valueNumber s"
proof (induction evs arbitrary: d)
  case Nil
  then show ?case by (simp add: run_def)
next
  case (Cons ev evs)
  have "\<forall>s\<in>set (submissions (step rt ev d)). 0 \<le> valueNumber s"
    using step_submissions[of rt ev d] Cons.prems by auto
  from Cons.IH[OF this] show ?case by (simp add: run_def)
qed

text \<open>
  C10: the submit handler answers a request whose value is missing (absent or null) with
  the validation error "Value is required", and one whose value is not a number or is a
  negative number with "Value must be a non-negative number", in both cases before any
  read or write of the store. Submissions are stored by this handler only, so in every
  store reached from the empty one by any sequence of requests each stored submission
  has a non-negative value; the winner computation, which reads its two values from
  stored submissions, never receives a negative one.
\<close>

theorem submitRoute_rejects_bad_value:
  "(v = JNull \<or> v = JUndefined \<longrightarrow>
      submitRoute rt (Some u) c w i v now d = Inl (BadRequest ''Value is required''))
 \<and> ((\<exists>t. v = JString t) \<or> (\<exists>b. v = JBool b) \<or> (\<exists>x. v = JNumber x \<and> x < 0) \<longrightarrow>
      submitRoute rt (Some u) c w i v now d
        = Inl (BadRequest ''Value must be a non-negative number''))
 \<and> (\<forall>s\<in>set (submissions (run rt evs emptyDb)). 0 \<le> valueNumber s)"
proof (intro conjI impI)
  assume "v = JNull \<or> v = JUndefined"
  then show "submitRoute rt (Some u) c w i v now d = Inl (BadRequest ''Value is required'')"
    by (auto simp: submitRoute_def)
next
  assume "(\<exists>t. v = JString t) \<or> (\<exists>b. v = JBool b) \<or> (\<exists>x. v = JNumber x \<and> x < 0)"
  then show "submitRoute rt (Some u) c w i v now d
        = Inl (BadRequest ''Value must be a non-negative number'')"
    by (auto simp: submitRoute_def)
next
  show "\<forall>s\<in>set (submissions (run rt evs emptyDb)). 0 \<le> valueNumber s"
    by (rule run_submissions_nonneg) (simp add: emptyDb_def)
qed

lemma exampleTrace_run: "run rt_example exampleTrace emptyDb = exampleFinalDb"
  by (simp add: run_def exampleTrace_def exampleSetup_def emptyDb_def exampleFinalDb_def orElse_def
        awardPerfectWeekTokensSafe_def detectPerfectWeeks_def addCompletion_def
        awardFilterStep_def hasReceivedPerfectWeekToken_def awardPerfectWeekTokens_def
        perfectWeekRow_def tokenLedger_createMany_def tokenLedger_create_def next_id_def
        proposeRoute_def verifyParticipantAccess_def validateWeekForSideChallenge_def
        validateUserCanStake_def getAvailableBalance_def getTokenBalance_def
        aggregate_sum_delta_def addStake_def isOpenStatus_def stakeSideChallengeTokens_def
        ledgerRow_def acceptRoute_def getSideChallengeById_def normTarget_def truthy_number_def
        sideChallenge_update_def submitRoute_def hasUserSubmitted_def calculateWinner_def
        rt_example_def fmt_example_def resolveSideChallengeTokens_def Let_def)

theorem submitRoute_rejects_bad_value_witness:
  "submitRoute rt_example (Some ''alice'') ''c1'' ''w1'' ''s1'' JNull 30 emptyDb
     = Inl (BadRequest ''Value is required'')
   \<and> submitRoute rt_example (Some ''alice'') ''c1'' ''w1'' ''s1'' (JNumber (- 1)) 30 emptyDb
     = Inl (BadRequest ''Value must be a non-negative number'')
   \<and> submissions (run rt_example exampleTrace emptyDb) =
       [\<lparr>sub_sideChallengeId = ''s1'', sub_userId = ''alice'', valueNumber = 3\<rparr>,
        \<lparr>sub_sideChallengeId = ''s1'', sub_userId = ''bob'', valueNumber = 7\<rparr>]
   \<and> 0 \<le> valueNumber \<lparr>sub_sideChallengeId = ''s1'', sub_userId = ''alice'', valueNumber = 3\<rparr>
   \<and> 0 \<le> valueNumber \<lparr>sub_sideChallengeId = ''s1'', sub_userId = ''bob'', valueNumber = 7\<rparr>"
proof -
  have s: "submissions (run rt_example exampleTrace emptyDb) =
       [\<lparr>sub_sideChallengeId = ''s1'', sub_userId = ''alice'', valueNumber = 3\<rparr>,
        \<lparr>sub_sideChallengeId = ''s1'', sub_userId = ''bob'', valueNumber = 7\<rparr>]"
    by (simp add: exampleTrace_run exampleFinalDb_def)
  show ?thesis
    using submitRoute_rejects_bad_value
            [of JNull rt_example "''alice''" "''c1''" "''w1''" "''s1''" 30 emptyDb exampleTrace]
          submitRoute_rejects_bad_value
            [of "JNumber (- 1)" rt_example "''alice''" "''c1''" "''w1''" "''s1''" 30 emptyDb exampleTrace]
    by (simp add: s)
qed

section \<open>The ledger rows of one wager\<close>

lemma entriesOf_Nil [simp]: "entriesOf [] i u = []"
  by (simp add: entriesOf_def)

lemma entriesOf_Cons:
  "entriesOf (e # L) i u =
     (if relatedEntityId e = Some i \<and> tl_userId e = u then [(reason e, delta e)] else [])
     @ entriesOf L i u"
  by (simp add: entriesOf_def)

lemma entriesOf_append: "entriesOf (L @ M) i u = entriesOf L i u @ entriesOf M i u"
  by (simp add: entriesOf_def)

lemma entriesOf_noId: "entriesOf (map noId X) i u = entriesOf X i u"
  by (induction X) (simp_all add: entriesOf_Cons noId_def)

lemma entriesOf_createMany:
  "entriesOf (tokenLedger_createMany rows L) i u = entriesOf L i u @ entriesOf rows i u"
proof -
  obtain new where n: "tokenLedger_createMany rows L = L @ new" "map noId new = map noId rows"
    using createMany_append by blast
  have "entriesOf new i u = entriesOf (map noId new) i u" by (simp add: entriesOf_noId)
  also have "\<dots> = entriesOf rows i u" by (simp add: n(2) entriesOf_noId)
  finally show ?thesis by (simp add: n(1) entriesOf_append)
qed

lemma entriesOf_unrelated:
  "\<forall>r\<in>set rows. relatedEntityId r \<noteq> Some i \<Longrightarrow> entriesOf rows i u = []"
  by (simp add: entriesOf_def)

lemma entriesOf_filter:
  "\<forall>e\<in>set L. \<not> P e \<longrightarrow> relatedEntityId e = None \<Longrightarrow>
   entriesOf (filter P L) i u = entriesOf L i u"
  unfolding entriesOf_def filter_filter
  by (rule arg_cong[where f="map (\<lambda>e. (reason e, delta e))"], rule filter_cong) auto

lemma noId_fields:
  "noId e = noId r \<Longrightarrow> relatedEntityId e = relatedEntityId r \<and> reason e = reason r"
  by (cases e; cases r) (simp add: noId_def)

lemma createMany_mem:
  assumes "e \<in> set (tokenLedger_createMany rows L)"
  shows "e \<in> set L \<or> (\<exists>r\<in>set rows. noId e = noId r)"
proof -
  obtain new where n: "tokenLedger_createMany rows L = L @ new" "map noId new = map noId rows"
    using createMany_append by blast
  show ?thesis
  proof (cases "e \<in> set L")
    case True
    then show ?thesis by simp
  next
    case False
    with assms n(1) have "e \<in> set new" by simp
    then have "noId e \<in> set (map noId new)" by simp
    then have "noId e \<in> set (map noId rows)" by (simp only: n(2))
    then show ?thesis by auto
  qed
qed

lemma createMany_distinct:
  assumes "distinct (map tl_id L)"
  shows "distinct (map tl_id (tokenLedger_createMany rows L))"
proof -
  obtain new where n: "tokenLedger_createMany rows L = L @ new"
      "\<forall>e\<in>set new. \<forall>e'\<in>set L. tl_id e' < tl_id e" "distinct (map tl_id new)"
    using createMany_append by blast
  have "set (map tl_id L) \<inter> set (map tl_id new) = {}"
    using n(2) by fastforce
  with assms n(3) show ?thesis by (simp add: n(1))
qed

lemma createMany_superset: "set L \<subseteq> set (tokenLedger_createMany rows L)"
  using createMany_append[of rows L] by auto

section \<open>Rows of the side-challenge table\<close>

lemma update_ids:
  "(\<And>x. sc_id (f x) = sc_id x) \<Longrightarrow> map sc_id (sideChallenge_update i f scs) = map sc_id scs"
  by (induction scs) (simp_all add: sideChallenge_update_def)

lemma update_mem:
  "x \<in> set (sideChallenge_update i f scs) \<Longrightarrow>
     (x \<in> set scs \<and> sc_id x \<noteq> i) \<or> (\<exists>y\<in>set scs. sc_id y = i \<and> x = f y)"
  by (auto simp: sideChallenge_update_def split: if_splits)

lemma update_keeps:
  "x \<in> set scs \<Longrightarrow> sc_id x \<noteq> i \<Longrightarrow> x \<in> set (sideChallenge_update i f scs)"
  by (auto simp: sideChallenge_update_def)

lemma find_by_id:
  "find (\<lambda>x. sc_id x = i) scs = Some sc \<Longrightarrow> sc \<in> set scs \<and> sc_id sc = i"
  by (auto simp: find_Some_iff)

lemma same_id_same_row:
  assumes "distinct (map sc_id scs)" "x \<in> set scs" "y \<in> set scs" "sc_id x = sc_id y"
  shows "x = y"
  using assms by (meson distinct_map inj_onD)

lemma find_of_mem:
  assumes "distinct (map sc_id scs)" "x \<in> set scs"
  shows "find (\<lambda>y. sc_id y = sc_id x) scs = Some x"
proof -
  have "find (\<lambda>y. sc_id y = sc_id x) scs \<noteq> None"
    using assms(2) by (auto simp: find_None_iff)
  then obtain z where z: "find (\<lambda>y. sc_id y = sc_id x) scs = Some z" by auto
  from find_by_id[OF z] assms have "z = x" by (auto intro: same_id_same_row)
  with z show ?thesis by simp
qed

section \<open>The invariant of the store\<close>

lemma storeOk_settle:
  assumes ok: "storeOk d"
    and fnd: "find (\<lambda>x. sc_id x = i) (sideChallenges d) = Some sc"
    and rows: "\<forall>r\<in>set rows. relatedEntityId r = Some i \<and> reason r \<noteq> PERFECT_WEEK_EARNED"
    and fid: "\<And>x. sc_id (f x) = sc_id x"
    and new: "wagerLedgerOk sc (entriesOf (tokenLedger d) i) \<Longrightarrow>
              wagerLedgerOk (f sc) (\<lambda>u. entriesOf (tokenLedger d) i u @ entriesOf rows i u)"
    and scs': "sideChallenges d' = sideChallenge_update i f (sideChallenges d)"
    and L': "tokenLedger d' = tokenLedger_createMany rows (tokenLedger d)"
  shows "storeOk d'"
proof -
  from find_by_id[OF fnd] have sc: "sc \<in> set (sideChallenges d)" "sc_id sc = i" by auto
  from ok have dist: "distinct (map sc_id (sideChallenges d))"
    and distL: "distinct (map tl_id (tokenLedger d))"
    and rel: "\<forall>e\<in>set (tokenLedger d).
            case relatedEntityId e of
              None \<Rightarrow> True
            | Some i \<Rightarrow> i \<in> set (map sc_id (sideChallenges d)) \<and> reason e \<noteq> PERFECT_WEEK_EARNED"
    and each: "\<forall>sc\<in>set (sideChallenges d). wagerLedgerOk sc (entriesOf (tokenLedger d) (sc_id sc))"
    by (auto simp: storeOk_def)
  have ids: "map sc_id (sideChallenges d') = map sc_id (sideChallenges d)"
    unfolding scs' by (rule update_ids[OF fid])
  have 1: "distinct (map sc_id (sideChallenges d'))" using dist ids by simp
  have 2: "distinct (map tl_id (tokenLedger d'))"
    unfolding L' by (rule createMany_distinct[OF distL])
  have 3: "\<forall>e\<in>set (tokenLedger d').
            case relatedEntityId e of
              None \<Rightarrow> True
            | Some i \<Rightarrow> i \<in> set (map sc_id (sideChallenges d')) \<and> reason e \<noteq> PERFECT_WEEK_EARNED"
  proof
    fix e assume "e \<in> set (tokenLedger d')"
    then have "e \<in> set (tokenLedger d) \<or> (\<exists>r\<in>set rows. noId e = noId r)"
      unfolding L' by (rule createMany_mem)
    then show "case relatedEntityId e of
              None \<Rightarrow> True
            | Some i \<Rightarrow> i \<in> set (map sc_id (sideChallenges d')) \<and> reason e \<noteq> PERFECT_WEEK_EARNED"
    proof
      assume "e \<in> set (tokenLedger d)"
      with rel show ?thesis unfolding ids by blast
    next
      assume "\<exists>r\<in>set rows. noId e = noId r"
      then obtain r where r: "r \<in> set rows" "noId e = noId r" by blast
      from noId_fields[OF r(2)] rows r(1)
      have "relatedEntityId e = Some i" "reason e \<noteq> PERFECT_WEEK_EARNED" by auto
      moreover have "i \<in> set (map sc_id (sideChallenges d'))"
        unfolding ids using sc by auto
      ultimately show ?thesis by simp
    qed
  qed
  have 4: "\<forall>x\<in>set (sideChallenges d'). wagerLedgerOk x (entriesOf (tokenLedger d') (sc_id x))"
  proof
    fix x assume "x \<in> set (sideChallenges d')"
    then have "(x \<in> set (sideChallenges d) \<and> sc_id x \<noteq> i)
               \<or> (\<exists>y\<in>set (sideChallenges d). sc_id y = i \<and> x = f y)"
      unfolding scs' by (rule update_mem)
    then show "wagerLedgerOk x (entriesOf (tokenLedger d') (sc_id x))"
    proof
      assume x: "x \<in> set (sideChallenges d) \<and> sc_id x \<noteq> i"
      have "entriesOf (tokenLedger d') (sc_id x) = entriesOf (tokenLedger d) (sc_id x)"
      proof
        fix u
        have "entriesOf rows (sc_id x) u = []"
          by (rule entriesOf_unrelated) (use rows x in auto)
        then show "entriesOf (tokenLedger d') (sc_id x) u = entriesOf (tokenLedger d) (sc_id x) u"
          unfolding L' by (simp add: entriesOf_createMany)
      qed
      with each x show ?thesis by simp
    next
      assume "\<exists>y\<in>set (sideChallenges d). sc_id y = i \<and> x = f y"
      then obtain y where y: "y \<in> set (sideChallenges d)" "sc_id y = i" "x = f y" by blast
      have "y = sc" using same_id_same_row[OF dist y(1) sc(1)] y(2) sc(2) by simp
      with y have x: "x = f sc" by simp
      have "entriesOf (tokenLedger d') i
              = (\<lambda>u. entriesOf (tokenLedger d) i u @ entriesOf rows i u)"
        unfolding L' by (rule ext) (rule entriesOf_createMany)
      moreover have "wagerLedgerOk sc (entriesOf (tokenLedger d) i)"
        using each sc by auto
      ultimately show ?thesis using new x fid[of sc] sc(2) by simp
    qed
  qed
  from 1 2 3 4 show ?thesis unfolding storeOk_def by blast
qed

lemma stake_as_many:
  "stakeSideChallengeTokens c w i u a L = tokenLedger_createMany [stakeRow c w i u a] L"
  by (simp add: stakeSideChallengeTokens_def tokenLedger_createMany_def stakeRow_def)

lemma void_as_many:
  "voidSideChallengeTokens c w i cu ou S acc L
     = tokenLedger_createMany (voidRefunds c w i cu ou S acc) L"
  by (simp add: voidSideChallengeTokens_def voidRefunds_def Let_def)

lemma resolve_as_many:
  "resolveSideChallengeTokens c w i win cu ou S L
     = tokenLedger_createMany (settlementRows c w i win cu ou S) L"
  by (cases win)
     (simp_all add: resolveSideChallengeTokens_def settlementRows_def tokenLedger_createMany_def)

lemma stakeRow_related:
  "\<forall>r\<in>set [stakeRow c w i u a]. relatedEntityId r = Some i \<and> reason r \<noteq> PERFECT_WEEK_EARNED"
  by (simp add: stakeRow_def ledgerRow_def)

lemma voidRefunds_related:
  "\<forall>r\<in>set (voidRefunds c w i cu ou S acc).
      relatedEntityId r = Some i \<and> reason r \<noteq> PERFECT_WEEK_EARNED"
  by (simp add: voidRefunds_def ledgerRow_def)

lemma settlementRows_related:
  "\<forall>r\<in>set (settlementRows c w i win cu ou S).
      relatedEntityId r = Some i \<and> reason r \<noteq> PERFECT_WEEK_EARNED"
  by (cases win) (simp_all add: settlementRows_def ledgerRow_def)

lemma entriesOf_stakeRow:
  "entriesOf [stakeRow c w i u a] i v = (if u = v then [(SIDE_CHALLENGE_STAKE, - a)] else [])"
  by (simp add: entriesOf_Cons stakeRow_def ledgerRow_def)

lemma entriesOf_voidRefunds:
  "entriesOf (voidRefunds c w i cu ou S acc) i v =
     (if cu = v then [(SIDE_CHALLENGE_VOID_REFUND, S)] else [])
     @ (if acc \<and> ou = v then [(SIDE_CHALLENGE_VOID_REFUND, S)] else [])"
  by (simp add: entriesOf_Cons voidRefunds_def ledgerRow_def)

lemma entriesOf_settlementRows:
  "entriesOf (settlementRows c w i win cu ou S) i v =
     (case win of
        None \<Rightarrow> (if cu = v then [(SIDE_CHALLENGE_TIE_REFUND, S)] else [])
                @ (if ou = v then [(SIDE_CHALLENGE_TIE_REFUND, S)] else [])
      | Some x \<Rightarrow> (if x = v then [(SIDE_CHALLENGE_WIN, S * 2)] else []))"
  by (cases win) (simp_all add: entriesOf_Cons settlementRows_def ledgerRow_def)

lemma ok_accept:
  assumes "wagerLedgerOk sc E" "sc_status sc = PROPOSED"
  shows "wagerLedgerOk (sc\<lparr>sc_status := ACCEPTED, acceptedAt := Some now\<rparr>)
           (\<lambda>u. E u @ entriesOf [stakeRow c w (sc_id sc) (opponentUserId sc) (stakeTokens sc)]
                         (sc_id sc) u)"
  using assms by (auto simp: wagerLedgerOk_def Let_def entriesOf_stakeRow)

lemma ok_decline:
  assumes "wagerLedgerOk sc E" "sc_status sc = PROPOSED"
  shows "wagerLedgerOk (sc\<lparr>sc_status := DECLINED, resolutionNote := n\<rparr>)
           (\<lambda>u. E u @ entriesOf (voidRefunds c w (sc_id sc) (createdByUserId sc)
                                   (opponentUserId sc) (stakeTokens sc) False) (sc_id sc) u)"
  using assms by (auto simp: wagerLedgerOk_def Let_def entriesOf_voidRefunds)

lemma ok_void:
  assumes "wagerLedgerOk sc E" "isOpenStatus (sc_status sc)"
  shows "wagerLedgerOk (sc\<lparr>sc_status := VOID, resolutionNote := n\<rparr>)
           (\<lambda>u. E u @ entriesOf (voidRefunds c w (sc_id sc) (createdByUserId sc)
                                   (opponentUserId sc) (stakeTokens sc)
                                   (sc_status sc = ACCEPTED \<or> sc_status sc = PENDING_REVIEW))
                         (sc_id sc) u)"
  using assms
  by (cases "sc_status sc")
     (auto simp: wagerLedgerOk_def Let_def entriesOf_voidRefunds isOpenStatus_def)

lemma ok_resolve:
  assumes "wagerLedgerOk sc E" "sc_status sc = ACCEPTED \<or> sc_status sc = PENDING_REVIEW"
    and "win = None \<or> win = Some (createdByUserId sc) \<or> win = Some (opponentUserId sc)"
  shows "wagerLedgerOk (sc\<lparr>sc_status := RESOLVED, winnerUserId := win, resolvedAt := t,
                             resolutionNote := n\<rparr>)
           (\<lambda>u. E u @ entriesOf (settlementRows c w (sc_id sc) win (createdByUserId sc)
                                   (opponentUserId sc) (stakeTokens sc)) (sc_id sc) u)"
  using assms
  by (auto simp: wagerLedgerOk_def Let_def entriesOf_settlementRows)

lemma storeOk_accept:
  assumes ok: "storeOk d" and r: "acceptRoute rt session c w i now d = Inr d'"
  shows "storeOk d'"
proof -
  from acceptRoute_shape[OF r] obtain sc where
    fnd: "find (\<lambda>x. sc_id x = i) (sideChallenges d) = Some sc" and st: "sc_status sc = PROPOSED"
    and d': "d' = d\<lparr>sideChallenges :=
                      sideChallenge_update i
                        (\<lambda>sc. sc\<lparr>sc_status := ACCEPTED, acceptedAt := Some now\<rparr>) (sideChallenges d),
                    tokenLedger :=
                      stakeSideChallengeTokens c w i (opponentUserId sc) (stakeTokens sc)
                        (tokenLedger d)\<rparr>"
    by blast
  from find_by_id[OF fnd] have i: "sc_id sc = i" by simp
  show ?thesis
  proof (rule storeOk_settle[OF ok fnd stakeRow_related])
    show "sideChallenges d' = sideChallenge_update i
            (\<lambda>sc. sc\<lparr>sc_status := ACCEPTED, acceptedAt := Some now\<rparr>) (sideChallenges d)"
      by (simp add: d')
    show "tokenLedger d' = tokenLedger_createMany
            [stakeRow c w i (opponentUserId sc) (stakeTokens sc)] (tokenLedger d)"
      by (simp add: d' stake_as_many)
    show "wagerLedgerOk (sc\<lparr>sc_status := ACCEPTED, acceptedAt := Some now\<rparr>)
            (\<lambda>u. entriesOf (tokenLedger d) i u
                  @ entriesOf [stakeRow c w i (opponentUserId sc) (stakeTokens sc)] i u)"
      if "wagerLedgerOk sc (entriesOf (tokenLedger d) i)"
      using ok_accept[OF that st, where now = now and c = c and w = w] i by simp
  qed simp
qed

lemma storeOk_decline:
  assumes ok: "storeOk d" and r: "declineRoute rt session c w i d = Inr d'"
  shows "storeOk d'"
proof -
  from declineRoute_shape[OF r] obtain sc where
    fnd: "find (\<lambda>x. sc_id x = i) (sideChallenges d) = Some sc" and st: "sc_status sc = PROPOSED"
    and d': "d' = d\<lparr>sideChallenges :=
                      sideChallenge_update i
                        (\<lambda>sc. sc\<lparr>sc_status := DECLINED,
                                  resolutionNote := Some ''Declined by opponent''\<rparr>)
                        (sideChallenges d),
                    tokenLedger :=
                      voidSideChallengeTokens c w i (createdByUserId sc) (opponentUserId sc)
                        (stakeTokens sc) False (tokenLedger d)\<rparr>"
    by blast
  from find_by_id[OF fnd] have i: "sc_id sc = i" by simp
  show ?thesis
  proof (rule storeOk_settle[OF ok fnd voidRefunds_related])
    show "sideChallenges d' = sideChallenge_update i
            (\<lambda>sc. sc\<lparr>sc_status := DECLINED, resolutionNote := Some ''Declined by opponent''\<rparr>)
            (sideChallenges d)"
      by (simp add: d')
    show "tokenLedger d' = tokenLedger_createMany
            (voidRefunds c w i (createdByUserId sc) (opponentUserId sc) (stakeTokens sc) False)
            (tokenLedger d)"
      by (simp add: d' void_as_many)
    show "wagerLedgerOk (sc\<lparr>sc_status := DECLINED, resolutionNote := Some ''Declined by opponent''\<rparr>)
            (\<lambda>u. entriesOf (tokenLedger d) i u
                  @ entriesOf (voidRefunds c w i (createdByUserId sc) (opponentUserId sc)
                                 (stakeTokens sc) False) i u)"
      if "wagerLedgerOk sc (entriesOf (tokenLedger d) i)"
      using ok_decline[OF that st, where n = "Some ''Declined by opponent''" and c = c and w = w] i
        by simp
  qed simp
qed

lemma storeOk_void:
  assumes ok: "storeOk d" and r: "voidRoute rt session c w i why d = Inr d'"
  shows "storeOk d'"
proof -
  from voidRoute_shape[OF r] obtain sc nt where
    fnd: "find (\<lambda>x. sc_id x = i) (sideChallenges d) = Some sc"
    and st: "isOpenStatus (sc_status sc)"
    and d': "d' = d\<lparr>sideChallenges :=
                      sideChallenge_update i
                        (\<lambda>sc. sc\<lparr>sc_status := VOID, resolutionNote := Some nt\<rparr>)
                        (sideChallenges d),
                    tokenLedger :=
                      voidSideChallengeTokens c w i (createdByUserId sc) (opponentUserId sc)
                        (stakeTokens sc)
                        (sc_status sc = ACCEPTED \<or> sc_status sc = PENDING_REVIEW)
                        (tokenLedger d)\<rparr>"
    by blast
  from find_by_id[OF fnd] have i: "sc_id sc = i" by simp
  show ?thesis
  proof (rule storeOk_settle[OF ok fnd voidRefunds_related])
    show "sideChallenges d' = sideChallenge_update i
            (\<lambda>sc. sc\<lparr>sc_status := VOID, resolutionNote := Some nt\<rparr>) (sideChallenges d)"
      by (simp add: d')
    show "tokenLedger d' = tokenLedger_createMany
            (voidRefunds c w i (createdByUserId sc) (opponentUserId sc) (stakeTokens sc)
               (sc_status sc = ACCEPTED \<or> sc_status sc = PENDING_REVIEW))
            (tokenLedger d)"
      by (simp add: d' void_as_many)
    show "wagerLedgerOk (sc\<lparr>sc_status := VOID, resolutionNote := Some nt\<rparr>)
            (\<lambda>u. entriesOf (tokenLedger d) i u
                  @ entriesOf (voidRefunds c w i (createdByUserId sc) (opponentUserId sc)
                                 (stakeTokens sc)
                                 (sc_status sc = ACCEPTED \<or> sc_status sc = PENDING_REVIEW)) i u)"
      if "wagerLedgerOk sc (entriesOf (tokenLedger d) i)"
      using ok_void[OF that st, where n = "Some nt" and c = c and w = w] i by simp
  qed simp
qed

lemma storeOk_tables:
  "sideChallenges d' = sideChallenges d \<Longrightarrow> tokenLedger d' = tokenLedger d \<Longrightarrow>
   storeOk d' = storeOk d"
  by (simp add: storeOk_def cong: option.case_cong)

lemma storeOk_submit:
  assumes ok: "storeOk d" and r: "submitRoute rt session c w i v now d = Inr d'"
  shows "storeOk d'"
proof -
  from submitRoute_shape[OF r] obtain x u sc where
    fnd: "find (\<lambda>y. sc_id y = i) (sideChallenges d) = Some sc"
    and st: "sc_status sc = ACCEPTED"
    and alt: "d' = d\<lparr>submissions :=
                        submissions d @ [\<lparr>sub_sideChallengeId = i, sub_userId = u, valueNumber = x\<rparr>]\<rparr>
               \<or> (\<exists>res::WinnerCalculation. (wc_winnerUserId res = None
                           \<or> wc_winnerUserId res = Some (createdByUserId sc)
                           \<or> wc_winnerUserId res = Some (opponentUserId sc))
                    \<and> d' = d\<lparr>submissions :=
                               submissions d @
                                 [\<lparr>sub_sideChallengeId = i, sub_userId = u, valueNumber = x\<rparr>],
                             sideChallenges :=
                               sideChallenge_update i
                                 (\<lambda>sc. sc\<lparr>sc_status := RESOLVED,
                                           winnerUserId := wc_winnerUserId res,
                                           resolvedAt := Some now,
                                           resolutionNote :=
                                             Some (''Auto-resolved: '' @ wc_reason res)\<rparr>)
                                 (sideChallenges d),
                             tokenLedger :=
                               resolveSideChallengeTokens c w i (wc_winnerUserId res)
                                 (createdByUserId sc) (opponentUserId sc) (stakeTokens sc)
                                 (tokenLedger d)\<rparr>)"
    by blast
  from find_by_id[OF fnd] have i: "sc_id sc = i" by simp
  from alt show ?thesis
  proof
    assume "d' = d\<lparr>submissions :=
                        submissions d @ [\<lparr>sub_sideChallengeId = i, sub_userId = u, valueNumber = x\<rparr>]\<rparr>"
    then have "storeOk d' = storeOk d" by (intro storeOk_tables) simp_all
    with ok show ?thesis by simp
  next
    assume "\<exists>res::WinnerCalculation. (wc_winnerUserId res = None
                           \<or> wc_winnerUserId res = Some (createdByUserId sc)
                           \<or> wc_winnerUserId res = Some (opponentUserId sc))
                    \<and> d' = d\<lparr>submissions :=
                               submissions d @
                                 [\<lparr>sub_sideChallengeId = i, sub_userId = u, valueNumber = x\<rparr>],
                             sideChallenges :=
                               sideChallenge_update i
                                 (\<lambda>sc. sc\<lparr>sc_status := RESOLVED,
                                           winnerUserId := wc_winnerUserId res,
                                           resolvedAt := Some now,
                                           resolutionNote :=
                                             Some (''Auto-resolved: '' @ wc_reason res)\<rparr>)
                                 (sideChallenges d),
                             tokenLedger :=
                               resolveSideChallengeTokens c w i (wc_winnerUserId res)
                                 (createdByUserId sc) (opponentUserId sc) (stakeTokens sc)
                                 (tokenLedger d)\<rparr>"
    then obtain res :: WinnerCalculation where
      win: "wc_winnerUserId res = None
            \<or> wc_winnerUserId res = Some (createdByUserId sc)
            \<or> wc_winnerUserId res = Some (opponentUserId sc)"
      and d': "d' = d\<lparr>submissions :=
                               submissions d @
                                 [\<lparr>sub_sideChallengeId = i, sub_userId = u, valueNumber = x\<rparr>],
                             sideChallenges :=
                               sideChallenge_update i
                                 (\<lambda>sc. sc\<lparr>sc_status := RESOLVED,
                                           winnerUserId := wc_winnerUserId res,
                                           resolvedAt := Some now,
                                           resolutionNote :=
                                             Some (''Auto-resolved: '' @ wc_reason res)\<rparr>)
                                 (sideChallenges d),
                             tokenLedger :=
                               resolveSideChallengeTokens c w i (wc_winnerUserId res)
                                 (createdByUserId sc) (opponentUserId sc) (stakeTokens sc)
                                 (tokenLedger d)\<rparr>"
      by blast
    show ?thesis
    proof (rule storeOk_settle[OF ok fnd settlementRows_related])
      show "sideChallenges d' = sideChallenge_update i
              (\<lambda>sc. sc\<lparr>sc_status := RESOLVED, winnerUserId := wc_winnerUserId res,
                        resolvedAt := Some now,
                        resolutionNote := Some (''Auto-resolved: '' @ wc_reason res)\<rparr>)
              (sideChallenges d)"
        by (simp add: d')
      show "tokenLedger d' = tokenLedger_createMany
              (settlementRows c w i (wc_winnerUserId res) (createdByUserId sc)
                 (opponentUserId sc) (stakeTokens sc))
              (tokenLedger d)"
        by (simp add: d' resolve_as_many)
      show "wagerLedgerOk (sc\<lparr>sc_status := RESOLVED, winnerUserId := wc_winnerUserId res,
                        resolvedAt := Some now,
                        resolutionNote := Some (''Auto-resolved: '' @ wc_reason res)\<rparr>)
              (\<lambda>u. entriesOf (tokenLedger d) i u
                    @ entriesOf (settlementRows c w i (wc_winnerUserId res) (createdByUserId sc)
                                   (opponentUserId sc) (stakeTokens sc)) i u)"
        if "wagerLedgerOk sc (entriesOf (tokenLedger d) i)"
        using ok_resolve[OF that _ win, where t = "Some now"
                and n = "Some (''Auto-resolved: '' @ wc_reason res)" and c = c and w = w] st i
        by simp
    qed simp
  qed
qed

lemma storeOk_propose:
  assumes ok: "storeOk d" and r: "proposeRoute rt session c w body now newId d = Inr d'"
  shows "storeOk d'"
proof -
  from proposeRoute_shape[OF r] obtain u t where
    ne: "u \<noteq> b_opponentUserId body" and fresh: "newId \<notin> set (map sc_id (sideChallenges d))"
    and d': "d' = d\<lparr>sideChallenges :=
                      sideChallenges d @
                        [\<lparr>sc_id = newId, sc_challengeId = c, sc_weekId = w,
                          createdByUserId = u, opponentUserId = b_opponentUserId body,
                          sc_status = PROPOSED, metricType = b_metricType body,
                          targetValue = b_targetValue body, stakeTokens = b_stakeTokens body,
                          expiresAt = t, acceptedAt = None, resolvedAt = None,
                          winnerUserId = None, resolutionNote = None\<rparr>],
                    tokenLedger :=
                      stakeSideChallengeTokens c w newId u (b_stakeTokens body) (tokenLedger d)\<rparr>"
    by blast
  let ?new = "\<lparr>sc_id = newId, sc_challengeId = c, sc_weekId = w,
                createdByUserId = u, opponentUserId = b_opponentUserId body,
                sc_status = PROPOSED, metricType = b_metricType body,
                targetValue = b_targetValue body, stakeTokens = b_stakeTokens body,
                expiresAt = t, acceptedAt = None, resolvedAt = None,
                winnerUserId = None, resolutionNote = None\<rparr>"
  let ?row = "stakeRow c w newId u (b_stakeTokens body)"
  have scs': "sideChallenges d' = sideChallenges d @ [?new]" by (simp add: d')
  have L': "tokenLedger d' = tokenLedger_createMany [?row] (tokenLedger d)"
    by (simp add: d' stake_as_many)
  from ok have dist: "distinct (map sc_id (sideChallenges d))"
    and distL: "distinct (map tl_id (tokenLedger d))"
    and rel: "\<forall>e\<in>set (tokenLedger d).
            case relatedEntityId e of
              None \<Rightarrow> True
            | Some i \<Rightarrow> i \<in> set (map sc_id (sideChallenges d)) \<and> reason e \<noteq> PERFECT_WEEK_EARNED"
    and each: "\<forall>sc\<in>set (sideChallenges d). wagerLedgerOk sc (entriesOf (tokenLedger d) (sc_id sc))"
    by (auto simp: storeOk_def)
  have 1: "distinct (map sc_id (sideChallenges d'))"
    using dist fresh by (simp add: scs')
  have 2: "distinct (map tl_id (tokenLedger d'))"
    unfolding L' by (rule createMany_distinct[OF distL])
  have 3: "\<forall>e\<in>set (tokenLedger d').
            case relatedEntityId e of
              None \<Rightarrow> True
            | Some i \<Rightarrow> i \<in> set (map sc_id (sideChallenges d')) \<and> reason e \<noteq> PERFECT_WEEK_EARNED"
  proof
    fix e assume "e \<in> set (tokenLedger d')"
    then have "e \<in> set (tokenLedger d) \<or> (\<exists>r\<in>set [?row]. noId e = noId r)"
      unfolding L' by (rule createMany_mem)
    then show "case relatedEntityId e of
              None \<Rightarrow> True
            | Some i \<Rightarrow> i \<in> set (map sc_id (sideChallenges d')) \<and> reason e \<noteq> PERFECT_WEEK_EARNED"
    proof
      assume "e \<in> set (tokenLedger d)"
      with rel have "case relatedEntityId e of
              None \<Rightarrow> True
            | Some i \<Rightarrow> i \<in> set (map sc_id (sideChallenges d)) \<and> reason e \<noteq> PERFECT_WEEK_EARNED"
        by blast
      then show ?thesis by (cases "relatedEntityId e") (simp_all add: scs')
    next
      assume "\<exists>r\<in>set [?row]. noId e = noId r"
      then have "noId e = noId ?row" by simp
      from noId_fields[OF this]
      have "relatedEntityId e = Some newId" "reason e \<noteq> PERFECT_WEEK_EARNED"
        by (simp_all add: stakeRow_def ledgerRow_def)
      then show ?thesis by (simp add: scs')
    qed
  qed
  have none: "entriesOf (tokenLedger d) newId v = []" for v
  proof (rule entriesOf_unrelated, rule ballI)
    fix e assume e: "e \<in> set (tokenLedger d)"
    show "relatedEntityId e \<noteq> Some newId"
    proof
      assume "relatedEntityId e = Some newId"
      with rel e have "newId \<in> set (map sc_id (sideChallenges d))" by fastforce
      with fresh show False by simp
    qed
  qed
  have 4: "\<forall>x\<in>set (sideChallenges d'). wagerLedgerOk x (entriesOf (tokenLedger d') (sc_id x))"
  proof
    fix x assume "x \<in> set (sideChallenges d')"
    then have "x \<in> set (sideChallenges d) \<or> x = ?new" by (auto simp: scs')
    then show "wagerLedgerOk x (entriesOf (tokenLedger d') (sc_id x))"
    proof
      assume x: "x \<in> set (sideChallenges d)"
      then have "sc_id x \<noteq> newId" using fresh by auto
      then have "entriesOf (tokenLedger d') (sc_id x) = entriesOf (tokenLedger d) (sc_id x)"
        unfolding L'
        by (intro ext) (simp add: entriesOf_createMany entriesOf_Cons stakeRow_def ledgerRow_def)
      with each x show ?thesis by simp
    next
      assume x: "x = ?new"
      have "entriesOf (tokenLedger d') newId
              = (\<lambda>v. if u = v then [(SIDE_CHALLENGE_STAKE, - b_stakeTokens body)] else [])"
        unfolding L' by (intro ext) (simp add: entriesOf_createMany none entriesOf_stakeRow)
      then show ?thesis using ne by (simp add: x wagerLedgerOk_def Let_def)
    qed
  qed
  from 1 2 3 4 show ?thesis unfolding storeOk_def by blast
qed

lemma storeOk_unrelated_rows:
  assumes ok: "storeOk d"
    and rows: "\<forall>r\<in>set rows. relatedEntityId r = None"
    and scs': "sideChallenges d' = sideChallenges d"
    and L': "tokenLedger d' = tokenLedger_createMany rows (tokenLedger d)"
  shows "storeOk d'"
proof -
  from ok have dist: "distinct (map sc_id (sideChallenges d))"
    and distL: "distinct (map tl_id (tokenLedger d))"
    and rel: "\<forall>e\<in>set (tokenLedger d).
            case relatedEntityId e of
              None \<Rightarrow> True
            | Some i \<Rightarrow> i \<in> set (map sc_id (sideChallenges d)) \<and> reason e \<noteq> PERFECT_WEEK_EARNED"
    and each: "\<forall>sc\<in>set (sideChallenges d). wagerLedgerOk sc (entriesOf (tokenLedger d) (sc_id sc))"
    by (auto simp: storeOk_def)
  have 2: "distinct (map tl_id (tokenLedger d'))"
    unfolding L' by (rule createMany_distinct[OF distL])
  have 3: "\<forall>e\<in>set (tokenLedger d').
            case relatedEntityId e of
              None \<Rightarrow> True
            | Some i \<Rightarrow> i \<in> set (map sc_id (sideChallenges d')) \<and> reason e \<noteq> PERFECT_WEEK_EARNED"
  proof
    fix e assume "e \<in> set (tokenLedger d')"
    then have "e \<in> set (tokenLedger d) \<or> (\<exists>r\<in>set rows. noId e = noId r)"
      unfolding L' by (rule createMany_mem)
    then show "case relatedEntityId e of
              None \<Rightarrow> True
            | Some i \<Rightarrow> i \<in> set (map sc_id (sideChallenges d')) \<and> reason e \<noteq> PERFECT_WEEK_EARNED"
    proof
      assume "e \<in> set (tokenLedger d)"
      with rel show ?thesis unfolding scs' by blast
    next
      assume "\<exists>r\<in>set rows. noId e = noId r"
      then obtain r where r: "r \<in> set rows" "noId e = noId r" by blast
      from noId_fields[OF r(2)] rows r(1) have "relatedEntityId e = None" by simp
      then show ?thesis by simp
    qed
  qed
  have "entriesOf (tokenLedger d') i = entriesOf (tokenLedger d) i" for i
    unfolding L'
    by (intro ext) (simp add: entriesOf_createMany entriesOf_unrelated rows)
  with each have 4: "\<forall>x\<in>set (sideChallenges d'). wagerLedgerOk x (entriesOf (tokenLedger d') (sc_id x))"
    by (simp add: scs')
  from dist 2 3 4 show ?thesis unfolding storeOk_def scs' by blast
qed

lemma storeOk_delete:
  assumes ok: "storeOk d"
    and gone: "\<forall>e\<in>set (tokenLedger d). \<not> P e \<longrightarrow> relatedEntityId e = None"
    and scs': "sideChallenges d' = sideChallenges d"
    and L': "tokenLedger d' = filter P (tokenLedger d)"
  shows "storeOk d'"
proof -
  from ok have dist: "distinct (map sc_id (sideChallenges d))"
    and distL: "distinct (map tl_id (tokenLedger d))"
    and rel: "\<forall>e\<in>set (tokenLedger d).
            case relatedEntityId e of
              None \<Rightarrow> True
            | Some i \<Rightarrow> i \<in> set (map sc_id (sideChallenges d)) \<and> reason e \<noteq> PERFECT_WEEK_EARNED"
    and each: "\<forall>sc\<in>set (sideChallenges d). wagerLedgerOk sc (entriesOf (tokenLedger d) (sc_id sc))"
    by (auto simp: storeOk_def)
  have 2: "distinct (map tl_id (tokenLedger d'))"
    unfolding L' using distL by (rule distinct_map_filter)
  have 3: "\<forall>e\<in>set (tokenLedger d').
            case relatedEntityId e of
              None \<Rightarrow> True
            | Some i \<Rightarrow> i \<in> set (map sc_id (sideChallenges d')) \<and> reason e \<noteq> PERFECT_WEEK_EARNED"
    using rel unfolding L' scs' by auto
  have "entriesOf (tokenLedger d') i = entriesOf (tokenLedger d) i" for i
    unfolding L' by (intro ext) (rule entriesOf_filter[OF gone])
  with each have 4: "\<forall>x\<in>set (sideChallenges d'). wagerLedgerOk x (entriesOf (tokenLedger d') (sc_id x))"
    by (simp add: scs')
  from dist 2 3 4 show ?thesis unfolding storeOk_def scs' by blast
qed

lemma createMany_Nil [simp]: "tokenLedger_createMany [] L = L"
  by (simp add: tokenLedger_createMany_def)

lemma perfectWeekRow_unrelated:
  "\<forall>r\<in>set (map (perfectWeekRow c w) us). relatedEntityId r = None"
  by (simp add: perfectWeekRow_def)

lemma storeOk_award:
  assumes ok: "storeOk d"
  shows "storeOk (fst (awardPerfectWeekTokensSafe d c w))"
proof -
  obtain us where
    "sideChallenges (fst (awardPerfectWeekTokensSafe d c w)) = sideChallenges d"
    "tokenLedger (fst (awardPerfectWeekTokensSafe d c w))
       = tokenLedger_createMany (map (perfectWeekRow c w) us) (tokenLedger d)"
  proof (cases "fst (awardPerfectWeekTokensSafe d c w) = d")
    case True
    then show ?thesis using that[of "[]"] by simp
  next
    case False
    then show ?thesis
      using that
      by (auto simp: awardPerfectWeekTokensSafe_def awardPerfectWeekTokens_def Let_def
               split: prod.splits if_splits)
  qed
  then show ?thesis
    using storeOk_unrelated_rows[OF ok perfectWeekRow_unrelated] by blast
qed

lemma storeOk_recalculate:
  assumes ok: "storeOk d" and r: "recalculateTokensRoute session c w d = Inr (d', res)"
  shows "storeOk d'"
proof -
  obtain us R where
    scs': "sideChallenges d' = sideChallenges d"
    and R: "set R \<subseteq> set (tokenLedger d)" "\<forall>e\<in>set R. reason e = PERFECT_WEEK_EARNED"
    and L': "tokenLedger d' =
              (if length R > 0
               then tokenLedger_deleteMany (map tl_id R)
                      (tokenLedger_createMany (map (perfectWeekRow c w) us) (tokenLedger d))
               else tokenLedger_createMany (map (perfectWeekRow c w) us) (tokenLedger d))"
  proof -
    let ?Q = "newSet (detectPerfectWeeks d c w)"
    let ?ex = "filter (\<lambda>e. tl_challengeId e = c \<and> tl_weekId e = Some w
                          \<and> reason e = PERFECT_WEEK_EARNED) (tokenLedger d)"
    let ?toAward = "filter (\<lambda>i. i \<notin> set (newSet (map tl_userId ?ex))) ?Q"
    let ?toRevoke = "filter (\<lambda>e. tl_userId e \<notin> set ?Q) ?ex"
    from r have d': "d' = d\<lparr>tokenLedger :=
        (if length ?toRevoke > 0
         then tokenLedger_deleteMany (map tl_id ?toRevoke)
                (if length ?toAward > 0
                 then tokenLedger_createMany (map (perfectWeekRow c w) ?toAward) (tokenLedger d)
                 else tokenLedger d)
         else (if length ?toAward > 0
               then tokenLedger_createMany (map (perfectWeekRow c w) ?toAward) (tokenLedger d)
               else tokenLedger d))\<rparr>"
      by (auto simp: recalculateTokensRoute_def Let_def split: option.splits if_splits)
    have aw: "(if length ?toAward > 0
               then tokenLedger_createMany (map (perfectWeekRow c w) ?toAward) (tokenLedger d)
               else tokenLedger d)
              = tokenLedger_createMany (map (perfectWeekRow c w) ?toAward) (tokenLedger d)"
      by (cases "?toAward") simp_all
    show ?thesis
    proof (rule that[of ?toRevoke ?toAward])
      show "sideChallenges d' = sideChallenges d" by (simp add: d')
      show "set ?toRevoke \<subseteq> set (tokenLedger d)" by auto
      show "\<forall>e\<in>set ?toRevoke. reason e = PERFECT_WEEK_EARNED" by simp
      show "tokenLedger d' =
              (if length ?toRevoke > 0
               then tokenLedger_deleteMany (map tl_id ?toRevoke)
                      (tokenLedger_createMany (map (perfectWeekRow c w) ?toAward) (tokenLedger d))
               else tokenLedger_createMany (map (perfectWeekRow c w) ?toAward) (tokenLedger d))"
        unfolding d' aw by simp
    qed
  qed
  let ?L1 = "tokenLedger_createMany (map (perfectWeekRow c w) us) (tokenLedger d)"
  let ?d1 = "d\<lparr>tokenLedger := ?L1\<rparr>"
  have ok1: "storeOk ?d1"
    by (rule storeOk_unrelated_rows[OF ok perfectWeekRow_unrelated]) simp_all
  have L2: "tokenLedger d' = filter (\<lambda>e. tl_id e \<notin> set (map tl_id R)) (tokenLedger ?d1)"
    unfolding L' deleteMany_if by simp
  have gone: "\<forall>e\<in>set (tokenLedger ?d1).
                \<not> tl_id e \<notin> set (map tl_id R) \<longrightarrow> relatedEntityId e = None"
  proof (intro ballI impI)
    fix e assume e: "e \<in> set (tokenLedger ?d1)" and "\<not> tl_id e \<notin> set (map tl_id R)"
    then obtain x where x: "x \<in> set R" "tl_id x = tl_id e" by auto
    have xin: "x \<in> set ?L1" using x(1) R(1) createMany_superset by blast
    have "distinct (map tl_id ?L1)" using ok1 by (simp add: storeOk_def)
    then have "inj_on tl_id (set ?L1)" by (simp add: distinct_map)
    with xin e x(2) have "x = e" by (auto dest: inj_onD)
    with x(1) R(2) have pw: "reason e = PERFECT_WEEK_EARNED" by simp
    from ok1 e have "case relatedEntityId e of
              None \<Rightarrow> True
            | Some i \<Rightarrow> i \<in> set (map sc_id (sideChallenges ?d1)) \<and> reason e \<noteq> PERFECT_WEEK_EARNED"
      unfolding storeOk_def by blast
    with pw show "relatedEntityId e = None" by (cases "relatedEntityId e") simp_all
  qed
  show ?thesis
    by (rule storeOk_delete[OF ok1 gone _ L2]) (simp add: scs')
qed

section \<open>Week-lock cleanup, one wager at a time\<close>

lemma cleanupOne_cases:
  "cleanupOne rt now c w (ch, subs) (d, r, v) = (d, r, v)
   \<or> (\<exists>res::WinnerCalculation.
        sc_status ch = PENDING_REVIEW
        \<and> (wc_winnerUserId res = None \<or> wc_winnerUserId res = Some (createdByUserId ch)
            \<or> wc_winnerUserId res = Some (opponentUserId ch))
        \<and> cleanupOne rt now c w (ch, subs) (d, r, v) =
            (d\<lparr>sideChallenges :=
                 sideChallenge_update (sc_id ch)
                   (\<lambda>sc. sc\<lparr>sc_status := RESOLVED, winnerUserId := wc_winnerUserId res,
                             resolvedAt := Some now,
                             resolutionNote :=
                               Some (''Auto-resolved on week lock: '' @ wc_reason res)\<rparr>)
                   (sideChallenges d),
               tokenLedger :=
                 resolveSideChallengeTokens c w (sc_id ch) (wc_winnerUserId res)
                   (createdByUserId ch) (opponentUserId ch) (stakeTokens ch) (tokenLedger d)\<rparr>,
             r + 1, v))
   \<or> cleanupOne rt now c w (ch, subs) (d, r, v) =
        (d\<lparr>sideChallenges :=
             sideChallenge_update (sc_id ch)
               (\<lambda>sc. sc\<lparr>sc_status := VOID,
                         resolutionNote :=
                           Some ''Voided due to week lock with incomplete submissions''\<rparr>)
               (sideChallenges d),
           tokenLedger :=
             voidSideChallengeTokens c w (sc_id ch) (createdByUserId ch) (opponentUserId ch)
               (stakeTokens ch) (sc_status ch = ACCEPTED \<or> sc_status ch = PENDING_REVIEW)
               (tokenLedger d)\<rparr>,
         r, v + 1)"
proof (cases "sc_status ch = PENDING_REVIEW \<and> length subs = 2")
  case False
  then have "cleanupOne rt now c w (ch, subs) (d, r, v) =
        (d\<lparr>sideChallenges :=
             sideChallenge_update (sc_id ch)
               (\<lambda>sc. sc\<lparr>sc_status := VOID,
                         resolutionNote :=
                           Some ''Voided due to week lock with incomplete submissions''\<rparr>)
               (sideChallenges d),
           tokenLedger :=
             voidSideChallengeTokens c w (sc_id ch) (createdByUserId ch) (opponentUserId ch)
               (stakeTokens ch) (sc_status ch = ACCEPTED \<or> sc_status ch = PENDING_REVIEW)
               (tokenLedger d)\<rparr>,
         r, v + 1)"
    by (auto simp: cleanupOne_def Let_def)
  then show ?thesis by blast
next
  case True
  show ?thesis
  proof (cases "find (\<lambda>s. sub_userId s = createdByUserId ch) subs")
    case None
    with True show ?thesis by (simp add: cleanupOne_def)
  next
    case (Some cs)
    note cs = this
    show ?thesis
    proof (cases "find (\<lambda>s. sub_userId s = opponentUserId ch) subs")
      case None
      with True cs show ?thesis by (simp add: cleanupOne_def)
    next
      case (Some os)
      note os = this
      show ?thesis
      proof (cases "calculateWinner rt (metricType ch) (normTarget rt (targetValue ch))
                      (valueNumber cs) (valueNumber os) (createdByUserId ch) (opponentUserId ch)")
        case (Inl err)
        with True cs os show ?thesis by (simp add: cleanupOne_def)
      next
        case (Inr res)
        from calculateWinner_winner[OF Inr]
        have win: "wc_winnerUserId res = None \<or> wc_winnerUserId res = Some (createdByUserId ch)
            \<or> wc_winnerUserId res = Some (opponentUserId ch)" .
        have "cleanupOne rt now c w (ch, subs) (d, r, v) =
            (d\<lparr>sideChallenges :=
                 sideChallenge_update (sc_id ch)
                   (\<lambda>sc. sc\<lparr>sc_status := RESOLVED, winnerUserId := wc_winnerUserId res,
                             resolvedAt := Some now,
                             resolutionNote :=
                               Some (''Auto-resolved on week lock: '' @ wc_reason res)\<rparr>)
                   (sideChallenges d),
               tokenLedger :=
                 resolveSideChallengeTokens c w (sc_id ch) (wc_winnerUserId res)
                   (createdByUserId ch) (opponentUserId ch) (stakeTokens ch) (tokenLedger d)\<rparr>,
             r + 1, v)"
          using True cs os Inr by (simp add: cleanupOne_def)
        with True win show ?thesis by blast
      qed
    qed
  qed
qed

lemma storeOk_cleanupOne:
  assumes ok: "storeOk d" and mem: "ch \<in> set (sideChallenges d)"
    and st: "isOpenStatus (sc_status ch)"
  shows "storeOk (fst (cleanupOne rt now c w (ch, subs) (d, r, v)))"
proof -
  from ok have dist: "distinct (map sc_id (sideChallenges d))" by (simp add: storeOk_def)
  have fnd: "find (\<lambda>x. sc_id x = sc_id ch) (sideChallenges d) = Some ch"
    by (rule find_of_mem[OF dist mem])
  from cleanupOne_cases[of rt now c w ch subs d r v] consider
    (same) "cleanupOne rt now c w (ch, subs) (d, r, v) = (d, r, v)"
  | (resolved) res :: WinnerCalculation where
      "sc_status ch = PENDING_REVIEW"
      "wc_winnerUserId res = None \<or> wc_winnerUserId res = Some (createdByUserId ch)
            \<or> wc_winnerUserId res = Some (opponentUserId ch)"
      "cleanupOne rt now c w (ch, subs) (d, r, v) =
            (d\<lparr>sideChallenges :=
                 sideChallenge_update (sc_id ch)
                   (\<lambda>sc. sc\<lparr>sc_status := RESOLVED, winnerUserId := wc_winnerUserId res,
                             resolvedAt := Some now,
                             resolutionNote :=
                               Some (''Auto-resolved on week lock: '' @ wc_reason res)\<rparr>)
                   (sideChallenges d),
               tokenLedger :=
                 resolveSideChallengeTokens c w (sc_id ch) (wc_winnerUserId res)
                   (createdByUserId ch) (opponentUserId ch) (stakeTokens ch) (tokenLedger d)\<rparr>,
             r + 1, v)"
  | (voided) "cleanupOne rt now c w (ch, subs) (d, r, v) =
        (d\<lparr>sideChallenges :=
             sideChallenge_update (sc_id ch)
               (\<lambda>sc. sc\<lparr>sc_status := VOID,
                         resolutionNote :=
                           Some ''Voided due to week lock with incomplete submissions''\<rparr>)
               (sideChallenges d),
           tokenLedger :=
             voidSideChallengeTokens c w (sc_id ch) (createdByUserId ch) (opponentUserId ch)
               (stakeTokens ch) (sc_status ch = ACCEPTED \<or> sc_status ch = PENDING_REVIEW)
               (tokenLedger d)\<rparr>,
         r, v + 1)"
    by blast
  then show ?thesis
  proof cases
    case same
    with ok show ?thesis by simp
  next
    case resolved
    note pr = resolved(1)
    note win = resolved(2)
    note eq = resolved(3)
    show ?thesis
    proof (rule storeOk_settle[OF ok fnd settlementRows_related])
      show "sideChallenges (fst (cleanupOne rt now c w (ch, subs) (d, r, v))) =
              sideChallenge_update (sc_id ch)
                (\<lambda>sc. sc\<lparr>sc_status := RESOLVED, winnerUserId := wc_winnerUserId res,
                          resolvedAt := Some now,
                          resolutionNote :=
                            Some (''Auto-resolved on week lock: '' @ wc_reason res)\<rparr>)
                (sideChallenges d)"
        by (simp add: eq)
      show "tokenLedger (fst (cleanupOne rt now c w (ch, subs) (d, r, v))) =
              tokenLedger_createMany
                (settlementRows c w (sc_id ch) (wc_winnerUserId res) (createdByUserId ch)
                   (opponentUserId ch) (stakeTokens ch))
                (tokenLedger d)"
        by (simp add: eq resolve_as_many)
      show "wagerLedgerOk
              (ch\<lparr>sc_status := RESOLVED, winnerUserId := wc_winnerUserId res,
                  resolvedAt := Some now,
                  resolutionNote := Some (''Auto-resolved on week lock: '' @ wc_reason res)\<rparr>)
              (\<lambda>u. entriesOf (tokenLedger d) (sc_id ch) u
                    @ entriesOf (settlementRows c w (sc_id ch) (wc_winnerUserId res)
                                   (createdByUserId ch) (opponentUserId ch) (stakeTokens ch))
                        (sc_id ch) u)"
        if "wagerLedgerOk ch (entriesOf (tokenLedger d) (sc_id ch))"
        using ok_resolve[OF that _ win, where t = "Some now"
                and n = "Some (''Auto-resolved on week lock: '' @ wc_reason res)"
                and c = c and w = w] pr
        by simp
    qed simp
  next
    case voided
    note eq = voided
    show ?thesis
    proof (rule storeOk_settle[OF ok fnd voidRefunds_related])
      show "sideChallenges (fst (cleanupOne rt now c w (ch, subs) (d, r, v))) =
              sideChallenge_update (sc_id ch)
                (\<lambda>sc. sc\<lparr>sc_status := VOID,
                          resolutionNote :=
                            Some ''Voided due to week lock with incomplete submissions''\<rparr>)
                (sideChallenges d)"
        by (simp add: eq)
      show "tokenLedger (fst (cleanupOne rt now c w (ch, subs) (d, r, v))) =
              tokenLedger_createMany
                (voidRefunds c w (sc_id ch) (createdByUserId ch) (opponentUserId ch)
                   (stakeTokens ch) (sc_status ch = ACCEPTED \<or> sc_status ch = PENDING_REVIEW))
                (tokenLedger d)"
        by (simp add: eq void_as_many)
      show "wagerLedgerOk
              (ch\<lparr>sc_status := VOID,
                  resolutionNote := Some ''Voided due to week lock with incomplete submissions''\<rparr>)
              (\<lambda>u. entriesOf (tokenLedger d) (sc_id ch) u
                    @ entriesOf (voidRefunds c w (sc_id ch) (createdByUserId ch)
                                   (opponentUserId ch) (stakeTokens ch)
                                   (sc_status ch = ACCEPTED \<or> sc_status ch = PENDING_REVIEW))
                        (sc_id ch) u)"
        if "wagerLedgerOk ch (entriesOf (tokenLedger d) (sc_id ch))"
        using ok_void[OF that st,
                where n = "Some ''Voided due to week lock with incomplete submissions''"
                and c = c and w = w]
        by simp
    qed simp
  qed
qed

lemma cleanupOne_keeps:
  assumes "x \<in> set (sideChallenges d)" "sc_id x \<noteq> sc_id ch"
  shows "x \<in> set (sideChallenges (fst (cleanupOne rt now c w (ch, subs) (d, r, v))))"
proof -
  have k: "x \<in> set (sideChallenge_update (sc_id ch) f (sideChallenges d))" for f
    by (rule update_keeps[OF assms])
  from cleanupOne_cases[of rt now c w ch subs d r v] show ?thesis
    by (elim disjE exE conjE) (simp_all add: assms(1) k)
qed

lemma storeOk_fold_cleanupOne:
  assumes "storeOk d"
    and "\<forall>x\<in>set xs. fst x \<in> set (sideChallenges d) \<and> isOpenStatus (sc_status (fst x))"
    and "distinct (map (\<lambda>x. sc_id (fst x)) xs)"
  shows "storeOk (fst (fold (cleanupOne rt now c w) xs (d, r, v)))"
  using assms
proof (induction xs arbitrary: d r v)
  case Nil
  then show ?case by simp
next
  case (Cons x xs)
  obtain ch subs where x: "x = (ch, subs)" by (cases x)
  obtain d1 r1 v1 where s1: "cleanupOne rt now c w (ch, subs) (d, r, v) = (d1, r1, v1)"
    by (cases "cleanupOne rt now c w (ch, subs) (d, r, v)")
  have ch: "ch \<in> set (sideChallenges d)" "isOpenStatus (sc_status ch)"
    using Cons.prems(2) x by auto
  have ok1: "storeOk d1"
    using storeOk_cleanupOne[OF Cons.prems(1) ch, of rt now c w subs r v] s1 by simp
  have rest: "\<forall>y\<in>set xs. fst y \<in> set (sideChallenges d1) \<and> isOpenStatus (sc_status (fst y))"
  proof
    fix y assume y: "y \<in> set xs"
    then have "fst y \<in> set (sideChallenges d)" "isOpenStatus (sc_status (fst y))"
      using Cons.prems(2) by auto
    moreover have "sc_id (fst y) \<noteq> sc_id ch"
      using Cons.prems(3) y x by (force simp: image_iff)
    ultimately show "fst y \<in> set (sideChallenges d1) \<and> isOpenStatus (sc_status (fst y))"
      using cleanupOne_keeps[of "fst y" d ch rt now c w subs r v] s1 by simp
  qed
  have "distinct (map (\<lambda>x. sc_id (fst x)) xs)" using Cons.prems(3) by simp
  from Cons.IH[OF ok1 rest this] show ?case by (simp add: x s1)
qed

lemma storeOk_cleanup:
  assumes ok: "storeOk d"
  shows "storeOk (fst (cleanupSideChallengesOnWeekLock rt now c w d))"
proof -
  let ?found = "filter (\<lambda>sc. sc_challengeId sc = c \<and> sc_weekId sc = w
                              \<and> isOpenStatus (sc_status sc)) (sideChallenges d)"
  let ?withSubs = "map (\<lambda>sc. (sc, filter (\<lambda>s. sub_sideChallengeId s = sc_id sc) (submissions d)))
                     ?found"
  from ok have dist: "distinct (map sc_id (sideChallenges d))" by (simp add: storeOk_def)
  have a: "\<forall>x\<in>set ?withSubs. fst x \<in> set (sideChallenges d) \<and> isOpenStatus (sc_status (fst x))"
    by auto
  have m: "map (\<lambda>x. sc_id (fst x)) ?withSubs = map sc_id ?found" by (simp add: comp_def)
  have b: "distinct (map (\<lambda>x. sc_id (fst x)) ?withSubs)"
    unfolding m by (rule distinct_map_filter[OF dist])
  show ?thesis
    unfolding cleanupSideChallengesOnWeekLock_def Let_def
    by (rule storeOk_fold_cleanupOne[OF ok a b])
qed

section \<open>Every request keeps the invariant\<close>

lemma storeOk_step: "storeOk d \<Longrightarrow> storeOk (step rt ev d)"
proof (cases ev)
  case (Propose session c w body now newId)
  assume "storeOk d"
  with Propose show ?thesis
    by (cases "proposeRoute rt session c w body now newId d")
       (auto simp: orElse_def intro: storeOk_propose)
next
  case (Accept session c w i now)
  assume "storeOk d"
  with Accept show ?thesis
    by (cases "acceptRoute rt session c w i now d") (auto simp: orElse_def intro: storeOk_accept)
next
  case (Decline session c w i)
  assume "storeOk d"
  with Decline show ?thesis
    by (cases "declineRoute rt session c w i d") (auto simp: orElse_def intro: storeOk_decline)
next
  case (Submit session c w i v now)
  assume "storeOk d"
  with Submit show ?thesis
    by (cases "submitRoute rt session c w i v now d")
       (auto simp: orElse_def intro: storeOk_submit)
next
  case (VoidWager session c w i why)
  assume "storeOk d"
  with VoidWager show ?thesis
    by (cases "voidRoute rt session c w i why d") (auto simp: orElse_def intro: storeOk_void)
next
  case (WeekLockCleanup now c w)
  assume "storeOk d"
  with WeekLockCleanup show ?thesis by (simp add: storeOk_cleanup)
next
  case (AwardPerfectWeeks c w)
  assume "storeOk d"
  with AwardPerfectWeeks show ?thesis by (simp add: storeOk_award)
next
  case (Recalculate session c w)
  assume "storeOk d"
  with Recalculate show ?thesis
    by (cases "recalculateTokensRoute session c w d")
       (auto intro: storeOk_recalculate)
next
  case (Environment us cs ps ts ws cps)
  assume "storeOk d"
  with Environment show ?thesis by (simp add: storeOk_def cong: option.case_cong)
qed

lemma storeOk_run: "storeOk d \<Longrightarrow> storeOk (run rt evs d)"
  unfolding run_def by (induction evs arbitrary: d) (simp_all add: storeOk_step)

lemma storeOk_emptyDb: "storeOk emptyDb"
  by (simp add: storeOk_def emptyDb_def)

section \<open>Token conservation\<close>

lemma run_append: "run rt (xs @ ys) d = run rt ys (run rt xs d)"
  by (simp add: run_def)

lemma exampleSetup_run: "run rt_example exampleSetup emptyDb = exampleProposedDb"
  by (simp add: run_def exampleSetup_def emptyDb_def exampleProposedDb_def exampleFinalDb_def
        exampleWager_def orElse_def
        awardPerfectWeekTokensSafe_def detectPerfectWeeks_def addCompletion_def
        awardFilterStep_def hasReceivedPerfectWeekToken_def awardPerfectWeekTokens_def
        perfectWeekRow_def tokenLedger_createMany_def tokenLedger_create_def next_id_def
        proposeRoute_def verifyParticipantAccess_def validateWeekForSideChallenge_def
        validateUserCanStake_def getAvailableBalance_def getTokenBalance_def
        aggregate_sum_delta_def addStake_def isOpenStatus_def stakeSideChallengeTokens_def
        ledgerRow_def Let_def)

lemma exampleTrace_wager:
  "sideChallenges (run rt_example exampleTrace emptyDb) =
     [exampleWager\<lparr>sc_status := RESOLVED, acceptedAt := Some 20, resolvedAt := Some 40,
        winnerUserId := Some ''bob'',
        resolutionNote := Some ''Auto-resolved: Higher value wins: 7 > 3''\<rparr>]"
  by (simp add: exampleTrace_run exampleFinalDb_def exampleWager_def)

lemma tieTrace_wager:
  "sideChallenges (run rt_example tieTrace emptyDb) =
     [exampleWager\<lparr>sc_status := RESOLVED, acceptedAt := Some 20, resolvedAt := Some 40,
        winnerUserId := None,
        resolutionNote := Some ''Auto-resolved: Tie: Both achieved 3''\<rparr>]"
  unfolding tieTrace_def run_append exampleSetup_run
  by (simp add: run_def exampleProposedDb_def exampleFinalDb_def exampleWager_def orElse_def
        tokenLedger_createMany_def tokenLedger_create_def next_id_def
        validateUserCanStake_def getAvailableBalance_def getTokenBalance_def
        aggregate_sum_delta_def addStake_def isOpenStatus_def stakeSideChallengeTokens_def
        ledgerRow_def acceptRoute_def getSideChallengeById_def normTarget_def truthy_number_def
        sideChallenge_update_def submitRoute_def hasUserSubmitted_def calculateWinner_def
        rt_example_def fmt_example_def resolveSideChallengeTokens_def Let_def)

lemma declineTrace_wager:
  "sideChallenges (run rt_example declineTrace emptyDb) =
     [exampleWager\<lparr>sc_status := DECLINED, resolutionNote := Some ''Declined by opponent''\<rparr>]"
  unfolding declineTrace_def run_append exampleSetup_run
  by (simp add: run_def exampleProposedDb_def exampleFinalDb_def exampleWager_def orElse_def
        declineRoute_def getSideChallengeById_def normTarget_def truthy_number_def
        sideChallenge_update_def Let_def)

lemma lockTrace_wager:
  "sideChallenges (run rt_example lockTrace emptyDb) =
     [exampleWager\<lparr>sc_status := VOID,
        resolutionNote := Some ''Voided due to week lock with incomplete submissions''\<rparr>]"
  unfolding lockTrace_def run_append exampleSetup_run
  by (simp add: run_def exampleProposedDb_def exampleFinalDb_def exampleWager_def
        cleanupSideChallengesOnWeekLock_def cleanupOne_def isOpenStatus_def
        sideChallenge_update_def Let_def)

lemma voidTrace_wager:
  "sideChallenges (run rt_example voidTrace emptyDb) =
     [exampleWager\<lparr>sc_status := VOID, acceptedAt := Some 20,
        resolutionNote := Some ''Voided by organizer: rained out''\<rparr>]"
  unfolding voidTrace_def run_append exampleSetup_run
  by (simp add: run_def exampleProposedDb_def exampleFinalDb_def exampleWager_def orElse_def
        tokenLedger_createMany_def tokenLedger_create_def next_id_def
        validateUserCanStake_def getAvailableBalance_def getTokenBalance_def
        aggregate_sum_delta_def addStake_def isOpenStatus_def stakeSideChallengeTokens_def
        ledgerRow_def acceptRoute_def getSideChallengeById_def normTarget_def truthy_number_def
        sideChallenge_update_def voidRoute_def isBlank_def verifyOrganizer_def Let_def)

text \<open>
  C1: in every store reached from the empty one by any sequence of requests (the five
  side-challenge handlers, week-lock cleanup, perfect-week award and recalculation, and
  arbitrary changes of the other tables), the ledger rows that carry a wager's id are, per
  party and with S the wager's stake: after a decisive resolution, the winner (who is the
  creator or the opponent) has the stake debit -S and one win credit of 2S, net +S, and
  the loser has the stake debit only, net -S; after a tie each party has the debit -S and
  one tie refund +S, net 0; after a decline, or a void before acceptance, the creator has
  the debit and one void refund, net 0, and the opponent has no row at all; after a void
  that follows acceptance each party has the debit and one void refund, net 0.
\<close>

theorem side_challenge_token_conservation:
  assumes d: "d = run rt evs emptyDb" and sc: "sc \<in> set (sideChallenges d)"
  shows
   "createdByUserId sc \<noteq> opponentUserId sc
    \<and> (sc_status sc = RESOLVED \<longrightarrow>
         (case winnerUserId sc of
            Some x \<Rightarrow>
              (x = createdByUserId sc \<or> x = opponentUserId sc)
              \<and> entriesOf (tokenLedger d) (sc_id sc) x =
                  [(SIDE_CHALLENGE_STAKE, - stakeTokens sc), (SIDE_CHALLENGE_WIN, 2 * stakeTokens sc)]
              \<and> netOf (tokenLedger d) (sc_id sc) x = stakeTokens sc
              \<and> (x = createdByUserId sc \<longrightarrow>
                    entriesOf (tokenLedger d) (sc_id sc) (opponentUserId sc) =
                      [(SIDE_CHALLENGE_STAKE, - stakeTokens sc)]
                    \<and> netOf (tokenLedger d) (sc_id sc) (opponentUserId sc) = - stakeTokens sc)
              \<and> (x = opponentUserId sc \<longrightarrow>
                    entriesOf (tokenLedger d) (sc_id sc) (createdByUserId sc) =
                      [(SIDE_CHALLENGE_STAKE, - stakeTokens sc)]
                    \<and> netOf (tokenLedger d) (sc_id sc) (createdByUserId sc) = - stakeTokens sc)
          | None \<Rightarrow>
              entriesOf (tokenLedger d) (sc_id sc) (createdByUserId sc) =
                [(SIDE_CHALLENGE_STAKE, - stakeTokens sc),
                 (SIDE_CHALLENGE_TIE_REFUND, stakeTokens sc)]
              \<and> entriesOf (tokenLedger d) (sc_id sc) (opponentUserId sc) =
                [(SIDE_CHALLENGE_STAKE, - stakeTokens sc),
                 (SIDE_CHALLENGE_TIE_REFUND, stakeTokens sc)]
              \<and> netOf (tokenLedger d) (sc_id sc) (createdByUserId sc) = 0
              \<and> netOf (tokenLedger d) (sc_id sc) (opponentUserId sc) = 0))
    \<and> (sc_status sc = DECLINED \<or> (sc_status sc = VOID \<and> acceptedAt sc = None) \<longrightarrow>
          entriesOf (tokenLedger d) (sc_id sc) (createdByUserId sc) =
            [(SIDE_CHALLENGE_STAKE, - stakeTokens sc),
             (SIDE_CHALLENGE_VOID_REFUND, stakeTokens sc)]
          \<and> netOf (tokenLedger d) (sc_id sc) (createdByUserId sc) = 0
          \<and> entriesOf (tokenLedger d) (sc_id sc) (opponentUserId sc) = []
          \<and> netOf (tokenLedger d) (sc_id sc) (opponentUserId sc) = 0)
    \<and> (sc_status sc = VOID \<and> acceptedAt sc \<noteq> None \<longrightarrow>
          entriesOf (tokenLedger d) (sc_id sc) (createdByUserId sc) =
            [(SIDE_CHALLENGE_STAKE, - stakeTokens sc),
             (SIDE_CHALLENGE_VOID_REFUND, stakeTokens sc)]
          \<and> entriesOf (tokenLedger d) (sc_id sc) (opponentUserId sc) =
            [(SIDE_CHALLENGE_STAKE, - stakeTokens sc),
             (SIDE_CHALLENGE_VOID_REFUND, stakeTokens sc)]
          \<and> netOf (tokenLedger d) (sc_id sc) (createdByUserId sc) = 0
          \<and> netOf (tokenLedger d) (sc_id sc) (opponentUserId sc) = 0)"
proof -
  have "storeOk d" unfolding d by (rule storeOk_run[OF storeOk_emptyDb])
  with sc have ok: "wagerLedgerOk sc (entriesOf (tokenLedger d) (sc_id sc))"
    by (simp add: storeOk_def)
  show ?thesis
  proof (cases "sc_status sc")
    case RESOLVED
    with ok show ?thesis
      by (cases "winnerUserId sc") (auto simp: wagerLedgerOk_def Let_def netOf_def)
  next
    case VOID
    with ok show ?thesis
      by (cases "acceptedAt sc") (auto simp: wagerLedgerOk_def Let_def netOf_def)
  qed (use ok in \<open>auto simp: wagerLedgerOk_def Let_def netOf_def\<close>)
qed

theorem side_challenge_token_conservation_witness:
  "netOf (tokenLedger (run rt_example exampleTrace emptyDb)) ''s1'' ''bob'' = 1
   \<and> netOf (tokenLedger (run rt_example exampleTrace emptyDb)) ''s1'' ''alice'' = - 1
   \<and> netOf (tokenLedger (run rt_example tieTrace emptyDb)) ''s1'' ''alice'' = 0
   \<and> netOf (tokenLedger (run rt_example tieTrace emptyDb)) ''s1'' ''bob'' = 0
   \<and> netOf (tokenLedger (run rt_example declineTrace emptyDb)) ''s1'' ''alice'' = 0
   \<and> entriesOf (tokenLedger (run rt_example declineTrace emptyDb)) ''s1'' ''bob'' = []
   \<and> netOf (tokenLedger (run rt_example lockTrace emptyDb)) ''s1'' ''alice'' = 0
   \<and> entriesOf (tokenLedger (run rt_example lockTrace emptyDb)) ''s1'' ''bob'' = []
   \<and> netOf (tokenLedger (run rt_example voidTrace emptyDb)) ''s1'' ''alice'' = 0
   \<and> netOf (tokenLedger (run rt_example voidTrace emptyDb)) ''s1'' ''bob'' = 0"
proof -
  have decisive:
    "netOf (tokenLedger (run rt_example exampleTrace emptyDb)) ''s1'' ''bob'' = 1
     \<and> netOf (tokenLedger (run rt_example exampleTrace emptyDb)) ''s1'' ''alice'' = - 1"
    using side_challenge_token_conservation
            [OF refl, where rt = rt_example and evs = exampleTrace
               and sc = "exampleWager\<lparr>sc_status := RESOLVED, acceptedAt := Some 20,
                  resolvedAt := Some 40, winnerUserId := Some ''bob'',
                  resolutionNote := Some ''Auto-resolved: Higher value wins: 7 > 3''\<rparr>"]
    by (simp add: exampleTrace_wager exampleWager_def)
  have tied:
    "netOf (tokenLedger (run rt_example tieTrace emptyDb)) ''s1'' ''alice'' = 0
     \<and> netOf (tokenLedger (run rt_example tieTrace emptyDb)) ''s1'' ''bob'' = 0"
    using side_challenge_token_conservation
            [OF refl, where rt = rt_example and evs = tieTrace
               and sc = "exampleWager\<lparr>sc_status := RESOLVED, acceptedAt := Some 20,
                  resolvedAt := Some 40, winnerUserId := None,
                  resolutionNote := Some ''Auto-resolved: Tie: Both achieved 3''\<rparr>"]
    by (simp add: tieTrace_wager exampleWager_def)
  have declined:
    "netOf (tokenLedger (run rt_example declineTrace emptyDb)) ''s1'' ''alice'' = 0
     \<and> entriesOf (tokenLedger (run rt_example declineTrace emptyDb)) ''s1'' ''bob'' = []"
    using side_challenge_token_conservation
            [OF refl, where rt = rt_example and evs = declineTrace
               and sc = "exampleWager\<lparr>sc_status := DECLINED,
                  resolutionNote := Some ''Declined by opponent''\<rparr>"]
    by (simp add: declineTrace_wager exampleWager_def)
  have locked:
    "netOf (tokenLedger (run rt_example lockTrace emptyDb)) ''s1'' ''alice'' = 0
     \<and> entriesOf (tokenLedger (run rt_example lockTrace emptyDb)) ''s1'' ''bob'' = []"
    using side_challenge_token_conservation
            [OF refl, where rt = rt_example and evs = lockTrace
               and sc = "exampleWager\<lparr>sc_status := VOID,
                  resolutionNote :=
                    Some ''Voided due to week lock with incomplete submissions''\<rparr>"]
    by (simp add: lockTrace_wager exampleWager_def)
  have voided:
    "netOf (tokenLedger (run rt_example voidTrace emptyDb)) ''s1'' ''alice'' = 0
     \<and> netOf (tokenLedger (run rt_example voidTrace emptyDb)) ''s1'' ''bob'' = 0"
    using side_challenge_token_conservation
            [OF refl, where rt = rt_example and evs = voidTrace
               and sc = "exampleWager\<lparr>sc_status := VOID, acceptedAt := Some 20,
                  resolutionNote := Some ''Voided by organizer: rained out''\<rparr>"]
    by (simp add: voidTrace_wager exampleWager_def)
  from decisive tied declined locked voided show ?thesis by blast
qed

section \<open>Week-lock cleanup\<close>

text \<open>
  C2 at a store where the code and the claim part ways: the wager s1 of alice and bob is
  ACCEPTED and both have submitted, alice 3 and bob 7, on a wager of the higher value.
  The claim, and the comments of the function ("Auto-resolve challenges with both
  submissions", "Void incomplete challenges"), call for the settlement of the winner
  computation, which gives the wager to bob. The cleanup tests for the status
  PENDING_REVIEW instead, and voids the wager: it counts it as voided, refunds both
  stakes and notes incomplete submissions.
\<close>

theorem cleanup_voids_accepted_with_both_submissions:
  "sideChallenges acceptedBothDb = [exampleWager\<lparr>sc_status := ACCEPTED, acceptedAt := Some 20\<rparr>]
   \<and> submissions acceptedBothDb
      = [\<lparr>sub_sideChallengeId = ''s1'', sub_userId = ''alice'', valueNumber = 3\<rparr>,
         \<lparr>sub_sideChallengeId = ''s1'', sub_userId = ''bob'', valueNumber = 7\<rparr>]
   \<and> calculateWinner rt_example ''HIGHER_WINS'' None 3 7 ''alice'' ''bob''
      = Inr \<lparr>winnerId = opponent, wc_reason = ''Higher value wins: 7 > 3'',
             wc_winnerUserId = Some ''bob''\<rparr>
   \<and> cleanupSideChallengesOnWeekLock rt_example 50 ''c1'' ''w1'' acceptedBothDb
      = (acceptedBothDb\<lparr>
           sideChallenges :=
             [exampleWager\<lparr>sc_status := VOID, acceptedAt := Some 20,
                resolutionNote :=
                  Some ''Voided due to week lock with incomplete submissions''\<rparr>],
           tokenLedger :=
             tokenLedger acceptedBothDb @
             [\<lparr>tl_id = 5, tl_challengeId = ''c1'', tl_userId = ''alice'',
               tl_weekId = Some ''w1'', delta = 1,
               reason = SIDE_CHALLENGE_VOID_REFUND, relatedEntityId = Some ''s1''\<rparr>,
              \<lparr>tl_id = 6, tl_challengeId = ''c1'', tl_userId = ''bob'',
               tl_weekId = Some ''w1'', delta = 1,
               reason = SIDE_CHALLENGE_VOID_REFUND, relatedEntityId = Some ''s1''\<rparr>]\<rparr>,
         0, 1)"
  by (simp add: acceptedBothDb_def exampleProposedDb_def exampleFinalDb_def exampleWager_def
        cleanupSideChallengesOnWeekLock_def cleanupOne_def isOpenStatus_def
        sideChallenge_update_def voidSideChallengeTokens_def tokenLedger_createMany_def
        tokenLedger_create_def next_id_def ledgerRow_def calculateWinner_def
        rt_example_def fmt_example_def Let_def)

section \<open>Weekly leaderboard\<close>

lemma rankLoop_entries:
  "i \<le> length S \<Longrightarrow> (i < length S \<longrightarrow> r = groupRank (map (\<lambda>u. snd (snd u)) S) i)
   \<Longrightarrow> rankLoop S i r acc = acc @ map (rankedEntry S) [i..<length S]"
proof (induction "length S - i" arbitrary: i r acc)
  case 0
  then show ?case by (subst rankLoop.simps) simp
next
  case (Suc n)
  then have lt: "i < length S" by simp
  let ?P = "map (\<lambda>u. snd (snd u)) S"
  let ?r' = "if i < length S - 1 \<and> snd (snd (S ! i)) \<noteq> snd (snd (S ! (i + 1)))
             then i + 2 else r"
  let ?e = "\<lparr>ps_userId = fst (S ! i), ps_displayName = fst (snd (S ! i)),
             ps_points = snd (snd (S ! i)), rank = r,
             tied = ((i > 0 \<and> snd (snd (S ! i)) = snd (snd (S ! (i - 1))))
                     \<or> (i < length S - 1 \<and> snd (snd (S ! i)) = snd (snd (S ! (i + 1)))))\<rparr>"
  have step: "rankLoop S i r acc = rankLoop S (i + 1) ?r' (acc @ [?e])"
    by (subst rankLoop.simps) (simp add: lt Let_def)
  have r: "r = groupRank ?P i" using Suc.prems lt by simp
  have e: "?e = rankedEntry S i"
    using lt by (auto simp add: rankedEntry_def tiedAt_def r less_diff_conv)
  have r': "i + 1 < length S \<longrightarrow> ?r' = groupRank ?P (i + 1)"
    using lt r by (auto simp add: less_diff_conv)
  have "rankLoop S (i + 1) ?r' (acc @ [?e]) = (acc @ [?e]) @ map (rankedEntry S) [i + 1..<length S]"
    using Suc.hyps(2) lt r' by (intro Suc.hyps(1)) auto
  then show ?case using step e lt by (simp add: upt_conv_Cons)
qed

lemma groupRank_card:
  assumes "sorted_wrt (\<lambda>a b. b \<le> a) ps" and "k < length ps"
  shows "groupRank ps k = Suc (card {j. j < length ps \<and> ps ! k < ps ! j})"
  using assms(2)
proof (induction k)
  case 0
  have "\<forall>j<length ps. ps ! j \<le> ps ! 0"
  proof (intro allI impI)
    fix j assume "j < length ps"
    show "ps ! j \<le> ps ! 0"
    proof (cases j)
      case 0 then show ?thesis by simp
    next
      case (Suc m)
      with sorted_wrt_nth_less[OF assms(1), of 0 j] \<open>j < length ps\<close> show ?thesis by simp
    qed
  qed
  then have "{j. j < length ps \<and> ps ! 0 < ps ! j} = {}" by (auto simp: not_less[symmetric])
  then show ?case by simp
next
  case (Suc k)
  then have k: "k < length ps" by simp
  have ge: "ps ! Suc k \<le> ps ! k"
    using sorted_wrt_nth_less[OF assms(1), of k "Suc k"] Suc.prems by simp
  show ?case
  proof (cases "ps ! Suc k = ps ! k")
    case True
    then show ?thesis using Suc.IH[OF k] by simp
  next
    case False
    with ge have gt: "ps ! Suc k < ps ! k" by simp
    have "{j. j < length ps \<and> ps ! Suc k < ps ! j} = {..k}"
    proof (intro set_eqI iffI)
      fix j assume "j \<in> {j. j < length ps \<and> ps ! Suc k < ps ! j}"
      then have j: "j < length ps" "ps ! Suc k < ps ! j" by auto
      have "\<not> Suc k \<le> j"
      proof
        assume "Suc k \<le> j"
        then consider "j = Suc k" | "Suc k < j" by linarith
        then show False
        proof cases
          case 1 with j show False by simp
        next
          case 2
          from sorted_wrt_nth_less[OF assms(1) 2 j(1)] j(2) show False by simp
        qed
      qed
      then show "j \<in> {..k}" by simp
    next
      fix j assume "j \<in> {..k}"
      then have jk: "j \<le> k" by simp
      have "ps ! k \<le> ps ! j"
      proof (cases "j = k")
        case True then show ?thesis by simp
      next
        case False
        with jk have "j < k" by simp
        from sorted_wrt_nth_less[OF assms(1) this k] show ?thesis .
      qed
      with gt jk k show "j \<in> {j. j < length ps \<and> ps ! Suc k < ps ! j}" by simp
    qed
    then show ?thesis using False by simp
  qed
qed

lemma fold_addParticipant_keys:
  "fst ` set (fold (addParticipant d) ps up) = fst ` set up \<union> p_userId ` set ps"
proof (induction ps arbitrary: up)
  case Nil then show ?case by simp
next
  case (Cons p ps)
  have "fst ` set (addParticipant d p up) = insert (p_userId p) (fst ` set up)"
    by (auto simp add: addParticipant_def dom_update map_of_eq_None_iff)
  then show ?case using Cons.IH[of "addParticipant d p up"] by auto
qed

lemma map_of_fold_addParticipant:
  "map_of (fold (addParticipant d) ps up) u =
     (case map_of up u of
        Some v \<Rightarrow> Some v
      | None \<Rightarrow> if u \<in> p_userId ` set ps then Some (displayNameOf d u, 0) else None)"
proof (induction ps arbitrary: up)
  case Nil then show ?case by (simp split: option.splits)
next
  case (Cons p ps)
  have one: "map_of (addParticipant d p up) u =
          (case map_of up u of Some v \<Rightarrow> Some v
           | None \<Rightarrow> if u = p_userId p then Some (displayNameOf d u, 0) else None)"
    by (auto simp add: addParticipant_def update_conv split: option.splits)
  show ?case using Cons.IH[of "addParticipant d p up"]
    by (auto simp add: one split: option.splits)
qed

lemma map_of_addCompletionPoints:
  "map_option snd (map_of (addCompletionPoints d x up) u) =
     (if u = c_userId x
      then Some ((case map_of up u of Some v \<Rightarrow> snd v | None \<Rightarrow> 0)
                 + pointsOf d (taskTemplateId x))
      else map_option snd (map_of up u))"
  by (auto simp add: addCompletionPoints_def update_conv Let_def split: option.splits)

lemma map_of_fold_addCompletionPoints:
  "map_option snd (map_of (fold (addCompletionPoints d) cs up) u) =
     (if u \<in> c_userId ` set cs \<or> map_of up u \<noteq> None
      then Some ((case map_of up u of Some v \<Rightarrow> snd v | None \<Rightarrow> 0)
                 + sum_list (map (\<lambda>x. pointsOf d (taskTemplateId x))
                     (filter (\<lambda>x. c_userId x = u) cs)))
      else None)"
proof (induction cs arbitrary: up)
  case Nil then show ?case by (auto split: option.splits)
next
  case (Cons x cs)
  show ?case
    using Cons.IH[of "addCompletionPoints d x up"] map_of_addCompletionPoints[of d x up u]
    by (cases "map_of (addCompletionPoints d x up) u"; cases "map_of up u")
       (auto split: if_splits)
qed

lemma distinct_fold_addCompletionPoints:
  "distinct (map fst up) \<Longrightarrow> distinct (map fst (fold (addCompletionPoints d) cs up))"
  by (induction cs arbitrary: up) (simp_all add: addCompletionPoints_def Let_def distinct_update)

lemma distinct_fold_addParticipant:
  "distinct (map fst up) \<Longrightarrow> distinct (map fst (fold (addParticipant d) ps up))"
  by (induction ps arbitrary: up) (simp_all add: addParticipant_def distinct_update)

lemma sortByPointsDesc_sorted:
  "sorted_wrt (\<lambda>a b. b \<le> a) (map (\<lambda>u. snd (snd u)) (sortByPointsDesc us))"
proof -
  have "sorted (map (\<lambda>u. - snd (snd u)) (sortByPointsDesc us))"
    unfolding sortByPointsDesc_def by (rule sorted_sort_key)
  then show ?thesis by (simp add: sorted_wrt_map sorted_map)
qed

lemma sortByPointsDesc_set: "set (sortByPointsDesc us) = set us"
  by (simp add: sortByPointsDesc_def)

lemma entries_facts:
  assumes L: "L = map (rankedEntry S) [0..<length S]"
  shows "length L = length S"
    and "map ps_points L = map (\<lambda>u. snd (snd u)) S"
    and "map ps_userId L = map fst S"
    and "\<forall>k<length L. rank (L ! k) = groupRank (map ps_points L) k
                       \<and> tied (L ! k) = tiedAt (map ps_points L) k"
proof -
  show len: "length L = length S" by (simp add: L)
  show pts: "map ps_points L = map (\<lambda>u. snd (snd u)) S"
    by (rule nth_equalityI) (simp_all add: L rankedEntry_def)
  show "map ps_userId L = map fst S"
    by (rule nth_equalityI) (simp_all add: L rankedEntry_def)
  show "\<forall>k<length L. rank (L ! k) = groupRank (map ps_points L) k
                       \<and> tied (L ! k) = tiedAt (map ps_points L) k"
    unfolding pts by (simp add: L rankedEntry_def)
qed

lemma upt_four: "[0..<4] = [0, Suc 0, Suc (Suc 0), Suc (Suc (Suc 0))]"
  by (simp add: upt_conv_Cons eval_nat_numeral)

lemma ranks_of_points:
  assumes r: "\<forall>k<length L. rank (L ! k) = groupRank (map ps_points L) k
                       \<and> tied (L ! k) = tiedAt (map ps_points L) k"
  shows "map rank L = map (groupRank (map ps_points L)) [0..<length L]"
    and "map tied L = map (tiedAt (map ps_points L)) [0..<length L]"
  using r by (auto intro!: nth_equalityI)

lemma ranks_example:
  assumes r: "\<forall>k<length L. rank (L ! k) = groupRank (map ps_points L) k
                       \<and> tied (L ! k) = tiedAt (map ps_points L) k"
    and p: "map ps_points L = [10, 10, 8, 5]"
  shows "map rank L = [1, 1, 3, 4] \<and> map tied L = [True, True, False, False]"
proof -
  from p have "length (map ps_points L) = 4" by simp
  then have len: "length L = 4" by simp
  show ?thesis
    unfolding ranks_of_points[OF r] p len upt_four
    by (simp add: tiedAt_def)
qed

text \<open>
  C5: the weekly leaderboard has an entry for every participant of the competition, with
  the points of the week (0 for a participant without a completion in that week); it is
  sorted by points in descending order; the first entry has rank 1, an entry with the
  score of the entry above it shares its rank and a new score gets rank previous index + 2,
  so that equal scores share a rank, which is one more than the number of entries with
  a strictly greater score; an entry is flagged tied exactly when its score equals the
  score of the entry immediately above or below it; and scores [10, 10, 8, 5] get ranks
  [1, 1, 3, 4] with the flags [true, true, false, false].
\<close>

theorem getWeeklyLeaderboard_correct:
  assumes L: "L = getWeeklyLeaderboard d c w"
  shows
   "(\<forall>p\<in>set (participants d). p_challengeId p = c \<longrightarrow>
        (\<exists>e\<in>set L. ps_userId e = p_userId p \<and> ps_points e = weekPoints d c w (p_userId p)))
    \<and> (\<forall>p\<in>set (participants d).
          p_challengeId p = c
          \<and> \<not> (\<exists>x\<in>set (completions d).
                   c_challengeId x = c \<and> c_weekId x = w \<and> c_userId x = p_userId p)
          \<longrightarrow> (\<exists>e\<in>set L. ps_userId e = p_userId p \<and> ps_points e = 0))
    \<and> sorted_wrt (\<lambda>a b. ps_points b \<le> ps_points a) L
    \<and> (L \<noteq> [] \<longrightarrow> rank (L ! 0) = 1)
    \<and> (\<forall>k. Suc k < length L \<longrightarrow>
          rank (L ! Suc k)
            = (if ps_points (L ! Suc k) = ps_points (L ! k) then rank (L ! k) else k + 2))
    \<and> (\<forall>i<length L. \<forall>j<length L.
          ps_points (L ! i) = ps_points (L ! j) \<longrightarrow> rank (L ! i) = rank (L ! j))
    \<and> (\<forall>k<length L.
          rank (L ! k) = Suc (card {j. j < length L \<and> ps_points (L ! k) < ps_points (L ! j)}))
    \<and> (\<forall>k<length L.
          tied (L ! k)
            = ((0 < k \<and> ps_points (L ! k) = ps_points (L ! (k - 1)))
               \<or> (k + 1 < length L \<and> ps_points (L ! k) = ps_points (L ! (k + 1)))))
    \<and> (map ps_points L = [10, 10, 8, 5] \<longrightarrow>
          map rank L = [1, 1, 3, 4] \<and> map tied L = [True, True, False, False])"
proof -
  define comps where
    "comps = filter (\<lambda>x. c_challengeId x = c \<and> c_weekId x = w) (completions d)"
  define parts where "parts = filter (\<lambda>p. p_challengeId p = c) (participants d)"
  define up where "up = fold (addCompletionPoints d) comps []"
  define up' where "up' = fold (addParticipant d) parts up"
  define S where
    "S = sortByPointsDesc (map (\<lambda>(userId, data). (userId, fst data, snd data)) up')"
  have "L = rankLoop S 0 1 []"
    unfolding L getWeeklyLeaderboard_def Let_def S_def up'_def up_def parts_def comps_def ..
  then have Lent: "L = map (rankedEntry S) [0..<length S]"
    using rankLoop_entries[of 0 S 1 "[]"] by simp
  note f = entries_facts[OF Lent]
  let ?P = "map ps_points L"
  have nthP: "?P ! k = ps_points (L ! k)" if "k < length L" for k using that by simp
  have srt: "sorted_wrt (\<lambda>a b. b \<le> a) ?P"
    unfolding f(2) S_def by (rule sortByPointsDesc_sorted)
  have rk: "rank (L ! k) = groupRank ?P k" and td: "tied (L ! k) = tiedAt ?P k"
    if "k < length L" for k using f(4) that by simp_all
  have crd: "rank (L ! k) = Suc (card {j. j < length L \<and> ps_points (L ! k) < ps_points (L ! j)})"
    if k: "k < length L" for k
  proof -
    have "{j. j < length ?P \<and> ?P ! k < ?P ! j}
            = {j. j < length L \<and> ps_points (L ! k) < ps_points (L ! j)}"
      using k by auto
    then show ?thesis using groupRank_card[OF srt, of k] k rk[OF k] by simp
  qed
  have dist: "distinct (map fst up')"
    unfolding up'_def up_def
    by (intro distinct_fold_addParticipant distinct_fold_addCompletionPoints) simp
  have incl: "\<exists>e\<in>set L. ps_userId e = p_userId p \<and> ps_points e = weekPoints d c w (p_userId p)"
    if p: "p \<in> set (participants d)" "p_challengeId p = c" for p
  proof -
    let ?u = "p_userId p"
    have "p \<in> set parts" using p by (simp add: parts_def)
    then have inP: "?u \<in> p_userId ` set parts" by (rule imageI)
    then have "?u \<in> fst ` set up'"
      unfolding up'_def fold_addParticipant_keys by simp
    then obtain v where v: "(?u, v) \<in> set up'" by force
    then have mo: "map_of up' ?u = Some v" using dist by simp
    have "(?u, fst v, snd v) \<in> set S"
      unfolding S_def sortByPointsDesc_set using v by force
    then obtain k where k: "k < length S" "S ! k = (?u, fst v, snd v)"
      by (auto simp: in_set_conv_nth)
    have kL: "k < length L" using k f(1) by simp
    have e: "L ! k \<in> set L" "ps_userId (L ! k) = ?u" "ps_points (L ! k) = snd v"
    proof -
      show "L ! k \<in> set L" using kL by (rule nth_mem)
      have "L ! k = rankedEntry S k" using k(1) by (simp add: Lent)
      then show "ps_userId (L ! k) = ?u" "ps_points (L ! k) = snd v"
        using k(2) by (simp_all add: rankedEntry_def)
    qed
    have up: "map_option snd (map_of up ?u) =
                (if ?u \<in> c_userId ` set comps
                 then Some (sum_list (map (\<lambda>x. pointsOf d (taskTemplateId x))
                              (filter (\<lambda>x. c_userId x = ?u) comps)))
                 else None)"
      unfolding up_def map_of_fold_addCompletionPoints by simp
    have wp: "weekPoints d c w ?u
                = sum_list (map (\<lambda>x. pointsOf d (taskTemplateId x))
                              (filter (\<lambda>x. c_userId x = ?u) comps))"
      by (simp add: weekPoints_def comps_def)
    have "snd v = weekPoints d c w ?u"
    proof (cases "map_of up ?u")
      case None
      with up have notin: "?u \<notin> c_userId ` set comps" by (simp split: if_splits)
      then have "\<forall>x\<in>set comps. c_userId x \<noteq> ?u" by (metis imageI)
      then have "filter (\<lambda>x. c_userId x = ?u) comps = []"
        by (simp add: filter_empty_conv)
      moreover from mo None inP have "v = (displayNameOf d ?u, 0)"
        unfolding up'_def map_of_fold_addParticipant by simp
      ultimately show ?thesis by (simp add: wp)
    next
      case (Some v0)
      with mo have "v = v0" unfolding up'_def map_of_fold_addParticipant by simp
      with up Some show ?thesis by (simp add: wp split: if_splits)
    qed
    with e show ?thesis by metis
  qed
  have zero: "\<exists>e\<in>set L. ps_userId e = p_userId p \<and> ps_points e = 0"
    if p: "p \<in> set (participants d)" "p_challengeId p = c"
      and no: "\<not> (\<exists>x\<in>set (completions d).
                   c_challengeId x = c \<and> c_weekId x = w \<and> c_userId x = p_userId p)" for p
  proof -
    from no have "weekPoints d c w (p_userId p) = 0"
      by (auto simp add: weekPoints_def filter_empty_conv)
    with incl[OF p] show ?thesis by simp
  qed
  have c1: "\<forall>p\<in>set (participants d). p_challengeId p = c \<longrightarrow>
        (\<exists>e\<in>set L. ps_userId e = p_userId p \<and> ps_points e = weekPoints d c w (p_userId p))"
    using incl by blast
  have c2: "\<forall>p\<in>set (participants d).
          p_challengeId p = c
          \<and> \<not> (\<exists>x\<in>set (completions d).
                   c_challengeId x = c \<and> c_weekId x = w \<and> c_userId x = p_userId p)
          \<longrightarrow> (\<exists>e\<in>set L. ps_userId e = p_userId p \<and> ps_points e = 0)"
    using zero by blast
  have c3: "sorted_wrt (\<lambda>a b. ps_points b \<le> ps_points a) L"
    using srt by (simp add: sorted_wrt_map)
  have c4: "L \<noteq> [] \<longrightarrow> rank (L ! 0) = 1"
    using rk[of 0] by simp
  have c5: "\<forall>k. Suc k < length L \<longrightarrow>
          rank (L ! Suc k)
            = (if ps_points (L ! Suc k) = ps_points (L ! k) then rank (L ! k) else k + 2)"
  proof (intro allI impI)
    fix k assume k: "Suc k < length L"
    then have "k < length L" by simp
    from rk[OF k] rk[OF this] nthP[OF k] nthP[OF this]
    show "rank (L ! Suc k)
            = (if ps_points (L ! Suc k) = ps_points (L ! k) then rank (L ! k) else k + 2)"
      by simp
  qed
  have c6: "\<forall>i<length L. \<forall>j<length L.
          ps_points (L ! i) = ps_points (L ! j) \<longrightarrow> rank (L ! i) = rank (L ! j)"
    using crd by simp
  have c7: "\<forall>k<length L.
          rank (L ! k) = Suc (card {j. j < length L \<and> ps_points (L ! k) < ps_points (L ! j)})"
    using crd by blast
  have c8: "\<forall>k<length L.
          tied (L ! k)
            = ((0 < k \<and> ps_points (L ! k) = ps_points (L ! (k - 1)))
               \<or> (k + 1 < length L \<and> ps_points (L ! k) = ps_points (L ! (k + 1))))"
  proof (intro allI impI)
    fix k assume k: "k < length L"
    show "tied (L ! k)
            = ((0 < k \<and> ps_points (L ! k) = ps_points (L ! (k - 1)))
               \<or> (k + 1 < length L \<and> ps_points (L ! k) = ps_points (L ! (k + 1))))"
      unfolding td[OF k] tiedAt_def using k by auto
  qed
  have c9: "map ps_points L = [10, 10, 8, 5] \<longrightarrow>
          map rank L = [1, 1, 3, 4] \<and> map tied L = [True, True, False, False]"
    using ranks_example[OF f(4)] by blast
  from c1 c2 c3 c4 c5 c6 c7 c8 c9 show ?thesis by (intro conjI)
qed

lemma leaderboardExample_week1:
  "map ps_userId (getWeeklyLeaderboard leaderboardExampleDb ''c1'' ''w1'')
     = [''bob'', ''alice'', ''carol'', ''dave'']"
  "map ps_points (getWeeklyLeaderboard leaderboardExampleDb ''c1'' ''w1'') = [10, 10, 8, 5]"
  by code_simp+

lemma leaderboardExample_week2:
  "map ps_userId (getWeeklyLeaderboard leaderboardExampleDb ''c1'' ''w2'')
     = [''carol'', ''alice'', ''bob'', ''dave'']"
  "map ps_points (getWeeklyLeaderboard leaderboardExampleDb ''c1'' ''w2'') = [8, 0, 0, 0]"
  "map rank (getWeeklyLeaderboard leaderboardExampleDb ''c1'' ''w2'') = [1, 2, 2, 2]"
  "map tied (getWeeklyLeaderboard leaderboardExampleDb ''c1'' ''w2'') = [False, True, True, True]"
  by code_simp+

theorem getWeeklyLeaderboard_correct_witness:
  "map ps_userId (getWeeklyLeaderboard leaderboardExampleDb ''c1'' ''w1'')
     = [''bob'', ''alice'', ''carol'', ''dave'']
   \<and> map ps_points (getWeeklyLeaderboard leaderboardExampleDb ''c1'' ''w1'') = [10, 10, 8, 5]
   \<and> map rank (getWeeklyLeaderboard leaderboardExampleDb ''c1'' ''w1'') = [1, 1, 3, 4]
   \<and> map tied (getWeeklyLeaderboard leaderboardExampleDb ''c1'' ''w1'')
      = [True, True, False, False]
   \<and> map ps_userId (getWeeklyLeaderboard leaderboardExampleDb ''c1'' ''w2'')
      = [''carol'', ''alice'', ''bob'', ''dave'']
   \<and> map ps_points (getWeeklyLeaderboard leaderboardExampleDb ''c1'' ''w2'') = [8, 0, 0, 0]
   \<and> map rank (getWeeklyLeaderboard leaderboardExampleDb ''c1'' ''w2'') = [1, 2, 2, 2]
   \<and> map tied (getWeeklyLeaderboard leaderboardExampleDb ''c1'' ''w2'')
      = [False, True, True, True]
   \<and> (\<exists>e\<in>set (getWeeklyLeaderboard leaderboardExampleDb ''c1'' ''w2'').
         ps_userId e = ''dave'' \<and> ps_points e = 0)"
proof -
  note week1 = getWeeklyLeaderboard_correct
                 [OF refl, where d = leaderboardExampleDb and c = "''c1''" and w = "''w1''"]
  note week2 = getWeeklyLeaderboard_correct
                 [OF refl, where d = leaderboardExampleDb and c = "''c1''" and w = "''w2''"]
  from week1 have
    "map ps_points (getWeeklyLeaderboard leaderboardExampleDb ''c1'' ''w1'') = [10, 10, 8, 5]
       \<longrightarrow> map rank (getWeeklyLeaderboard leaderboardExampleDb ''c1'' ''w1'') = [1, 1, 3, 4]
           \<and> map tied (getWeeklyLeaderboard leaderboardExampleDb ''c1'' ''w1'')
             = [True, True, False, False]"
    by (elim conjE)
  with leaderboardExample_week1(2) have ranks:
    "map rank (getWeeklyLeaderboard leaderboardExampleDb ''c1'' ''w1'') = [1, 1, 3, 4]
     \<and> map tied (getWeeklyLeaderboard leaderboardExampleDb ''c1'' ''w1'')
       = [True, True, False, False]"
    by (rule rev_mp)
  from week2 have
    "\<forall>p\<in>set (participants leaderboardExampleDb).
          p_challengeId p = ''c1''
          \<and> \<not> (\<exists>x\<in>set (completions leaderboardExampleDb).
                   c_challengeId x = ''c1'' \<and> c_weekId x = ''w2'' \<and> c_userId x = p_userId p)
          \<longrightarrow> (\<exists>e\<in>set (getWeeklyLeaderboard leaderboardExampleDb ''c1'' ''w2'').
                 ps_userId e = p_userId p \<and> ps_points e = 0)"
    by (elim conjE)
  from this[rule_format, of "\<lparr>p_challengeId = ''c1'', p_userId = ''dave''\<rparr>"]
  have dave: "\<exists>e\<in>set (getWeeklyLeaderboard leaderboardExampleDb ''c1'' ''w2'').
                 ps_userId e = ''dave'' \<and> ps_points e = 0"
    by (simp add: leaderboardExampleDb_def emptyDb_def)
  from leaderboardExample_week1 ranks leaderboardExample_week2 dave show ?thesis
    by (intro conjI) (simp_all only:)
qed

end
